(* ===== verification/MockServer_Prelude.thy ===== *)
theory MockServer_Prelude
  imports Main "HOL-Library.Word"
begin

text \<open>
  Shared vocabulary of the mock-server development: the types that stand for
  Go's \<^verbatim>\<open>[]byte\<close>, \<^verbatim>\<open>int\<close>, \<^verbatim>\<open>time.Duration\<close> and \<^verbatim>\<open>error\<close>, the
  collections of facts the component theories feed to the simplifier, and the
  generic lemmas on signed 64-bit words, sums and lists that more than one
  component needs.
\<close>

section \<open>Fact collections\<close>

named_theorems ms_defs \<open>unfoldings of the operations of the model\<close>
named_theorems ms_frame \<open>frame facts: what an operation leaves unchanged\<close>
named_theorems ms_inv \<open>invariant preservation facts\<close>

section \<open>Go's basic types\<close>

text \<open>
  A Go \<^verbatim>\<open>[]byte\<close> and a Go \<^verbatim>\<open>string\<close> are both sequences of 8-bit bytes;
  HOL's \<^typ>\<open>char\<close> is an 8-bit byte, so both are \<^typ>\<open>string\<close> here and the
  conversion \<^verbatim>\<open>string(js)\<close> of the source is the identity. Go's \<^verbatim>\<open>int\<close> (on
  the 64-bit platforms the server is built for) and \<^verbatim>\<open>time.Duration\<close>
  (\<^verbatim>\<open>int64\<close> nanoseconds) are 64-bit words read as two's complement.
\<close>

type_synonym bytes = string
type_synonym go_int = "64 word"
type_synonym duration = "64 word"

text \<open>
  A non-nil Go \<^verbatim>\<open>error\<close>. The server never inspects an error: it tests it
  against \<^verbatim>\<open>nil\<close> and prints it, so an error is its message.
\<close>

datatype error = Error (message: string)

type_synonym 'a result = "error + 'a"

abbreviation failed :: "'a result \<Rightarrow> bool" where
  "failed r \<equiv> isl r"

text \<open>A hexadecimal digit, in lower case.\<close>

definition hex_digit :: "nat \<Rightarrow> char" where
  "hex_digit d = (if d < 10 then char_of (48 + d) else char_of (87 + d))"

text \<open>The lists \<open>xs\<close> one after the other with the separator \<open>s\<close> between them.\<close>

fun concat_sep :: "'a list \<Rightarrow> 'a list list \<Rightarrow> 'a list" where
  "concat_sep s [] = []"
| "concat_sep s [x] = x"
| "concat_sep s (x # y # xs) = x @ s @ concat_sep s (y # xs)"

section \<open>Signed 64-bit words\<close>

definition go_int_range :: "int \<Rightarrow> bool" where
  "go_int_range i \<longleftrightarrow> - (2 ^ 63) \<le> i \<and> i < 2 ^ 63"

definition int_between :: "int \<Rightarrow> int \<Rightarrow> go_int \<Rightarrow> bool" where
  "int_between lo hi x \<longleftrightarrow> lo \<le> sint x \<and> sint x \<le> hi"

lemma sint_go_int [simp]:
  "go_int_range i \<Longrightarrow> sint (word_of_int i :: go_int) = i"
  by (simp add: go_int_range_def sint_sbintrunc' signed_take_bit_int_eq_self)

lemma go_int_range_sint [simp]: "go_int_range (sint (x :: go_int))"
  using sint_range_size [of x] by (simp add: go_int_range_def word_size)

lemma go_int_rangeI: "- (2 ^ 63) \<le> i \<Longrightarrow> i < 2 ^ 63 \<Longrightarrow> go_int_range i"
  by (simp add: go_int_range_def)

lemma go_int_eq_iff: "(x :: go_int) = y \<longleftrightarrow> sint x = sint y"
  by (auto intro: signed_word_eqI)

lemma word_of_int_sint_go [simp]: "word_of_int (sint (x :: go_int)) = x"
  by simp

lemma int_between_word_of_int:
  "go_int_range i \<Longrightarrow> int_between lo hi (word_of_int i) \<longleftrightarrow> lo \<le> i \<and> i \<le> hi"
  by (simp add: int_between_def)

lemma sint_mult_go_int:
  "go_int_range (sint a * sint b) \<Longrightarrow> sint (a * b :: go_int) = sint a * sint b"
  by (simp add: sint_word_mult go_int_range_def signed_take_bit_int_eq_self)

section \<open>Sums as results\<close>

lemma result_cases [case_names Failure Success]:
  "(\<And>e. r = Inl e \<Longrightarrow> P) \<Longrightarrow> (\<And>v. r = Inr v \<Longrightarrow> P) \<Longrightarrow> P"
  by (cases r) auto

lemma failed_iff: "failed r \<longleftrightarrow> (\<exists>e. r = Inl e)"
  by (cases r) auto

lemma not_failed_iff: "\<not> failed r \<longleftrightarrow> (\<exists>v. r = Inr v)"
  by (cases r) auto

section \<open>Lists\<close>

lemma filter_snoc_length:
  "length (filter P (xs @ [x])) = length (filter P xs) + (if P x then 1 else 0)"
  by simp

lemma last_snoc_eq: "xs = ys @ [y] \<Longrightarrow> last xs = y"
  by simp

lemma butlast_all: "\<forall>x \<in> set xs. P x \<Longrightarrow> \<forall>x \<in> set (butlast xs). P x"
  by (auto dest: in_set_butlastD)

text \<open>A sum over an interval with one index taken out.\<close>

lemma sum_split_at:
  fixes h :: "nat \<Rightarrow> 'a :: comm_monoid_add"
  shows "i < n \<Longrightarrow> sum h {0..<n} = h i + sum h ({0..<n} - {i})"
  by (intro sum.remove) simp_all

section \<open>Runs of a deterministic relation\<close>

text \<open>
  Two runs of a deterministic step relation from the same state that both end
  in states without a successor end in the same state.
\<close>

lemma rtranclp_final_unique:
  assumes xy: "r\<^sup>*\<^sup>* x y" and xz: "r\<^sup>*\<^sup>* x z"
    and det: "\<And>x y z. r x y \<Longrightarrow> r x z \<Longrightarrow> y = z"
    and fy: "\<And>w. \<not> r y w" and fz: "\<And>w. \<not> r z w"
  shows "y = z"
  using xy xz
proof (induction rule: converse_rtranclp_induct)
  case base
  then show ?case using fy by (auto elim: converse_rtranclpE)
next
  case (step x x')
  from step.prems step.hyps(1) fz obtain x'' where "r x x''" "r\<^sup>*\<^sup>* x'' z"
    by (auto elim: converse_rtranclpE)
  with det step.hyps(1) have "r\<^sup>*\<^sup>* x' z" by blast
  then show ?case by (rule step.IH)
qed

text \<open>
  And a run to a state without a successor passes through nothing it could
  not continue from: every state on the way still reaches the final state.
\<close>

lemma rtranclp_to_final:
  assumes xy: "r\<^sup>*\<^sup>* x y" and xz: "r\<^sup>*\<^sup>* x z"
    and det: "\<And>x y z. r x y \<Longrightarrow> r x z \<Longrightarrow> y = z"
    and fz: "\<And>w. \<not> r z w"
  shows "r\<^sup>*\<^sup>* y z"
  using xy xz
proof (induction rule: converse_rtranclp_induct)
  case base
  then show ?case .
next
  case (step x x')
  from step.prems step.hyps(1) fz obtain x'' where "r x x''" "r\<^sup>*\<^sup>* x'' z"
    by (auto elim: converse_rtranclpE)
  with det step.hyps(1) have "r\<^sup>*\<^sup>* x' z" by blast
  then show ?case by (rule step.IH)
qed

section \<open>Lists against lists of patterns\<close>

text \<open>\<open>matches ps xs\<close>: the list has one element per predicate, each satisfying its own.\<close>

definition matches :: "('a \<Rightarrow> bool) list \<Rightarrow> 'a list \<Rightarrow> bool" where
  "matches ps xs = list_all2 (\<lambda>p x. p x) ps xs"

lemma matches_simps [simp]:
  "matches [] xs \<longleftrightarrow> xs = []"
  "matches ps [] \<longleftrightarrow> ps = []"
  "matches (p # ps) (x # xs) \<longleftrightarrow> p x \<and> matches ps xs"
  by (auto simp: matches_def)

lemma matches_Cons: "matches (p # ps) xs \<longleftrightarrow> (\<exists>y ys. xs = y # ys \<and> p y \<and> matches ps ys)"
  by (auto simp: matches_def list_all2_Cons1)

text \<open>Reading a list up to the first occurrence of a separator.\<close>

lemma takeWhile_until: "a \<notin> set xs \<Longrightarrow> takeWhile (\<lambda>x. x \<noteq> a) (xs @ a # ys) = xs"
  and dropWhile_until: "a \<notin> set xs \<Longrightarrow> dropWhile (\<lambda>x. x \<noteq> a) (xs @ a # ys) = a # ys"
  by (induction xs) auto

end
