(* ===== verification/Json.thy ===== *)
theory Json
  imports MockServer_Prelude
begin

text \<open>
  The values a request decodes to. The handler declares
  \<^verbatim>\<open>var pairs map[string]interface{}\<close> and lets \<^verbatim>\<open>json.Unmarshal\<close> fill it, so
  a decoded request is a Go map from strings to \<^verbatim>\<open>interface{}\<close> values of the
  six dynamic types the decoder produces. This theory holds that value type,
  map indexing as Go defines it (a missing key yields the nil interface) and
  the type of a decoder. The handler takes the decoder as a parameter; the
  decoder of the standard library is built in the theories \<open>Json_Lexer\<close>,
  \<open>Json_Parser\<close> and \<open>Json_Unmarshal\<close>.
\<close>

section \<open>Decoded values\<close>

text \<open>
  \<open>GoNil\<close> is the nil interface (JSON \<^verbatim>\<open>null\<close>), \<open>GoFloat64\<close> carries the
  literal the number was read from (no operation of the server looks inside a
  number), \<open>GoMap\<close> is an association list read with \<^const>\<open>map_of\<close>.
\<close>

datatype iface =
    GoNil
  | GoBool bool
  | GoFloat64 string
  | GoString string
  | GoSlice "iface list"
  | GoMap "(string \<times> iface) list"

type_synonym pairs = "(string \<times> iface) list"

type_synonym unmarshal = "bytes \<Rightarrow> pairs result"

section \<open>Indexing a map\<close>

text \<open>
  \<^verbatim>\<open>pairs["request"]\<close>: the value stored under the key, and the zero value of
  the element type, the nil interface, when the key is absent (or the map is
  nil, which a decoded \<^verbatim>\<open>null\<close> leaves behind).
\<close>

definition index :: "pairs \<Rightarrow> string \<Rightarrow> iface" where
  "index m k = (case map_of m k of None \<Rightarrow> GoNil | Some v \<Rightarrow> v)"

lemma index_Nil [simp]: "index [] k = GoNil"
  by (simp add: index_def)

lemma index_Cons [simp]:
  "index ((k', v) # m) k = (if k = k' then v else index m k)"
  by (simp add: index_def)

lemma index_absent: "k \<notin> fst ` set m \<Longrightarrow> index m k = GoNil"
  by (induction m) auto

lemma index_present: "index m k \<noteq> GoNil \<Longrightarrow> k \<in> fst ` set m"
  using index_absent by blast

lemma index_eq_GoString_iff:
  "index m k = GoString s \<longleftrightarrow> map_of m k = Some (GoString s)"
  by (simp add: index_def split: option.split)

end
