(* ===== verification/Logger.thy ===== *)
theory Logger
  imports Json "HOL-Library.Sublist"
begin

text \<open>
  The process-wide logger of \<^verbatim>\<open>zabbix/pkg/log\<close> as the server uses it. The
  package is not part of the sources; what is modelled is the interface the
  server calls: the leveled printing functions, which record one call each,
  and the constants for sink and verbosity that \<^verbatim>\<open>main\<close> chooses from. A log
  is the list of calls made so far, oldest first. What a sink opened at a
  verbosity shows of it is the calls at that level and below (\<open>shown\<close>), the
  levels ordered as the option \<^verbatim>\<open>DebugLevel\<close> numbers them; the text of a call
  is in the theory \<open>Fmt\<close>. The prefix the logger puts before a line (time,
  process) is not modelled.
\<close>

section \<open>Levels, sinks and calls\<close>

datatype log_level = Info | Crit | Err | Warning | Debug | Trace

datatype log_type = Console | File

text \<open>
  The arguments a format is printed with are kept as values: an error, a
  string or byte slice, or an \<^verbatim>\<open>interface{}\<close> value.
\<close>

datatype log_arg = ErrArg error | StrArg string | IfaceArg iface

datatype log_call = LogCall (level: log_level) (format: string) (args: "log_arg list")

type_synonym log = "log_call list"

section \<open>The printing functions\<close>

definition Infof :: "string \<Rightarrow> log_arg list \<Rightarrow> log \<Rightarrow> log" where
  "Infof fmt as lg = lg @ [LogCall Info fmt as]"

definition Critf :: "string \<Rightarrow> log_arg list \<Rightarrow> log \<Rightarrow> log" where
  "Critf fmt as lg = lg @ [LogCall Crit fmt as]"

definition Warningf :: "string \<Rightarrow> log_arg list \<Rightarrow> log \<Rightarrow> log" where
  "Warningf fmt as lg = lg @ [LogCall Warning fmt as]"

definition Debugf :: "string \<Rightarrow> log_arg list \<Rightarrow> log \<Rightarrow> log" where
  "Debugf fmt as lg = lg @ [LogCall Debug fmt as]"

lemmas log_defs [ms_defs] = Infof_def Critf_def Warningf_def Debugf_def

section \<open>Verbosity\<close>

text \<open>
  The levels in the order of the verbosity that admits them, as the option
  \<^verbatim>\<open>DebugLevel\<close> numbers them: a sink opened at a level prints the calls at
  that level and below.
\<close>

fun verbosity :: "log_level \<Rightarrow> nat" where
  "verbosity Info = 0"
| "verbosity Crit = 1"
| "verbosity Err = 2"
| "verbosity Warning = 3"
| "verbosity Debug = 4"
| "verbosity Trace = 5"

instantiation log_level :: linorder
begin

definition less_eq_log_level :: "log_level \<Rightarrow> log_level \<Rightarrow> bool" where
  "l \<le> l' \<longleftrightarrow> verbosity l \<le> verbosity l'"

definition less_log_level :: "log_level \<Rightarrow> log_level \<Rightarrow> bool" where
  "l < l' \<longleftrightarrow> verbosity l < verbosity l'"

instance
proof
  fix x y :: log_level
  show "x \<le> y \<Longrightarrow> y \<le> x \<Longrightarrow> x = y"
    unfolding less_eq_log_level_def by (cases x; cases y) simp_all
qed (auto simp: less_eq_log_level_def less_log_level_def)

end

definition shown :: "log_level \<Rightarrow> log \<Rightarrow> log" where
  "shown v lg = filter (\<lambda>c. level c \<le> v) lg"

section \<open>Reading a log\<close>

definition at_level :: "log_level \<Rightarrow> log \<Rightarrow> log" where
  "at_level l lg = filter (\<lambda>c. level c = l) lg"

abbreviation warnings :: "log \<Rightarrow> log" where
  "warnings \<equiv> at_level Warning"

lemma at_level_Nil [simp]: "at_level l [] = []"
  by (simp add: at_level_def)

lemma at_level_append [simp]: "at_level l (xs @ ys) = at_level l xs @ at_level l ys"
  by (simp add: at_level_def)

lemma at_level_Cons [simp]:
  "at_level l (c # lg) = (if level c = l then c # at_level l lg else at_level l lg)"
  by (simp add: at_level_def)

lemma at_level_printf [simp]:
  "at_level l (Infof fmt as lg) = at_level l lg @ (if l = Info then [LogCall Info fmt as] else [])"
  "at_level l (Critf fmt as lg) = at_level l lg @ (if l = Crit then [LogCall Crit fmt as] else [])"
  "at_level l (Warningf fmt as lg) =
     at_level l lg @ (if l = Warning then [LogCall Warning fmt as] else [])"
  "at_level l (Debugf fmt as lg) = at_level l lg @ (if l = Debug then [LogCall Debug fmt as] else [])"
  by (auto simp: log_defs)

text \<open>The printing functions only ever extend the log.\<close>

lemma printf_extends:
  "prefix lg (Infof fmt as lg)" "prefix lg (Critf fmt as lg)"
  "prefix lg (Warningf fmt as lg)" "prefix lg (Debugf fmt as lg)"
  by (simp_all add: log_defs)

section \<open>What a sink shows\<close>

lemma shown_simps [simp]:
  "shown v [] = []" "shown v (lg @ lg') = shown v lg @ shown v lg'"
  "shown v (c # lg) = (if level c \<le> v then c # shown v lg else shown v lg)"
  by (simp_all add: shown_def)

lemma shown_printf [simp]:
  "shown v (Infof fmt as lg) = shown v lg @ [LogCall Info fmt as]"
  "shown v (Critf fmt as lg) = shown v lg @ (if Crit \<le> v then [LogCall Crit fmt as] else [])"
  "shown v (Warningf fmt as lg) =
     shown v lg @ (if Warning \<le> v then [LogCall Warning fmt as] else [])"
  "shown v (Debugf fmt as lg) = shown v lg @ (if Debug \<le> v then [LogCall Debug fmt as] else [])"
  by (simp_all add: log_defs less_eq_log_level_def)

lemma shown_shown [simp]: "shown v (shown v' lg) = shown (min v v') lg"
  by (induction lg) (auto simp: min_def)

lemma verbosity_le_5: "verbosity l \<le> 5"
  by (cases l) simp_all

lemma shown_Trace [simp]: "shown Trace lg = lg"
  by (simp add: shown_def less_eq_log_level_def verbosity_le_5)

end
