(* ===== verification/Strconv.thy ===== *)
theory Strconv
  imports MockServer_Prelude
begin

text \<open>
  Decimal conversion as Go's \<^verbatim>\<open>strconv\<close> does it for the values the server
  handles: \<^verbatim>\<open>strconv.Itoa\<close>, which \<^verbatim>\<open>main\<close> uses to build the listening
  address from the port, and the parsing of a decimal integer, which reading
  an integer option from the configuration comes down to; \<^verbatim>\<open>strconv.ParseBool\<close>,
  which reads the value of a boolean flag, and \<^verbatim>\<open>strconv.FormatBool\<close>, which
  prints one; \<^verbatim>\<open>strconv.Quote\<close> on ASCII text, by which the flag package
  prints a default and a value at fault; and the range check of
  \<^verbatim>\<open>strconv.ParseFloat\<close>, by which the JSON decoder refuses a number. The
  standard library is not part of the sources; the functions are modelled
  from their documented behaviour. \<^verbatim>\<open>Itoa\<close> and the parsing of an integer are
  proved to be inverse to each other. Of a floating-point literal only the
  question whether it overflows is modelled, not its value: the literal
  overflows when, rounded to 53 bits, it reaches \<^verbatim>\<open>2^1024\<close>, that is when it is
  at least \<^verbatim>\<open>2^1024 - 2^970\<close>, half a unit in the last place above the largest
  finite \<^verbatim>\<open>float64\<close>.
\<close>

section \<open>Digits\<close>

definition digit_char :: "nat \<Rightarrow> char" where
  "digit_char d = ''0123456789'' ! d"

definition digit_val :: "char \<Rightarrow> nat option" where
  "digit_val c =
     (let k = (of_char c :: nat) in if 48 \<le> k \<and> k \<le> 57 then Some (k - 48) else None)"

fun digits :: "nat \<Rightarrow> string" where
  "digits n = (if n < 10 then [digit_char n] else digits (n div 10) @ [digit_char (n mod 10)])"

declare digits.simps [simp del]

fun parse_from :: "nat \<Rightarrow> string \<Rightarrow> nat option" where
  "parse_from acc [] = Some acc"
| "parse_from acc (c # cs) =
     (case digit_val c of None \<Rightarrow> None | Some d \<Rightarrow> parse_from (10 * acc + d) cs)"

definition parse_digits :: "string \<Rightarrow> nat option" where
  "parse_digits s = (if s = [] then None else parse_from 0 s)"

section \<open>Itoa and Atoi\<close>

text \<open>\<^verbatim>\<open>strconv.Itoa\<close>: a minus sign for a negative value, then the digits.\<close>

definition Itoa :: "go_int \<Rightarrow> string" where
  "Itoa i = (if sint i < 0 then CHR ''-'' # digits (nat (- sint i)) else digits (nat (sint i)))"

definition syntax_error :: error where
  "syntax_error = Error ''invalid syntax''"

definition range_error :: error where
  "range_error = Error ''value out of range''"

text \<open>
  \<^verbatim>\<open>strconv.Atoi\<close>: an optional sign, at least one digit and nothing else; a
  number that does not fit 64 bits is a range error.
\<close>

definition signed_value :: "string \<Rightarrow> int option" where
  "signed_value s =
     (case s of
        [] \<Rightarrow> None
      | c # cs \<Rightarrow>
          if c = CHR ''-'' then map_option (\<lambda>n. - int n) (parse_digits cs)
          else if c = CHR ''+'' then map_option int (parse_digits cs)
          else map_option int (parse_digits s))"

definition Atoi :: "string \<Rightarrow> go_int result" where
  "Atoi s =
     (case signed_value s of
        None \<Rightarrow> Inl syntax_error
      | Some v \<Rightarrow> if go_int_range v then Inr (word_of_int v) else Inl range_error)"

section \<open>Booleans\<close>

text \<open>\<^verbatim>\<open>strconv.FormatBool\<close>: the word for the value.\<close>

definition FormatBool :: "bool \<Rightarrow> string" where
  "FormatBool b = (if b then ''true'' else ''false'')"

text \<open>\<^verbatim>\<open>strconv.ParseBool\<close>: the six spellings of each value, nothing else.\<close>

definition ParseBool :: "string \<Rightarrow> bool option" where
  "ParseBool s =
     (if s \<in> set [''1'', ''t'', ''T'', ''TRUE'', ''true'', ''True''] then Some True
      else if s \<in> set [''0'', ''f'', ''F'', ''FALSE'', ''false'', ''False''] then Some False
      else None)"

section \<open>Quoting\<close>

text \<open>
  \<^verbatim>\<open>strconv.Quote\<close>, which the verb \<^verbatim>\<open>%q\<close> applies to a string, on ASCII text:
  the text between quotation marks, the quotation mark and the backslash
  after a backslash, the control characters by their escapes (\<^verbatim>\<open>\n\<close>, \<^verbatim>\<open>\t\<close>
  and the like, \<^verbatim>\<open>\x\<close> and two digits for the others below the space,
  \<^verbatim>\<open>\u007f\<close> for the delete character). What is printed for a byte outside
  ASCII depends on the tables of Unicode, so a string that has one is not
  quoted by the model.
\<close>

definition quote_ascii :: "char \<Rightarrow> string" where
  "quote_ascii c =
     (if c = CHR 0x22 \<or> c = CHR 0x5C then [CHR 0x5C, c]
      else if 32 \<le> (of_char c :: nat) \<and> (of_char c :: nat) < 127 then [c]
      else if c = CHR 0x07 then [CHR 0x5C, CHR ''a'']
      else if c = CHR 0x08 then [CHR 0x5C, CHR ''b'']
      else if c = CHR 0x0C then [CHR 0x5C, CHR ''f'']
      else if c = CHR 0x0A then [CHR 0x5C, CHR ''n'']
      else if c = CHR 0x0D then [CHR 0x5C, CHR ''r'']
      else if c = CHR 0x09 then [CHR 0x5C, CHR ''t'']
      else if c = CHR 0x0B then [CHR 0x5C, CHR ''v'']
      else if (of_char c :: nat) < 32
      then [CHR 0x5C, CHR ''x'', hex_digit (of_char c div 16), hex_digit (of_char c mod 16)]
      else [CHR 0x5C, CHR ''u'', CHR ''0'', CHR ''0'', CHR ''7'', CHR ''f''])"

definition Quote :: "string \<Rightarrow> string option" where
  "Quote s =
     (if list_all (\<lambda>c. (of_char c :: nat) < 128) s
      then Some (CHR 0x22 # concat (map quote_ascii s) @ [CHR 0x22]) else None)"

text \<open>Plain text: printable ASCII without quotation mark and backslash.\<close>

definition plain_char :: "char \<Rightarrow> bool" where
  "plain_char c \<longleftrightarrow>
     32 \<le> (of_char c :: nat) \<and> (of_char c :: nat) < 127 \<and> c \<noteq> CHR 0x22 \<and> c \<noteq> CHR 0x5C"

abbreviation plain :: "string \<Rightarrow> bool" where
  "plain \<equiv> list_all plain_char"

section \<open>The range of a float64\<close>

text \<open>
  \<^verbatim>\<open>strconv.ParseFloat(s, 64)\<close> as far as the decoder of JSON depends on it:
  whether a number literal is too large for a \<^verbatim>\<open>float64\<close>, in which case the
  function reports a range error (a literal too small is read as zero without
  an error). The package reads the literal into a decimal of at most 800
  digits with a decimal point \<open>dp\<close>, the value being \<open>0.digits\<close> times ten to
  the power \<open>dp\<close>: leading zeros only move the point, digits past the 800th are
  dropped, and the exponent stops growing once it has reached 10000. The
  conversion rounds to the nearest \<^verbatim>\<open>float64\<close>, ties to even, so the result is
  infinite exactly when the decimal is at least \<open>2^1024 - 2^970\<close>, half a unit
  in the last place above the largest finite value.
\<close>

record decimal =
  digs :: "nat list"
  dp :: int
  sawdot :: bool

definition set_char :: "decimal \<Rightarrow> char \<Rightarrow> decimal" where
  "set_char b c =
     (if c = CHR ''.'' then b\<lparr>sawdot := True, dp := int (length (digs b))\<rparr>
      else if c = CHR ''0'' \<and> digs b = [] then b\<lparr>dp := dp b - 1\<rparr>
      else if length (digs b) < 800 then b\<lparr>digs := digs b @ [the (digit_val c)]\<rparr>
      else b)"

definition mantissa :: "string \<Rightarrow> string" where
  "mantissa s = takeWhile (\<lambda>c. c = CHR ''.'' \<or> digit_val c \<noteq> None) s"

definition unsigned :: "string \<Rightarrow> string" where
  "unsigned s = (case s of [] \<Rightarrow> [] | c # cs \<Rightarrow> if c = CHR ''+'' \<or> c = CHR ''-'' then cs else s)"

definition exponent :: "string \<Rightarrow> int" where
  "exponent s =
     (case s of
        [] \<Rightarrow> 0
      | c # cs \<Rightarrow>
          if c = CHR ''e'' \<or> c = CHR ''E''
          then (if cs \<noteq> [] \<and> hd cs = CHR ''-'' then - 1 else 1) *
            int (foldl (\<lambda>e x. if e < 10000 then e * 10 + the (digit_val x) else e) 0
              (takeWhile (\<lambda>x. digit_val x \<noteq> None) (unsigned cs)))
          else 0)"

definition decimal_set :: "string \<Rightarrow> decimal" where
  "decimal_set s =
     (let body = unsigned s;
          b = foldl set_char \<lparr>digs = [], dp = 0, sawdot = False\<rparr> (mantissa body);
          point = (if sawdot b then dp b else int (length (digs b)))
      in b\<lparr>dp := point + exponent (drop (length (mantissa body)) body)\<rparr>)"

definition float64_limit :: int where
  "float64_limit = 2 ^ 1024 - 2 ^ 970"

definition overflows :: "decimal \<Rightarrow> bool" where
  "overflows b =
     (let nd = int (length (digs b)); m = foldl (\<lambda>m x. 10 * m + int x) 0 (digs b) in
      if nd = 0 then False
      else if 310 < dp b then True
      else if dp b < - 330 then False
      else if nd \<le> dp b then float64_limit \<le> m * 10 ^ nat (dp b - nd)
      else float64_limit * 10 ^ nat (nd - dp b) \<le> m)"

definition ErrRange :: "string \<Rightarrow> bool" where
  "ErrRange s = overflows (decimal_set s)"

lemmas strconv_defs = Itoa_def Atoi_def signed_value_def parse_digits_def

lemmas float_defs = ErrRange_def decimal_set_def unsigned_def mantissa_def set_char_def
  exponent_def overflows_def digit_val_def float64_limit_def

section \<open>Digits round trip\<close>

lemma digit_char_simps [simp]:
  "digit_char 0 = CHR ''0''" "digit_char 1 = CHR ''1''" "digit_char 2 = CHR ''2''"
  "digit_char 3 = CHR ''3''" "digit_char 4 = CHR ''4''" "digit_char 5 = CHR ''5''"
  "digit_char 6 = CHR ''6''" "digit_char 7 = CHR ''7''" "digit_char 8 = CHR ''8''"
  "digit_char 9 = CHR ''9''" "digit_char (Suc 0) = CHR ''1''"
  by (simp_all add: digit_char_def)

lemma digit_cases:
  "d < 10 \<Longrightarrow> d = 0 \<or> d = 1 \<or> d = 2 \<or> d = 3 \<or> d = 4 \<or> d = 5 \<or> d = 6 \<or> d = 7 \<or> d = 8 \<or> d = (9 :: nat)"
  by arith

lemma digit_val_char [simp]: "d < 10 \<Longrightarrow> digit_val (digit_char d) = Some d"
  using digit_cases [of d] by (auto simp: digit_val_def)

lemma digit_char_not_sign [simp]:
  "d < 10 \<Longrightarrow> digit_char d \<noteq> CHR ''-''" "d < 10 \<Longrightarrow> digit_char d \<noteq> CHR ''+''"
  using digit_cases [of d] by auto

text \<open>
  The two equations of \<open>digits\<close>, and induction over its recursion: a number
  below ten, or a number whose leading part has the property.
\<close>

lemma digits_one: "n < 10 \<Longrightarrow> digits n = [digit_char n]"
  by (simp add: digits.simps)

lemma digits_more: "\<not> n < 10 \<Longrightarrow> digits n = digits (n div 10) @ [digit_char (n mod 10)]"
  by (simp add: digits.simps)

lemma digits_induct [case_names one more]:
  fixes n :: nat
  assumes "\<And>n. n < 10 \<Longrightarrow> P n" and "\<And>n. \<not> n < 10 \<Longrightarrow> P (n div 10) \<Longrightarrow> P n"
  shows "P n"
  using assms by (induction n rule: digits.induct) blast

lemma digits_nonempty [simp]: "digits n \<noteq> []"
  by (cases "n < 10") (simp_all add: digits_one digits_more)

lemma parse_from_append:
  "parse_from acc (xs @ ys) =
     (case parse_from acc xs of None \<Rightarrow> None | Some a \<Rightarrow> parse_from a ys)"
  by (induction xs arbitrary: acc) (auto split: option.splits)

lemma parse_from_digits: "parse_from 0 (digits n) = Some n"
  by (induction n rule: digits_induct) (simp_all add: digits_one digits_more parse_from_append)

lemma parse_digits_digits [simp]: "parse_digits (digits n) = Some n"
  by (simp add: parse_digits_def parse_from_digits)

lemma hd_digits_not_sign:
  "hd (digits n) \<noteq> CHR ''-'' \<and> hd (digits n) \<noteq> CHR ''+''"
  by (induction n rule: digits_induct) (simp_all add: digits_one digits_more)

lemma digits_all_digits: "\<forall>c \<in> set (digits n). digit_val c \<noteq> None"
  by (induction n rule: digits_induct) (simp_all add: digits_one digits_more)

lemma length_digits: "n < 10 ^ k \<Longrightarrow> 0 < k \<Longrightarrow> length (digits n) \<le> k"
proof (induction n arbitrary: k rule: digits_induct)
  case (one n)
  then show ?case by (simp add: digits_one)
next
  case (more n)
  from more.prems more.hyps obtain k' where k: "k = Suc k'" "0 < k'"
    by (cases k; cases "k - 1") auto
  with more.prems have "n div 10 < 10 ^ k'"
    by (simp add: less_mult_imp_div_less mult.commute)
  from more.IH [OF this k(2)] more.hyps k show ?case
    by (simp add: digits_more)
qed

section \<open>Atoi inverts Itoa\<close>

lemma signed_value_digits: "signed_value (digits n) = Some (int n)"
proof -
  obtain c cs where d: "digits n = c # cs"
    using digits_nonempty [of n] by (cases "digits n") auto
  with hd_digits_not_sign [of n] have "c \<noteq> CHR ''-''" "c \<noteq> CHR ''+''" by auto
  with d parse_digits_digits [of n] show ?thesis
    by (simp add: signed_value_def)
qed

lemma signed_value_Itoa: "signed_value (Itoa i) = Some (sint i)"
  by (simp add: Itoa_def signed_value_digits) (simp add: signed_value_def)

lemma Atoi_Itoa [simp]: "Atoi (Itoa i) = Inr i"
  by (simp add: Atoi_def signed_value_Itoa)

lemma Itoa_inj: "Itoa i = Itoa j \<Longrightarrow> i = j"
  by (metis Atoi_Itoa sum.inject(2))

text \<open>What \<open>Atoi\<close> accepts is in range.\<close>

lemma Atoi_Inr_iff: "Atoi s = Inr i \<longleftrightarrow> signed_value s = Some (sint i)"
proof (cases "signed_value s")
  case None
  then show ?thesis by (simp add: Atoi_def)
next
  case (Some v)
  show ?thesis
  proof (cases "go_int_range v")
    case True
    with Some show ?thesis by (auto simp: Atoi_def)
  next
    case False
    with Some go_int_range_sint [of i] show ?thesis by (auto simp: Atoi_def)
  qed
qed

lemma Itoa_nonneg: "0 \<le> sint i \<Longrightarrow> Itoa i = digits (nat (sint i))"
  by (simp add: Itoa_def)

section \<open>Literals at the edge of the range\<close>

text \<open>
  The largest finite \<^verbatim>\<open>float64\<close> is about \<open>1.7976931348623157e308\<close>. A literal
  that rounds to it is in range; the next literal of seventeen digits is not,
  nor is any power of ten from the 309th on; a zero is in range whatever its
  exponent, and so is every literal too small to be told from zero.
\<close>

lemma ErrRange_examples:
  "\<not> ErrRange ''1.7976931348623157e308''" "\<not> ErrRange ''1.7976931348623158e308''"
  "ErrRange ''1.7976931348623159e308''" "ErrRange ''1e309''" "ErrRange ''-1e999''"
  "\<not> ErrRange ''0e999''" "\<not> ErrRange ''1e-999''" "\<not> ErrRange ''10051''"
  by (simp_all add: float_defs)

section \<open>Quoted text\<close>

text \<open>Quoting puts plain text between quotation marks and changes nothing else.\<close>

lemma quote_ascii_plain: "plain_char c \<Longrightarrow> quote_ascii c = [c]"
  by (simp add: plain_char_def quote_ascii_def)

lemma concat_quote_plain: "plain s \<Longrightarrow> concat (map quote_ascii s) = s"
  by (induction s) (simp_all add: quote_ascii_plain)

lemma plain_ascii: "plain s \<Longrightarrow> list_all (\<lambda>c. (of_char c :: nat) < 128) s"
  by (induction s) (simp_all add: plain_char_def)

lemma Quote_plain: "plain s \<Longrightarrow> Quote s = Some (CHR 0x22 # s @ [CHR 0x22])"
  unfolding Quote_def by (simp only: plain_ascii concat_quote_plain if_True)

lemma Quote_examples:
  "Quote ''a\"b'' = Some [CHR 0x22, CHR ''a'', CHR 0x5C, CHR 0x22, CHR ''b'', CHR 0x22]"
  "Quote ''x\<newline>'' = Some [CHR 0x22, CHR ''x'', CHR 0x5C, CHR ''n'', CHR 0x22]"
  "Quote [CHR 0x01] = Some [CHR 0x22, CHR 0x5C, CHR ''x'', CHR ''0'', CHR ''1'', CHR 0x22]"
  "Quote [CHR 0xC3, CHR 0xA9] = None"
  by code_simp+

end
