(* ===== verification/Keyed_Sort.thy ===== *)
theory Keyed_Sort
  imports "HOL-Library.Multiset" "HOL-Library.List_Lexorder" "HOL-Library.Char_ord"
begin

text \<open>
  Go prints the members of a map and the flags of a flag set in the order of
  their names. The model keeps both in lists and sorts them by key when they
  are printed, strings ordered byte by byte as Go compares them. Sorting by
  distinct keys forgets the order of the list: this is why what is printed
  does not depend on the order in which the model holds the members.
\<close>

lemma filter_key:
  assumes "distinct (map f xs)" and "p \<in> set xs"
  shows "filter (\<lambda>x. f p = f x) xs = [p]"
  using assms
proof (induction xs)
  case (Cons x xs)
  show ?case
  proof (cases "x = p")
    case True
    with Cons.prems have "\<forall>y \<in> set xs. f p \<noteq> f y"
      by (auto simp: image_iff)
    with True show ?thesis
      by (simp add: filter_empty_conv)
  next
    case False
    with Cons.prems have "p \<in> set xs" "f p \<noteq> f x"
      by (auto simp: image_iff)
    with Cons show ?thesis
      by simp
  qed
qed simp

lemma sort_key_unique:
  fixes f :: "'a \<Rightarrow> 'k :: linorder"
  assumes "distinct (map f ps)" and "mset qs = mset ps"
  shows "sort_key f qs = sort_key f ps"
proof (rule properties_for_sort_key)
  show "mset (sort_key f ps) = mset qs"
    unfolding assms(2) by simp
  show "sorted (map f (sort_key f ps))"
    by simp
next
  fix p
  assume "p \<in> set (sort_key f ps)"
  moreover have "set qs = set ps"
    by (rule mset_eq_setD [OF assms(2)])
  ultimately have p: "p \<in> set ps" "p \<in> set qs"
    by simp_all
  have "mset (map f qs) = mset (map f ps)"
    unfolding mset_map assms(2) ..
  with assms(1) have "distinct (map f qs)"
    using mset_eq_imp_distinct_iff by blast
  with p assms(1) show "filter (\<lambda>x. f p = f x) (sort_key f ps) = filter (\<lambda>x. f p = f x) qs"
    by (simp add: filter_key filter_sort)
qed

lemma sort_key_sorted_distinct:
  fixes f :: "'a \<Rightarrow> 'k :: linorder"
  shows "distinct (map f ps) \<Longrightarrow> sorted (map f ps) \<Longrightarrow> sort_key f ps = ps"
  by (induction ps) (auto simp: insort_is_Cons)

end
