(* ===== verification/Fmt.thy ===== *)
theory Fmt
  imports Logger Strconv Keyed_Sort
begin

text \<open>
  The text of a log line. The printing functions of the logger hand their
  format and operands to \<^verbatim>\<open>fmt.Sprintf\<close>; this theory models it for what the
  server prints: the verbs \<^verbatim>\<open>%s\<close> and \<^verbatim>\<open>%v\<close> and the escape \<^verbatim>\<open>%%\<close>, on
  operands that are errors, strings or decoded JSON values. \<^verbatim>\<open>%s\<close> prints a
  string as it is and an error by its message; a value of another type under
  \<^verbatim>\<open>%s\<close> is printed as \<^verbatim>\<open>%!s(type=value)\<close>, a map as \<^verbatim>\<open>map[key:value ...]\<close> with
  the keys in increasing order, a slice as \<^verbatim>\<open>[value ...]\<close>. The standard
  library is not part of the sources; the definitions follow its documented
  behaviour. The decimal text of a \<^verbatim>\<open>float64\<close> is a parameter (\<open>ft\<close>, from
  the literal the number was read from), since the value of a number is not
  modelled. A format with another verb, a flag, a width or an operand too
  many is outside the fragment, and \<open>Sprintf\<close> is \<open>None\<close> for it.
\<close>

section \<open>Operands\<close>

definition bad_verb :: "char \<Rightarrow> string \<Rightarrow> string \<Rightarrow> string" where
  "bad_verb verb ty val = ''%!'' @ [verb] @ ''('' @ ty @ ''='' @ val @ '')''"

fun printValue :: "(string \<Rightarrow> string) \<Rightarrow> char \<Rightarrow> iface \<Rightarrow> string" where
  "printValue ft verb GoNil = ''<nil>''"
| "printValue ft verb (GoBool b) =
     (if verb = CHR ''v'' then FormatBool b else bad_verb verb ''bool'' (FormatBool b))"
| "printValue ft verb (GoFloat64 n) =
     (if verb = CHR ''v'' then ft n else bad_verb verb ''float64'' (ft n))"
| "printValue ft verb (GoString s) = s"
| "printValue ft verb (GoSlice vs) =
     ''['' @ concat_sep '' '' (map (printValue ft verb) vs) @ '']''"
| "printValue ft verb (GoMap ps) =
     ''map['' @
     concat_sep '' '' (map (\<lambda>(k, v). k @ '':'' @ printValue ft verb v) (sort_key fst ps)) @
     '']''"

text \<open>
  An operand of a printing function. The nil interface as an operand of its
  own has no type to name.
\<close>

definition printArg :: "(string \<Rightarrow> string) \<Rightarrow> char \<Rightarrow> log_arg \<Rightarrow> string" where
  "printArg ft verb a =
     (case a of
        ErrArg e \<Rightarrow> message e
      | StrArg s \<Rightarrow> s
      | IfaceArg v \<Rightarrow>
          if v = GoNil \<and> verb \<noteq> CHR ''v'' then ''%!'' @ [verb] @ ''(<nil>)''
          else printValue ft verb v)"

section \<open>Formats\<close>

text \<open>
  \<^verbatim>\<open>Sprintf\<close>: the format is copied, each verb replaced by its operand. A
  verb without an operand prints \<^verbatim>\<open>%!s(MISSING)\<close> and a percent sign at the end
  \<^verbatim>\<open>%!(NOVERB)\<close>.
\<close>

fun Sprintf :: "(string \<Rightarrow> string) \<Rightarrow> string \<Rightarrow> log_arg list \<Rightarrow> string option" where
  "Sprintf ft [] as = (if as = [] then Some [] else None)"
| "Sprintf ft [c] as =
     (if c = CHR ''%'' then (if as = [] then Some ''%!(NOVERB)'' else None)
      else map_option ((#) c) (Sprintf ft [] as))"
| "Sprintf ft (c # d # cs) as =
     (if c \<noteq> CHR ''%'' then map_option ((#) c) (Sprintf ft (d # cs) as)
      else if d = CHR ''%'' then map_option ((#) CHR ''%'') (Sprintf ft cs as)
      else if d = CHR ''s'' \<or> d = CHR ''v'' then
        (case as of
           [] \<Rightarrow> map_option ((@) (''%!'' @ [d] @ ''(MISSING)'')) (Sprintf ft cs [])
         | a # as' \<Rightarrow> map_option ((@) (printArg ft d a)) (Sprintf ft cs as'))
      else None)"

text \<open>The number of operands a format takes, when it is in the fragment.\<close>

fun verbs :: "string \<Rightarrow> nat option" where
  "verbs [] = Some 0"
| "verbs [c] = (if c = CHR ''%'' then None else Some 0)"
| "verbs (c # d # cs) =
     (if c \<noteq> CHR ''%'' then verbs (d # cs)
      else if d = CHR ''%'' then verbs cs
      else if d = CHR ''s'' \<or> d = CHR ''v'' then map_option Suc (verbs cs)
      else None)"

text \<open>The text of a call of a printing function, and a call whose operands fit its format.\<close>

definition text_of :: "(string \<Rightarrow> string) \<Rightarrow> log_call \<Rightarrow> string option" where
  "text_of ft c = Sprintf ft (format c) (args c)"

definition fits :: "log_call \<Rightarrow> bool" where
  "fits c \<longleftrightarrow> verbs (format c) = Some (length (args c))"

section \<open>Formats and their operands\<close>

lemma Sprintf_plain: "CHR ''%'' \<notin> set fmt \<Longrightarrow> Sprintf ft fmt [] = Some fmt"
  by (induction ft fmt "[] :: log_arg list" rule: Sprintf.induct) auto

lemma Sprintf_append:
  "CHR ''%'' \<notin> set pre \<Longrightarrow>
   Sprintf ft (pre @ rest) as = map_option ((@) pre) (Sprintf ft rest as)"
proof (induction pre)
  case Nil
  show ?case by (simp add: option.map_ident)
next
  case (Cons c pre)
  then show ?case
    by (cases "pre @ rest") (auto simp: option.map_comp comp_def)
qed

lemma Sprintf_verb:
  "verb = CHR ''s'' \<or> verb = CHR ''v'' \<Longrightarrow>
   Sprintf ft (CHR ''%'' # verb # rest) (a # as) =
     map_option ((@) (printArg ft verb a)) (Sprintf ft rest as)"
  by auto

lemma Sprintf_one:
  assumes "CHR ''%'' \<notin> set pre" "CHR ''%'' \<notin> set post"
  shows "Sprintf ft (pre @ ''%s'' @ post) [a] = Some (pre @ printArg ft CHR ''s'' a @ post)"
  using assms by (simp add: Sprintf_append Sprintf_plain)

lemma verbs_Sprintf: "verbs fmt = Some (length as) \<Longrightarrow> \<exists>text. Sprintf ft fmt as = Some text"
proof (induction ft fmt as rule: Sprintf.induct)
  case (3 ft c d cs as)
  then show ?case
    by (cases as) (auto split: if_splits)
qed (auto split: if_splits)

section \<open>Maps are printed in the order of their keys\<close>

text \<open>
  A Go map has no order, and the model keeps its members in a list. What is
  printed does not depend on the order of the list: two lists with the same
  members under distinct keys print alike.
\<close>

lemma printValue_members:
  "distinct (map fst ps) \<Longrightarrow> mset qs = mset ps \<Longrightarrow>
   printValue ft verb (GoMap qs) = printValue ft verb (GoMap ps)"
  using sort_key_unique [of fst ps qs] by simp

lemma printValue_examples:
  "printValue ft CHR ''s'' (GoMap [(''b'', GoBool True), (''a'', GoSlice [GoString ''x'', GoNil])]) =
     ''map[a:[x <nil>] b:%!s(bool=true)]''"
  "printValue ft CHR ''v'' (GoMap [(''b'', GoBool True), (''a'', GoSlice [GoString ''x'', GoNil])]) =
     ''map[a:[x <nil>] b:true]''"
  "printArg ft CHR ''s'' (IfaceArg GoNil) = ''%!s(<nil>)''"
  "printArg ft CHR ''s'' (IfaceArg (GoFloat64 n)) = ''%!s(float64='' @ ft n @ '')''"
  by (simp_all add: printArg_def bad_verb_def FormatBool_def less_eq_char_def less_char_def)

end
