(* ===== verification/Transport.thy ===== *)
theory Transport
  imports MockServer_Prelude
begin

text \<open>
  The transport primitive of \<^verbatim>\<open>zabbix/pkg/comms\<close> as the handler sees it: a
  connection with timed framed \<^verbatim>\<open>Read\<close> and \<^verbatim>\<open>Write\<close> and a \<^verbatim>\<open>Close\<close>. The
  package is not part of the sources, so the framing is abstract: a read
  yields the payload of one frame or an error, a write delivers one payload
  or fails. What the far end does is a parameter (the \<open>peer\<close>), a function
  of what happened on the connection so far, so that every theorem about the
  server holds for every client. A connection records the operations
  performed on it, in order. The listener's \<^verbatim>\<open>Listen\<close> and \<^verbatim>\<open>Accept\<close> are
  answers of the world \<^verbatim>\<open>main\<close> runs in (theory \<open>Bootstrap\<close>).
\<close>

section \<open>Connections\<close>

datatype io_event =
    ReadEv duration "bytes result"
  | WriteEv bytes duration "error option"
  | CloseEv

record peer =
  read_reply :: "io_event list \<Rightarrow> duration \<Rightarrow> bytes result"
  write_reply :: "io_event list \<Rightarrow> bytes \<Rightarrow> duration \<Rightarrow> error option"

record ZbxConnection =
  remote :: peer
  history :: "io_event list"

definition fresh :: "peer \<Rightarrow> ZbxConnection" where
  "fresh p = \<lparr>remote = p, history = []\<rparr>"

definition closed :: "ZbxConnection \<Rightarrow> bool" where
  "closed c \<longleftrightarrow> CloseEv \<in> set (history c)"

definition use_of_closed :: error where
  "use_of_closed = Error ''use of closed network connection''"

text \<open>
  \<^verbatim>\<open>c.Read(timeout)\<close>: on an open connection the peer decides what arrives
  within the timeout; on a closed one the call fails without reaching the
  peer. Either way the call is recorded.
\<close>

definition conn_Read :: "ZbxConnection \<Rightarrow> duration \<Rightarrow> bytes result \<times> ZbxConnection" where
  "conn_Read c timeout =
     (let r = (if closed c then Inl use_of_closed
               else read_reply (remote c) (history c) timeout)
      in (r, c\<lparr>history := history c @ [ReadEv timeout r]\<rparr>))"

text \<open>\<^verbatim>\<open>c.Write(data, timeout)\<close>: \<open>None\<close> is Go's nil error.\<close>

definition conn_Write ::
  "ZbxConnection \<Rightarrow> bytes \<Rightarrow> duration \<Rightarrow> error option \<times> ZbxConnection" where
  "conn_Write c data timeout =
     (let r = (if closed c then Some use_of_closed
               else write_reply (remote c) (history c) data timeout)
      in (r, c\<lparr>history := history c @ [WriteEv data timeout r]\<rparr>))"

definition conn_Close :: "ZbxConnection \<Rightarrow> ZbxConnection" where
  "conn_Close c = c\<lparr>history := history c @ [CloseEv]\<rparr>"

lemmas conn_defs [ms_defs] = conn_Read_def conn_Write_def conn_Close_def

section \<open>What a history says\<close>

fun is_read :: "io_event \<Rightarrow> bool" where
  "is_read (ReadEv t r) = True"
| "is_read _ = False"

fun is_write :: "io_event \<Rightarrow> bool" where
  "is_write (WriteEv d t r) = True"
| "is_write _ = False"

text \<open>The payload a write delivered to the peer: none when the write failed.\<close>

fun delivered :: "io_event \<Rightarrow> bytes list" where
  "delivered (WriteEv d t None) = [d]"
| "delivered _ = []"

definition reads :: "ZbxConnection \<Rightarrow> nat" where
  "reads c = length (filter is_read (history c))"

definition writes :: "ZbxConnection \<Rightarrow> nat" where
  "writes c = length (filter is_write (history c))"

definition sent :: "ZbxConnection \<Rightarrow> bytes list" where
  "sent c = concat (map delivered (history c))"

lemmas obs_defs = reads_def writes_def sent_def closed_def

section \<open>Facts about the operations\<close>

lemma fresh_obs [simp]:
  "history (fresh p) = []" "remote (fresh p) = p" "\<not> closed (fresh p)"
  "reads (fresh p) = 0" "writes (fresh p) = 0" "sent (fresh p) = []"
  by (simp_all add: fresh_def obs_defs)

lemma remote_conn [simp, ms_frame]:
  "remote (snd (conn_Read c t)) = remote c"
  "remote (snd (conn_Write c d t)) = remote c"
  "remote (conn_Close c) = remote c"
  by (simp_all add: conn_defs Let_def)

lemma history_conn [simp]:
  "history (snd (conn_Read c t)) = history c @ [ReadEv t (fst (conn_Read c t))]"
  "history (snd (conn_Write c d t)) = history c @ [WriteEv d t (fst (conn_Write c d t))]"
  "history (conn_Close c) = history c @ [CloseEv]"
  by (simp_all add: conn_defs Let_def)

lemma fst_conn_Read:
  "fst (conn_Read c t) =
     (if closed c then Inl use_of_closed else read_reply (remote c) (history c) t)"
  by (simp add: conn_defs Let_def)

lemma fst_conn_Write:
  "fst (conn_Write c d t) =
     (if closed c then Some use_of_closed else write_reply (remote c) (history c) d t)"
  by (simp add: conn_defs Let_def)

lemma closed_conn [simp]:
  "closed (snd (conn_Read c t)) = closed c"
  "closed (snd (conn_Write c d t)) = closed c"
  "closed (conn_Close c)"
  by (simp_all add: closed_def)

lemma reads_conn [simp]:
  "reads (snd (conn_Read c t)) = Suc (reads c)"
  "reads (snd (conn_Write c d t)) = reads c"
  "reads (conn_Close c) = reads c"
  by (simp_all add: reads_def)

lemma writes_conn [simp]:
  "writes (snd (conn_Read c t)) = writes c"
  "writes (snd (conn_Write c d t)) = Suc (writes c)"
  "writes (conn_Close c) = writes c"
  by (simp_all add: writes_def)

lemma sent_conn [simp]:
  "sent (snd (conn_Read c t)) = sent c"
  "sent (snd (conn_Write c d t)) =
     sent c @ (if fst (conn_Write c d t) = None then [d] else [])"
  "sent (conn_Close c) = sent c"
  by (auto simp: sent_def split: option.split)

text \<open>A write on a closed connection delivers nothing.\<close>

lemma write_closed_fails: "closed c \<Longrightarrow> fst (conn_Write c d t) = Some use_of_closed"
  by (simp add: fst_conn_Write)

lemma read_closed_fails: "closed c \<Longrightarrow> fst (conn_Read c t) = Inl use_of_closed"
  by (simp add: fst_conn_Read)

end
