(* ===== verification/Handler.thy ===== *)
theory Handler
  imports Transport Logger
begin

text \<open>
  The connection handler, \<^verbatim>\<open>handleConnection\<close> of \<^verbatim>\<open>mock_server.go\<close>: one timed
  read, the decoding of the request, the dispatch on its \<^verbatim>\<open>"request"\<close> key,
  one timed write of the canned response, and the deferred close. The handler
  is a function from the connection and the log before the call to the
  connection and the log after it; the decoder is a parameter. The theory
  proves what the handler does on every branch, that it closes the connection
  on every path, that it reads and writes at most once, and that it answers
  with exactly the canned bytes or not at all.
\<close>

section \<open>The timeout\<close>

text \<open>
  \<^verbatim>\<open>time.Second * time.Duration(tFlag)\<close>: a product of two \<^verbatim>\<open>int64\<close> values,
  which wraps around.
\<close>

definition Second :: duration where
  "Second = 1000000000"

definition timeout_of :: "go_int \<Rightarrow> duration" where
  "timeout_of tFlag = Second * tFlag"

section \<open>The handler\<close>

definition got_format :: string where
  "got_format = ''got '' @ CHR 0x27 # ''%s'' @ [CHR 0x27]"

text \<open>
  The \<^verbatim>\<open>switch\<close> on \<^verbatim>\<open>pairs["request"]\<close>. Go compares the interface value with
  the string constant: equal when its dynamic type is \<^verbatim>\<open>string\<close> and the
  strings agree, unequal for every other dynamic type and for nil.
\<close>

definition is_active_checks :: "pairs \<Rightarrow> bool" where
  "is_active_checks ps \<longleftrightarrow> index ps ''request'' = GoString ''active checks''"

definition dispatch ::
  "pairs \<Rightarrow> bytes \<Rightarrow> go_int \<Rightarrow> ZbxConnection \<times> log \<Rightarrow> ZbxConnection \<times> log" where
  "dispatch ps activeChecks tFlag = (\<lambda>(c, lg).
     if is_active_checks ps then
       (case conn_Write c activeChecks (timeout_of tFlag) of
          (Some err, c') \<Rightarrow> (c', Warningf ''Write failed: %s\<newline>'' [ErrArg err] lg)
        | (None, c') \<Rightarrow> (c', lg))
     else
       (c, Warningf ''Unsupported request: %s\<newline>'' [IfaceArg (index ps ''request'')] lg))"

text \<open>The body of the function, everything but the deferred \<^verbatim>\<open>c.Close()\<close>.\<close>

definition handle_body ::
  "unmarshal \<Rightarrow> ZbxConnection \<Rightarrow> bytes \<Rightarrow> go_int \<Rightarrow> log \<Rightarrow> ZbxConnection \<times> log" where
  "handle_body unm c activeChecks tFlag lg =
     (case conn_Read c (timeout_of tFlag) of
        (Inl err, c1) \<Rightarrow> (c1, Warningf ''Read failed: %s\<newline>'' [ErrArg err] lg)
      | (Inr js, c1) \<Rightarrow>
          (let lg1 = Debugf got_format [StrArg js] lg in
           case unm js of
             Inl err \<Rightarrow> (c1, Warningf ''Unmarshal failed: %s\<newline>'' [ErrArg err] lg1)
           | Inr ps \<Rightarrow> dispatch ps activeChecks tFlag (c1, lg1)))"

text \<open>
  \<^verbatim>\<open>defer c.Close()\<close> runs when the body returns, on whichever path it
  returns.
\<close>

definition handleConnection ::
  "unmarshal \<Rightarrow> ZbxConnection \<Rightarrow> bytes \<Rightarrow> go_int \<Rightarrow> log \<Rightarrow> ZbxConnection \<times> log" where
  "handleConnection unm c activeChecks tFlag lg =
     (case handle_body unm c activeChecks tFlag lg of (c', lg') \<Rightarrow> (conn_Close c', lg'))"

lemmas handler_defs [ms_defs] =
  handleConnection_def handle_body_def dispatch_def is_active_checks_def

section \<open>The handler on each branch\<close>

text \<open>
  One equation per path through the function. \<open>case_prod_beta\<close> turns the
  pattern matches on the results of the transport into projections, so that
  each equation is conditional on what the transport and the decoder
  returned.
\<close>

lemma dispatch_unsupported:
  "\<not> is_active_checks ps \<Longrightarrow>
   dispatch ps activeChecks tFlag (c, lg) =
     (c, Warningf ''Unsupported request: %s\<newline>'' [IfaceArg (index ps ''request'')] lg)"
  by (simp add: dispatch_def)

lemma dispatch_write_failed:
  "is_active_checks ps \<Longrightarrow> fst (conn_Write c activeChecks (timeout_of tFlag)) = Some e \<Longrightarrow>
   dispatch ps activeChecks tFlag (c, lg) =
     (snd (conn_Write c activeChecks (timeout_of tFlag)),
      Warningf ''Write failed: %s\<newline>'' [ErrArg e] lg)"
  by (simp add: dispatch_def case_prod_beta)

lemma dispatch_responded:
  "is_active_checks ps \<Longrightarrow> fst (conn_Write c activeChecks (timeout_of tFlag)) = None \<Longrightarrow>
   dispatch ps activeChecks tFlag (c, lg) = (snd (conn_Write c activeChecks (timeout_of tFlag)), lg)"
  by (simp add: dispatch_def case_prod_beta)

lemma handle_body_read_failed:
  "fst (conn_Read c (timeout_of tFlag)) = Inl e \<Longrightarrow>
   handle_body unm c activeChecks tFlag lg =
     (snd (conn_Read c (timeout_of tFlag)), Warningf ''Read failed: %s\<newline>'' [ErrArg e] lg)"
  by (simp add: handle_body_def case_prod_beta)

lemma handle_body_decode_failed:
  "fst (conn_Read c (timeout_of tFlag)) = Inr js \<Longrightarrow> unm js = Inl e \<Longrightarrow>
   handle_body unm c activeChecks tFlag lg =
     (snd (conn_Read c (timeout_of tFlag)),
      Warningf ''Unmarshal failed: %s\<newline>'' [ErrArg e] (Debugf got_format [StrArg js] lg))"
  by (simp add: handle_body_def case_prod_beta)

lemma handle_body_decoded:
  "fst (conn_Read c (timeout_of tFlag)) = Inr js \<Longrightarrow> unm js = Inr ps \<Longrightarrow>
   handle_body unm c activeChecks tFlag lg =
     dispatch ps activeChecks tFlag
       (snd (conn_Read c (timeout_of tFlag)), Debugf got_format [StrArg js] lg)"
  by (simp add: handle_body_def case_prod_beta)

lemmas handler_branches =
  handle_body_read_failed handle_body_decode_failed handle_body_decoded
  dispatch_unsupported dispatch_write_failed dispatch_responded

text \<open>
  The five ways a call can go, as one case analysis: every property of the
  handler below is proved by it.
\<close>

lemma handleConnection_cases [case_names ReadFailed DecodeFailed Unsupported WriteFailed Responded]:
  fixes unm c activeChecks tFlag lg
  defines "t \<equiv> timeout_of tFlag"
  defines "c1 \<equiv> snd (conn_Read c t)"
  defines "c2 \<equiv> snd (conn_Write c1 activeChecks t)"
  obtains
    (ReadFailed) e where "fst (conn_Read c t) = Inl e"
      "handleConnection unm c activeChecks tFlag lg =
         (conn_Close c1, Warningf ''Read failed: %s\<newline>'' [ErrArg e] lg)"
  | (DecodeFailed) js e where "fst (conn_Read c t) = Inr js" "unm js = Inl e"
      "handleConnection unm c activeChecks tFlag lg =
         (conn_Close c1,
          Warningf ''Unmarshal failed: %s\<newline>'' [ErrArg e] (Debugf got_format [StrArg js] lg))"
  | (Unsupported) js ps where "fst (conn_Read c t) = Inr js" "unm js = Inr ps"
      "\<not> is_active_checks ps"
      "handleConnection unm c activeChecks tFlag lg =
         (conn_Close c1,
          Warningf ''Unsupported request: %s\<newline>'' [IfaceArg (index ps ''request'')]
            (Debugf got_format [StrArg js] lg))"
  | (WriteFailed) js ps e where "fst (conn_Read c t) = Inr js" "unm js = Inr ps"
      "is_active_checks ps" "fst (conn_Write c1 activeChecks t) = Some e"
      "handleConnection unm c activeChecks tFlag lg =
         (conn_Close c2,
          Warningf ''Write failed: %s\<newline>'' [ErrArg e] (Debugf got_format [StrArg js] lg))"
  | (Responded) js ps where "fst (conn_Read c t) = Inr js" "unm js = Inr ps"
      "is_active_checks ps" "fst (conn_Write c1 activeChecks t) = None"
      "handleConnection unm c activeChecks tFlag lg =
         (conn_Close c2, Debugf got_format [StrArg js] lg)"
proof (cases "fst (conn_Read c t)")
  case (Inl e)
  then show ?thesis
    by (intro ReadFailed [of e]) (simp_all add: handleConnection_def handler_branches t_def c1_def)
next
  case rd: (Inr js)
  show ?thesis
  proof (cases "unm js")
    case (Inl e)
    with rd show ?thesis
      by (intro DecodeFailed [of js e])
         (simp_all add: handleConnection_def handler_branches t_def c1_def)
  next
    case dec: (Inr ps)
    note defs = handleConnection_def handler_branches t_def c1_def c2_def
    show ?thesis
    proof (cases "is_active_checks ps")
      case False
      with rd dec show ?thesis
        by (intro Unsupported [of js ps]) (simp_all add: defs)
    next
      case ac: True
      show ?thesis
      proof (cases "fst (conn_Write c1 activeChecks t)")
        case None
        with rd dec ac show ?thesis
          by (intro Responded [of js ps]) (simp_all add: defs)
      next
        case (Some e)
        with rd dec ac show ?thesis
          by (intro WriteFailed [of js ps e]) (simp_all add: defs)
      qed
    qed
  qed
qed

section \<open>The contract\<close>

text \<open>
  What a call promises, stated without the code: the environment (what the
  peer delivers, what the decoder makes of it, whether the peer takes the
  response) determines one of five outcomes, and the outcome determines the
  bytes that reach the peer and the warning that reaches the log.
\<close>

datatype outcome =
    ReadFailed error
  | DecodeFailed error
  | Unsupported iface
  | WriteFailed error
  | Responded

definition outcome_of :: "unmarshal \<Rightarrow> ZbxConnection \<Rightarrow> bytes \<Rightarrow> go_int \<Rightarrow> outcome" where
  "outcome_of unm c activeChecks tFlag =
     (case fst (conn_Read c (timeout_of tFlag)) of
        Inl e \<Rightarrow> ReadFailed e
      | Inr js \<Rightarrow>
          (case unm js of
             Inl e \<Rightarrow> DecodeFailed e
           | Inr ps \<Rightarrow>
               if is_active_checks ps then
                 (case fst (conn_Write (snd (conn_Read c (timeout_of tFlag))) activeChecks
                        (timeout_of tFlag)) of
                    Some e \<Rightarrow> WriteFailed e
                  | None \<Rightarrow> Responded)
               else Unsupported (index ps ''request'')))"

fun response :: "bytes \<Rightarrow> outcome \<Rightarrow> bytes list" where
  "response activeChecks Responded = [activeChecks]"
| "response activeChecks _ = []"

fun warning_of :: "outcome \<Rightarrow> log" where
  "warning_of (ReadFailed e) = [LogCall Warning ''Read failed: %s\<newline>'' [ErrArg e]]"
| "warning_of (DecodeFailed e) = [LogCall Warning ''Unmarshal failed: %s\<newline>'' [ErrArg e]]"
| "warning_of (Unsupported v) = [LogCall Warning ''Unsupported request: %s\<newline>'' [IfaceArg v]]"
| "warning_of (WriteFailed e) = [LogCall Warning ''Write failed: %s\<newline>'' [ErrArg e]]"
| "warning_of Responded = []"

fun attempts_write :: "outcome \<Rightarrow> bool" where
  "attempts_write (WriteFailed e) = True"
| "attempts_write Responded = True"
| "attempts_write _ = False"

lemma outcome_of_simps:
  "fst (conn_Read c (timeout_of tFlag)) = Inl e \<Longrightarrow> outcome_of unm c a tFlag = ReadFailed e"
  "fst (conn_Read c (timeout_of tFlag)) = Inr js \<Longrightarrow> unm js = Inl e \<Longrightarrow>
     outcome_of unm c a tFlag = DecodeFailed e"
  "fst (conn_Read c (timeout_of tFlag)) = Inr js \<Longrightarrow> unm js = Inr ps \<Longrightarrow>
     \<not> is_active_checks ps \<Longrightarrow> outcome_of unm c a tFlag = Unsupported (index ps ''request'')"
  "fst (conn_Read c (timeout_of tFlag)) = Inr js \<Longrightarrow> unm js = Inr ps \<Longrightarrow>
     is_active_checks ps \<Longrightarrow>
     fst (conn_Write (snd (conn_Read c (timeout_of tFlag))) a (timeout_of tFlag)) = Some e \<Longrightarrow>
     outcome_of unm c a tFlag = WriteFailed e"
  "fst (conn_Read c (timeout_of tFlag)) = Inr js \<Longrightarrow> unm js = Inr ps \<Longrightarrow>
     is_active_checks ps \<Longrightarrow>
     fst (conn_Write (snd (conn_Read c (timeout_of tFlag))) a (timeout_of tFlag)) = None \<Longrightarrow>
     outcome_of unm c a tFlag = Responded"
  by (simp_all add: outcome_of_def)

text \<open>
  The request is recognised exactly when the key is present and holds the
  string: an absent key, \<^verbatim>\<open>null\<close>, a number, a list or an object are all
  unsupported.
\<close>

lemma is_active_checks_iff:
  "is_active_checks ps \<longleftrightarrow> map_of ps ''request'' = Some (GoString ''active checks'')"
  by (simp add: is_active_checks_def index_eq_GoString_iff)

lemma not_active_checks [simp]:
  "\<not> is_active_checks []"
  "index ps ''request'' = GoNil \<Longrightarrow> \<not> is_active_checks ps"
  "index ps ''request'' = GoBool b \<Longrightarrow> \<not> is_active_checks ps"
  "index ps ''request'' = GoFloat64 n \<Longrightarrow> \<not> is_active_checks ps"
  "index ps ''request'' = GoSlice vs \<Longrightarrow> \<not> is_active_checks ps"
  "index ps ''request'' = GoMap m \<Longrightarrow> \<not> is_active_checks ps"
  by (simp_all add: is_active_checks_def)

section \<open>Clients and decoders for the examples\<close>

text \<open>
  A client that answers every read with \<open>rd\<close> and every write with \<open>wr\<close>,
  and a decoder that knows the documents of a table and rejects every other
  input.
\<close>

definition client :: "bytes result \<Rightarrow> error option \<Rightarrow> peer" where
  "client rd wr = \<lparr>read_reply = (\<lambda>h t. rd), write_reply = (\<lambda>h d t. wr)\<rparr>"

definition table_decoder :: "(bytes \<times> pairs) list \<Rightarrow> unmarshal" where
  "table_decoder tab js =
     (case map_of tab js of Some ps \<Rightarrow> Inr ps | None \<Rightarrow> Inl (Error ''invalid character''))"

definition known_requests :: "(bytes \<times> pairs) list" where
  "known_requests =
     [(''{\"request\":\"active checks\"}'', [(''request'', GoString ''active checks'')]),
      (''{\"request\":\"ping\"}'', [(''request'', GoString ''ping'')]),
      (''{}'', [])]"

lemma client_simps [simp]:
  "read_reply (client rd wr) h t = rd" "write_reply (client rd wr) h d t = wr"
  by (simp_all add: client_def)

lemma table_decoder_known [simp]:
  "table_decoder known_requests ''{\"request\":\"active checks\"}'' =
     Inr [(''request'', GoString ''active checks'')]"
  "table_decoder known_requests ''{\"request\":\"ping\"}'' = Inr [(''request'', GoString ''ping'')]"
  "table_decoder known_requests ''{}'' = Inr []"
  "table_decoder known_requests ''not-json'' = Inl (Error ''invalid character'')"
  by (simp_all add: table_decoder_def known_requests_def)

lemma conn_fresh_client [simp]:
  "fst (conn_Read (fresh (client rd wr)) t) = rd"
  "\<not> closed c \<Longrightarrow> remote c = client rd wr \<Longrightarrow> fst (conn_Write c d t) = wr"
  by (simp_all add: fst_conn_Read fst_conn_Write)

section \<open>Properties of the handler\<close>

text \<open>
  Claim C2. Whatever the peer sends and whatever the decoder returns, the
  connection is closed when \<^verbatim>\<open>handleConnection\<close> returns, and the close is the
  last operation performed on it.
\<close>

theorem handleConnection_closes:
  "closed (fst (handleConnection unm c activeChecks tFlag lg)) \<and>
   last (history (fst (handleConnection unm c activeChecks tFlag lg))) = CloseEv"
  by (cases rule: handleConnection_cases [of c tFlag unm activeChecks lg]) simp_all

text \<open>
  Claim C1. The handler implements its contract: the bytes delivered to the
  peer are the canned response when the outcome is \<open>Responded\<close> and nothing
  otherwise, and the warnings added to the log are exactly the one warning of
  the outcome (none when the response was delivered).
\<close>

theorem handleConnection_contract:
  "sent (fst (handleConnection unm c activeChecks tFlag lg)) =
     sent c @ response activeChecks (outcome_of unm c activeChecks tFlag) \<and>
   warnings (snd (handleConnection unm c activeChecks tFlag lg)) =
     warnings lg @ warning_of (outcome_of unm c activeChecks tFlag)"
  by (cases rule: handleConnection_cases [of c tFlag unm activeChecks lg];
      simp add: outcome_of_simps)

text \<open>
  Claim C5. The operations on the connection happen in a fixed order: one
  read with the configured timeout, then at most one write of the canned
  response with the same timeout (attempted exactly when the request was
  recognised), then the close.
\<close>

theorem handleConnection_history:
  "history (fst (handleConnection unm c activeChecks tFlag lg)) =
     history c @ ReadEv (timeout_of tFlag) (fst (conn_Read c (timeout_of tFlag))) #
       (if attempts_write (outcome_of unm c activeChecks tFlag)
        then [WriteEv activeChecks (timeout_of tFlag)
               (fst (conn_Write (snd (conn_Read c (timeout_of tFlag))) activeChecks
                  (timeout_of tFlag)))]
        else []) @ [CloseEv]"
  by (cases rule: handleConnection_cases [of c tFlag unm activeChecks lg];
      simp add: outcome_of_simps)

text \<open>
  A connection is read from exactly once and written to at most
  once by its handler.
\<close>

lemma handleConnection_io_once:
  "reads (fst (handleConnection unm c activeChecks tFlag lg)) = Suc (reads c) \<and>
   writes (fst (handleConnection unm c activeChecks tFlag lg)) \<le> Suc (writes c)"
  by (cases rule: handleConnection_cases [of c tFlag unm activeChecks lg]; simp)

text \<open>
  Claim C3. When the peer delivers a message that decodes to a map whose
  \<^verbatim>\<open>"request"\<close> is the string \<^verbatim>\<open>"active checks"\<close> and the peer takes the
  response, the peer receives exactly the canned bytes, the connection is
  closed and no warning is logged.
\<close>

theorem active_checks_answered:
  assumes "\<not> closed c"
    and "read_reply (remote c) (history c) (timeout_of tFlag) = Inr js"
    and "unm js = Inr ps"
    and "index ps ''request'' = GoString ''active checks''"
    and "write_reply (remote c) (history c @ [ReadEv (timeout_of tFlag) (Inr js)]) activeChecks
           (timeout_of tFlag) = None"
  shows "sent (fst (handleConnection unm c activeChecks tFlag lg)) = sent c @ [activeChecks] \<and>
         closed (fst (handleConnection unm c activeChecks tFlag lg)) \<and>
         warnings (snd (handleConnection unm c activeChecks tFlag lg)) = warnings lg"
  using assms
  by (cases rule: handleConnection_cases [of c tFlag unm activeChecks lg])
     (simp_all add: fst_conn_Read fst_conn_Write is_active_checks_def)

theorem active_checks_answered_witness:
  "sent (fst (handleConnection (table_decoder known_requests)
       (fresh (client (Inr ''{\"request\":\"active checks\"}'') None)) ''AC1'' 5 [])) = [''AC1'']
   \<and> closed (fst (handleConnection (table_decoder known_requests)
       (fresh (client (Inr ''{\"request\":\"active checks\"}'') None)) ''AC1'' 5 []))"
  using active_checks_answered [of "fresh (client (Inr ''{\"request\":\"active checks\"}'') None)"
      5 "''{\"request\":\"active checks\"}''" "table_decoder known_requests"
      "[(''request'', GoString ''active checks'')]" "''AC1''" "[]"]
  by simp

text \<open>
  Claim C4. When the decoded map's \<^verbatim>\<open>"request"\<close> is anything but the string
  \<^verbatim>\<open>"active checks"\<close> (another string, a value of another type, or no value
  at all), no write is attempted, nothing reaches the peer, the connection is
  closed, and one warning that carries the offending value is logged.
\<close>

theorem other_requests_unanswered:
  assumes "fst (conn_Read c (timeout_of tFlag)) = Inr js"
    and "unm js = Inr ps"
    and "index ps ''request'' \<noteq> GoString ''active checks''"
  shows "sent (fst (handleConnection unm c activeChecks tFlag lg)) = sent c \<and>
         writes (fst (handleConnection unm c activeChecks tFlag lg)) = writes c \<and>
         closed (fst (handleConnection unm c activeChecks tFlag lg)) \<and>
         warnings (snd (handleConnection unm c activeChecks tFlag lg)) =
           warnings lg @
           [LogCall Warning ''Unsupported request: %s\<newline>'' [IfaceArg (index ps ''request'')]]"
  using assms
  by (cases rule: handleConnection_cases [of c tFlag unm activeChecks lg])
     (simp_all add: is_active_checks_def)

theorem other_requests_unanswered_witness:
  "sent (fst (handleConnection (table_decoder known_requests)
       (fresh (client (Inr ''{\"request\":\"ping\"}'') None)) ''AC1'' 5 [])) = []
   \<and> warnings (snd (handleConnection (table_decoder known_requests)
       (fresh (client (Inr ''{\"request\":\"ping\"}'') None)) ''AC1'' 5 [])) =
       [LogCall Warning ''Unsupported request: %s\<newline>'' [IfaceArg (GoString ''ping'')]]"
  using other_requests_unanswered [of "fresh (client (Inr ''{\"request\":\"ping\"}'') None)"
      5 "''{\"request\":\"ping\"}''" "table_decoder known_requests"
      "[(''request'', GoString ''ping'')]" "''AC1''" "[]"]
  by simp

text \<open>
  Claim C10. When the payload does not decode (malformed JSON, or JSON that is
  not an object), no write is attempted, nothing reaches the peer, the
  connection is closed, and the decoder's error is logged as a warning.
\<close>

theorem malformed_request_dropped:
  assumes "fst (conn_Read c (timeout_of tFlag)) = Inr js"
    and "unm js = Inl e"
  shows "sent (fst (handleConnection unm c activeChecks tFlag lg)) = sent c \<and>
         writes (fst (handleConnection unm c activeChecks tFlag lg)) = writes c \<and>
         closed (fst (handleConnection unm c activeChecks tFlag lg)) \<and>
         warnings (snd (handleConnection unm c activeChecks tFlag lg)) =
           warnings lg @ [LogCall Warning ''Unmarshal failed: %s\<newline>'' [ErrArg e]]"
  using assms
  by (cases rule: handleConnection_cases [of c tFlag unm activeChecks lg]) simp_all

theorem malformed_request_dropped_witness:
  "sent (fst (handleConnection (table_decoder known_requests)
       (fresh (client (Inr ''not-json'') None)) ''AC1'' 5 [])) = []
   \<and> closed (fst (handleConnection (table_decoder known_requests)
       (fresh (client (Inr ''not-json'') None)) ''AC1'' 5 []))
   \<and> warnings (snd (handleConnection (table_decoder known_requests)
       (fresh (client (Inr ''not-json'') None)) ''AC1'' 5 [])) =
       [LogCall Warning ''Unmarshal failed: %s\<newline>'' [ErrArg (Error ''invalid character'')]]"
  using malformed_request_dropped [of "fresh (client (Inr ''not-json'') None)" 5 "''not-json''"
      "table_decoder known_requests" "Error ''invalid character''" "''AC1''" "[]"]
  by simp

text \<open>
  Claim C22. When the read fails (the timeout passes, the frame is malformed,
  the peer resets), the payload is never decoded and no write is attempted:
  nothing reaches the peer, the connection is closed after the one read, and
  the transport's error is logged as a warning.
\<close>

theorem failed_read_dropped:
  assumes "fst (conn_Read c (timeout_of tFlag)) = Inl e"
  shows "history (fst (handleConnection unm c activeChecks tFlag lg)) =
           history c @ [ReadEv (timeout_of tFlag) (Inl e), CloseEv] \<and>
         sent (fst (handleConnection unm c activeChecks tFlag lg)) = sent c \<and>
         snd (handleConnection unm c activeChecks tFlag lg) =
           lg @ [LogCall Warning ''Read failed: %s\<newline>'' [ErrArg e]]"
  using assms
  by (cases rule: handleConnection_cases [of c tFlag unm activeChecks lg])
     (simp_all add: log_defs)

theorem failed_read_dropped_witness:
  "history (fst (handleConnection (table_decoder known_requests)
       (fresh (client (Inl (Error ''i/o timeout'')) None)) ''AC1'' 5 [])) =
       [ReadEv 5000000000 (Inl (Error ''i/o timeout'')), CloseEv]
   \<and> snd (handleConnection (table_decoder known_requests)
       (fresh (client (Inl (Error ''i/o timeout'')) None)) ''AC1'' 5 []) =
       [LogCall Warning ''Read failed: %s\<newline>'' [ErrArg (Error ''i/o timeout'')]]"
  using failed_read_dropped [of "fresh (client (Inl (Error ''i/o timeout'')) None)" 5
      "Error ''i/o timeout''" "table_decoder known_requests" "''AC1''" "[]"]
  by (simp add: timeout_of_def Second_def)

text \<open>
  Claim C23. When the request is recognised but the write fails, the peer
  receives nothing, the failure is logged as a warning, and the connection is
  still closed.
\<close>

theorem failed_write_logged:
  assumes "fst (conn_Read c (timeout_of tFlag)) = Inr js"
    and "unm js = Inr ps"
    and "is_active_checks ps"
    and "fst (conn_Write (snd (conn_Read c (timeout_of tFlag))) activeChecks (timeout_of tFlag))
           = Some e"
  shows "sent (fst (handleConnection unm c activeChecks tFlag lg)) = sent c \<and>
         writes (fst (handleConnection unm c activeChecks tFlag lg)) = Suc (writes c) \<and>
         closed (fst (handleConnection unm c activeChecks tFlag lg)) \<and>
         warnings (snd (handleConnection unm c activeChecks tFlag lg)) =
           warnings lg @ [LogCall Warning ''Write failed: %s\<newline>'' [ErrArg e]]"
  using assms
  by (cases rule: handleConnection_cases [of c tFlag unm activeChecks lg]) simp_all

theorem failed_write_logged_witness:
  "sent (fst (handleConnection (table_decoder known_requests)
       (fresh (client (Inr ''{\"request\":\"active checks\"}'') (Some (Error ''broken pipe''))))
       ''AC1'' 5 [])) = []
   \<and> warnings (snd (handleConnection (table_decoder known_requests)
       (fresh (client (Inr ''{\"request\":\"active checks\"}'') (Some (Error ''broken pipe''))))
       ''AC1'' 5 [])) =
       [LogCall Warning ''Write failed: %s\<newline>'' [ErrArg (Error ''broken pipe'')]]"
  using failed_write_logged
    [of "fresh (client (Inr ''{\"request\":\"active checks\"}'') (Some (Error ''broken pipe'')))"
      5 "''{\"request\":\"active checks\"}''" "table_decoder known_requests"
      "[(''request'', GoString ''active checks'')]" "''AC1''" "Error ''broken pipe''" "[]"]
  by (simp add: is_active_checks_def)

text \<open>
  The handler treats the log as write-only: what it does to the
  connection does not depend on the log it is given, and it leaves every
  earlier entry in place, appending its own.
\<close>

lemma handleConnection_log_local:
  "handleConnection unm c activeChecks tFlag lg =
     (fst (handleConnection unm c activeChecks tFlag []),
      lg @ snd (handleConnection unm c activeChecks tFlag []))"
  by (cases rule: handleConnection_cases [of c tFlag unm activeChecks lg];
      cases rule: handleConnection_cases [of c tFlag unm activeChecks "[]"];
      simp add: log_defs)

section \<open>The timeout value\<close>

lemma sint_Second [simp]: "sint Second = 1000000000"
  by (simp add: Second_def)

lemma timeout_of_no_wrap:
  "int_between (- 9223372036) 9223372036 tFlag \<Longrightarrow>
   sint (timeout_of tFlag) = 1000000000 * sint tFlag"
proof -
  assume "int_between (- 9223372036) 9223372036 tFlag"
  then have "go_int_range (sint Second * sint tFlag)"
    by (simp add: int_between_def go_int_range_def)
  then show ?thesis
    by (simp add: timeout_of_def sint_mult_go_int)
qed

text \<open>
  Claim C30. The product \<^verbatim>\<open>time.Second * time.Duration(tFlag)\<close> is the intended
  number of nanoseconds exactly when \<open>tFlag\<close> lies between -9223372036 and
  9223372036; outside that range the 64-bit multiplication wraps around.
\<close>

theorem timeout_of_exact:
  "sint (timeout_of tFlag) = 1000000000 * sint tFlag \<longleftrightarrow>
   int_between (- 9223372036) 9223372036 tFlag"
proof
  assume eq: "sint (timeout_of tFlag) = 1000000000 * sint tFlag"
  have "go_int_range (sint (timeout_of tFlag))" by simp
  with eq show "int_between (- 9223372036) 9223372036 tFlag"
    by (simp add: int_between_def go_int_range_def)
qed (rule timeout_of_no_wrap)

text \<open>
  For every timeout the configuration admits (1 to 30 seconds) the
  duration handed to the transport is that many seconds, between one and
  thirty thousand million nanoseconds: no wrap-around, and never a zero or
  negative deadline.
\<close>

lemma timeout_of_configured:
  assumes "int_between 1 30 tFlag"
  shows "sint (timeout_of tFlag) = 1000000000 * sint tFlag \<and>
         int_between 1000000000 30000000000 (timeout_of tFlag)"
proof -
  from assms have "int_between (- 9223372036) 9223372036 tFlag"
    by (simp add: int_between_def)
  then have "sint (timeout_of tFlag) = 1000000000 * sint tFlag"
    by (rule timeout_of_no_wrap)
  with assms show ?thesis by (simp add: int_between_def)
qed

lemma timeout_of_configured_example:
  "int_between 1 30 (5 :: go_int) \<and> sint (timeout_of 5) = 5000000000 \<and>
   int_between 1000000000 30000000000 (timeout_of 5)"
  using timeout_of_configured [of 5] by (simp add: int_between_def)

text \<open>A value the range check would refuse: the deadline comes out negative.\<close>

lemma timeout_of_wraps: "sint (timeout_of 9223372037) = - 9223372036709551616"
  by (simp add: timeout_of_def Second_def)

end
