(* ===== verification/Handler_Steps.thy ===== *)
theory Handler_Steps
  imports Handler
begin

text \<open>
  The handler as a state machine, one connection at a time: the phases
  \<open>Accepted\<close>, \<open>Reading\<close>, \<open>Decoding\<close>, \<open>Dispatching\<close>, \<open>Writing\<close> and
  \<open>Closed\<close> are the program points of \<^verbatim>\<open>handleConnection\<close>, a step is one
  call of the transport or the decoder together with the logging and, on the
  paths that return, the deferred close. The relation \<open>hstep\<close> gives the
  steps, \<open>hnext\<close> computes them. The theory proves that the machine is
  deterministic, that it stops only in \<open>Closed\<close> and after at most five
  steps, and that its runs are exactly the calls of \<^const>\<open>handleConnection\<close>.
  Theory \<open>Server\<close> interleaves the steps of many such machines.
\<close>

section \<open>Phases and steps\<close>

datatype phase =
    Accepted
  | Reading
  | Decoding bytes
  | Dispatching pairs
  | Writing
  | Closed

type_synonym config = "phase \<times> ZbxConnection \<times> log"

inductive hstep :: "unmarshal \<Rightarrow> bytes \<Rightarrow> go_int \<Rightarrow> config \<Rightarrow> config \<Rightarrow> bool"
  for unm :: unmarshal and activeChecks :: bytes and tFlag :: go_int
where
  start:
    "hstep unm activeChecks tFlag (Accepted, c, lg) (Reading, c, lg)"
| read_ok:
    "conn_Read c (timeout_of tFlag) = (Inr js, c') \<Longrightarrow>
     hstep unm activeChecks tFlag (Reading, c, lg)
       (Decoding js, c', Debugf got_format [StrArg js] lg)"
| read_failed:
    "conn_Read c (timeout_of tFlag) = (Inl e, c') \<Longrightarrow>
     hstep unm activeChecks tFlag (Reading, c, lg)
       (Closed, conn_Close c', Warningf ''Read failed: %s\<newline>'' [ErrArg e] lg)"
| decode_ok:
    "unm js = Inr ps \<Longrightarrow>
     hstep unm activeChecks tFlag (Decoding js, c, lg) (Dispatching ps, c, lg)"
| decode_failed:
    "unm js = Inl e \<Longrightarrow>
     hstep unm activeChecks tFlag (Decoding js, c, lg)
       (Closed, conn_Close c, Warningf ''Unmarshal failed: %s\<newline>'' [ErrArg e] lg)"
| supported:
    "is_active_checks ps \<Longrightarrow>
     hstep unm activeChecks tFlag (Dispatching ps, c, lg) (Writing, c, lg)"
| unsupported:
    "\<not> is_active_checks ps \<Longrightarrow>
     hstep unm activeChecks tFlag (Dispatching ps, c, lg)
       (Closed, conn_Close c,
        Warningf ''Unsupported request: %s\<newline>'' [IfaceArg (index ps ''request'')] lg)"
| write_ok:
    "conn_Write c activeChecks (timeout_of tFlag) = (None, c') \<Longrightarrow>
     hstep unm activeChecks tFlag (Writing, c, lg) (Closed, conn_Close c', lg)"
| write_failed:
    "conn_Write c activeChecks (timeout_of tFlag) = (Some e, c') \<Longrightarrow>
     hstep unm activeChecks tFlag (Writing, c, lg)
       (Closed, conn_Close c', Warningf ''Write failed: %s\<newline>'' [ErrArg e] lg)"

inductive_cases hstep_AcceptedE [elim!]: "hstep unm a t (Accepted, c, lg) cfg"
inductive_cases hstep_ReadingE [elim!]: "hstep unm a t (Reading, c, lg) cfg"
inductive_cases hstep_DecodingE [elim!]: "hstep unm a t (Decoding js, c, lg) cfg"
inductive_cases hstep_DispatchingE [elim!]: "hstep unm a t (Dispatching ps, c, lg) cfg"
inductive_cases hstep_WritingE [elim!]: "hstep unm a t (Writing, c, lg) cfg"
inductive_cases hstep_ClosedE [elim!]: "hstep unm a t (Closed, c, lg) cfg"

text \<open>The same steps as a function: \<open>None\<close> where the machine has stopped.\<close>

fun hnext :: "unmarshal \<Rightarrow> bytes \<Rightarrow> go_int \<Rightarrow> config \<Rightarrow> config option" where
  "hnext unm activeChecks tFlag (Accepted, c, lg) = Some (Reading, c, lg)"
| "hnext unm activeChecks tFlag (Reading, c, lg) =
     (case conn_Read c (timeout_of tFlag) of
        (Inr js, c') \<Rightarrow> Some (Decoding js, c', Debugf got_format [StrArg js] lg)
      | (Inl e, c') \<Rightarrow>
          Some (Closed, conn_Close c', Warningf ''Read failed: %s\<newline>'' [ErrArg e] lg))"
| "hnext unm activeChecks tFlag (Decoding js, c, lg) =
     (case unm js of
        Inr ps \<Rightarrow> Some (Dispatching ps, c, lg)
      | Inl e \<Rightarrow>
          Some (Closed, conn_Close c, Warningf ''Unmarshal failed: %s\<newline>'' [ErrArg e] lg))"
| "hnext unm activeChecks tFlag (Dispatching ps, c, lg) =
     (if is_active_checks ps then Some (Writing, c, lg)
      else Some (Closed, conn_Close c,
        Warningf ''Unsupported request: %s\<newline>'' [IfaceArg (index ps ''request'')] lg))"
| "hnext unm activeChecks tFlag (Writing, c, lg) =
     (case conn_Write c activeChecks (timeout_of tFlag) of
        (None, c') \<Rightarrow> Some (Closed, conn_Close c', lg)
      | (Some e, c') \<Rightarrow>
          Some (Closed, conn_Close c', Warningf ''Write failed: %s\<newline>'' [ErrArg e] lg))"
| "hnext unm activeChecks tFlag (Closed, c, lg) = None"

text \<open>Running the machine for at most \<open>n\<close> steps.\<close>

fun hrun :: "unmarshal \<Rightarrow> bytes \<Rightarrow> go_int \<Rightarrow> nat \<Rightarrow> config \<Rightarrow> config" where
  "hrun unm activeChecks tFlag 0 cfg = cfg"
| "hrun unm activeChecks tFlag (Suc n) cfg =
     (case hnext unm activeChecks tFlag cfg of
        None \<Rightarrow> cfg
      | Some cfg' \<Rightarrow> hrun unm activeChecks tFlag n cfg')"

text \<open>How many steps a phase is from \<open>Closed\<close>, at most.\<close>

fun rank :: "phase \<Rightarrow> nat" where
  "rank Accepted = 5"
| "rank Reading = 4"
| "rank (Decoding js) = 3"
| "rank (Dispatching ps) = 2"
| "rank Writing = 1"
| "rank Closed = 0"

section \<open>The relation and the function agree\<close>

lemma hstep_iff_hnext:
  "hstep unm a t cfg cfg' \<longleftrightarrow> hnext unm a t cfg = Some cfg'"
proof
  assume "hstep unm a t cfg cfg'"
  then show "hnext unm a t cfg = Some cfg'"
    by (induction rule: hstep.induct) simp_all
next
  assume "hnext unm a t cfg = Some cfg'"
  then show "hstep unm a t cfg cfg'"
    by (induction unm a t cfg rule: hnext.induct)
       (auto intro: hstep.intros split: prod.splits sum.splits option.splits if_splits)
qed

lemma hstep_deterministic:
  "hstep unm a t cfg cfg' \<Longrightarrow> hstep unm a t cfg cfg'' \<Longrightarrow> cfg' = cfg''"
  by (simp add: hstep_iff_hnext)

lemma hnext_None_iff: "hnext unm a t cfg = None \<longleftrightarrow> fst cfg = Closed"
  by (induction unm a t cfg rule: hnext.induct)
     (auto split: prod.splits sum.splits option.splits)

lemma hstep_final: "fst cfg = Closed \<Longrightarrow> \<not> hstep unm a t cfg cfg'"
  using hnext_None_iff [of unm a t cfg] by (simp add: hstep_iff_hnext)

lemma hstep_progress: "fst cfg \<noteq> Closed \<Longrightarrow> \<exists>cfg'. hstep unm a t cfg cfg'"
  using hnext_None_iff [of unm a t cfg] by (auto simp: hstep_iff_hnext)

text \<open>
  The steps of \<open>hnext\<close> conditional on what the transport and the decoder
  return, in the form the handler's branch equations have.
\<close>

lemma hnext_branches:
  "fst (conn_Read c (timeout_of t)) = Inl e \<Longrightarrow>
   hnext unm a t (Reading, c, lg) =
     Some (Closed, conn_Close (snd (conn_Read c (timeout_of t))),
           Warningf ''Read failed: %s\<newline>'' [ErrArg e] lg)"
  "fst (conn_Read c (timeout_of t)) = Inr js \<Longrightarrow>
   hnext unm a t (Reading, c, lg) =
     Some (Decoding js, snd (conn_Read c (timeout_of t)), Debugf got_format [StrArg js] lg)"
  "unm js = Inl e \<Longrightarrow>
   hnext unm a t (Decoding js, c, lg) =
     Some (Closed, conn_Close c, Warningf ''Unmarshal failed: %s\<newline>'' [ErrArg e] lg)"
  "unm js = Inr ps \<Longrightarrow> hnext unm a t (Decoding js, c, lg) = Some (Dispatching ps, c, lg)"
  "fst (conn_Write c a (timeout_of t)) = None \<Longrightarrow>
   hnext unm a t (Writing, c, lg) =
     Some (Closed, conn_Close (snd (conn_Write c a (timeout_of t))), lg)"
  "fst (conn_Write c a (timeout_of t)) = Some e \<Longrightarrow>
   hnext unm a t (Writing, c, lg) =
     Some (Closed, conn_Close (snd (conn_Write c a (timeout_of t))),
           Warningf ''Write failed: %s\<newline>'' [ErrArg e] lg)"
  by (simp_all add: case_prod_beta)

section \<open>Termination\<close>

lemma hstep_rank: "hstep unm a t cfg cfg' \<Longrightarrow> rank (fst cfg') < rank (fst cfg)"
  by (induction rule: hstep.induct) simp_all

lemma hsteps_bounded:
  "(hstep unm a t ^^ n) cfg cfg' \<Longrightarrow> n + rank (fst cfg') \<le> rank (fst cfg)"
proof (induction n arbitrary: cfg')
  case 0
  then show ?case by simp
next
  case (Suc n)
  then obtain mid where "(hstep unm a t ^^ n) cfg mid" "hstep unm a t mid cfg'"
    by auto
  with Suc.IH [of mid] hstep_rank [of unm a t mid cfg'] show ?case by simp
qed

lemma hrun_steps: "(hstep unm a t)\<^sup>*\<^sup>* cfg (hrun unm a t n cfg)"
proof (induction n arbitrary: cfg)
  case 0
  then show ?case by simp
next
  case (Suc n)
  show ?case
  proof (cases "hnext unm a t cfg")
    case None
    then show ?thesis by simp
  next
    case (Some cfg')
    then have "hstep unm a t cfg cfg'" by (simp add: hstep_iff_hnext)
    with Suc.IH [of cfg'] Some show ?thesis
      by (simp add: converse_rtranclp_into_rtranclp)
  qed
qed

lemma hrun_enough: "rank (fst cfg) \<le> n \<Longrightarrow> fst (hrun unm a t n cfg) = Closed"
proof (induction n arbitrary: cfg)
  case 0
  then show ?case by (cases "fst cfg") simp_all
next
  case (Suc n)
  show ?case
  proof (cases "hnext unm a t cfg")
    case None
    then show ?thesis using hnext_None_iff [of unm a t cfg] by simp
  next
    case (Some cfg')
    then have "rank (fst cfg') < rank (fst cfg)"
      by (simp add: hstep_rank hstep_iff_hnext)
    with Suc.prems have "rank (fst cfg') \<le> n" by simp
    with Suc.IH Some show ?thesis by simp
  qed
qed

lemma hrun_handleConnection:
  "hrun unm a t 5 (Accepted, c, lg) = (Closed, handleConnection unm c a t lg)"
  by (cases rule: handleConnection_cases [of c t unm a lg])
     (simp_all add: numeral_eq_Suc hnext_branches del: hnext.simps(2,3,5))

section \<open>Runs of the machine and calls of the function\<close>

lemma hsteps_canonical:
  "(hstep unm a t)\<^sup>*\<^sup>* (Accepted, c, lg) (Closed, handleConnection unm c a t lg)"
  using hrun_steps [of unm a t "(Accepted, c, lg)" 5] by (simp add: hrun_handleConnection)

text \<open>
  Claim C13. The state machine and the function describe the same handler: a
  run of the machine from \<open>Accepted\<close> ends in \<open>Closed\<close> with a connection
  and a log exactly when these are what \<^verbatim>\<open>handleConnection\<close> returns.
\<close>

theorem hsteps_iff_handleConnection:
  "(hstep unm a t)\<^sup>*\<^sup>* (Accepted, c, lg) (Closed, c', lg') \<longleftrightarrow>
   (c', lg') = handleConnection unm c a t lg"
proof
  assume "(hstep unm a t)\<^sup>*\<^sup>* (Accepted, c, lg) (Closed, c', lg')"
  from this hsteps_canonical
  have "(Closed, c', lg') = (Closed, handleConnection unm c a t lg)"
    by (rule rtranclp_final_unique) (auto dest: hstep_deterministic simp: hstep_final)
  then show "(c', lg') = handleConnection unm c a t lg" by simp
next
  assume "(c', lg') = handleConnection unm c a t lg"
  with hsteps_canonical [of unm a t c lg]
  show "(hstep unm a t)\<^sup>*\<^sup>* (Accepted, c, lg) (Closed, c', lg')" by simp
qed

text \<open>
  Claim C26. A handler never gets stuck before it has closed its connection:
  from every configuration a run from \<open>Accepted\<close> can reach, the machine
  runs on to \<open>Closed\<close>, with the result the function computes.
\<close>

theorem handler_always_closes:
  assumes "(hstep unm a t)\<^sup>*\<^sup>* (Accepted, c, lg) cfg"
  shows "(hstep unm a t)\<^sup>*\<^sup>* cfg (Closed, handleConnection unm c a t lg)"
  using assms hsteps_canonical
  by (rule rtranclp_to_final) (auto dest: hstep_deterministic simp: hstep_final)

theorem handler_always_closes_witness:
  "(hstep (table_decoder known_requests) ''AC1'' 5)\<^sup>*\<^sup>*
     (Reading, fresh (client (Inr ''{}'') None), [])
     (Closed, handleConnection (table_decoder known_requests)
        (fresh (client (Inr ''{}'') None)) ''AC1'' 5 [])"
proof -
  have "(hstep (table_decoder known_requests) ''AC1'' 5)\<^sup>*\<^sup>*
     (Accepted, fresh (client (Inr ''{}'') None), [])
     (Reading, fresh (client (Inr ''{}'') None), [])"
    by (rule r_into_rtranclp) (rule hstep.start)
  then show ?thesis by (rule handler_always_closes)
qed



section \<open>The invariant of a handler\<close>

text \<open>
  What has happened on the connection since it was accepted is determined by
  the phase: nothing before the read, one successful read while the request
  is decoded and dispatched, and in \<open>Closed\<close> either a read and the close,
  or a successful read, a write of the canned response and the close. All
  operations carry the configured timeout.
\<close>

fun read_ev :: "duration \<Rightarrow> io_event \<Rightarrow> bool" where
  "read_ev t (ReadEv t' r) = (t' = t)"
| "read_ev t _ = False"

fun read_ok :: "duration \<Rightarrow> io_event \<Rightarrow> bool" where
  "read_ok t (ReadEv t' (Inr js)) = (t' = t)"
| "read_ok t _ = False"

fun write_ev :: "bytes \<Rightarrow> duration \<Rightarrow> io_event \<Rightarrow> bool" where
  "write_ev a t (WriteEv d t' w) = (d = a \<and> t' = t)"
| "write_ev a t _ = False"

fun shape :: "bytes \<Rightarrow> duration \<Rightarrow> phase \<Rightarrow> io_event list \<Rightarrow> bool" where
  "shape a t Accepted evs = (evs = [])"
| "shape a t Reading evs = (evs = [])"
| "shape a t (Decoding js) evs = (evs = [ReadEv t (Inr js)])"
| "shape a t (Dispatching ps) evs = matches [read_ok t] evs"
| "shape a t Writing evs = matches [read_ok t] evs"
| "shape a t Closed evs =
     (matches [read_ev t, (=) CloseEv] evs \<or>
      matches [read_ok t, write_ev a t, (=) CloseEv] evs)"

definition hinv :: "bytes \<Rightarrow> go_int \<Rightarrow> ZbxConnection \<Rightarrow> config \<Rightarrow> bool" where
  "hinv a tFlag c0 cfg \<longleftrightarrow>
     (case cfg of (ph, c, lg) \<Rightarrow>
        remote c = remote c0 \<and>
        take (length (history c0)) (history c) = history c0 \<and>
        shape a (timeout_of tFlag) ph (drop (length (history c0)) (history c)))"

lemma hinv_iff:
  "hinv a tFlag c0 (ph, c, lg) \<longleftrightarrow>
     remote c = remote c0 \<and>
     (\<exists>evs. history c = history c0 @ evs \<and> shape a (timeout_of tFlag) ph evs)"
  by (auto simp: hinv_def) (metis append_take_drop_id)

lemma hinv_start: "hinv a tFlag c0 (Accepted, c0, lg)"
  by (simp add: hinv_iff)

lemma read_ok_ev: "read_ok t e \<Longrightarrow> read_ev t e"
  by (cases "(t, e)" rule: read_ok.cases) simp_all

lemma read_ev_obs:
  "read_ev t e \<Longrightarrow> is_read e \<and> \<not> is_write e \<and> delivered e = [] \<and> e \<noteq> CloseEv"
  by (cases e) simp_all

lemma write_ev_obs:
  "write_ev a t e \<Longrightarrow>
   is_write e \<and> \<not> is_read e \<and> (delivered e = [] \<or> delivered e = [a]) \<and> e \<noteq> CloseEv"
  by (cases "(a, t, e)" rule: write_ev.cases; cases e rule: delivered.cases) auto

text \<open>Every step keeps the invariant.\<close>

lemma hstep_hinv [ms_inv]:
  assumes "hstep unm a tFlag cfg cfg'" and "hinv a tFlag c0 cfg"
  shows "hinv a tFlag c0 cfg'"
  using assms
proof (induction rule: hstep.induct)
  case (read_ok c js c' lg)
  then show ?case by (auto simp: hinv_iff conn_defs Let_def)
next
  case (read_failed c e c' lg)
  then show ?case by (auto simp: hinv_iff conn_defs Let_def)
next
  case (write_ok c c' lg)
  then show ?case by (auto simp: hinv_iff conn_defs Let_def matches_Cons)
next
  case (write_failed c e c' lg)
  then show ?case by (auto simp: hinv_iff conn_defs Let_def matches_Cons)
qed (auto simp: hinv_iff conn_defs matches_Cons read_ok_ev)

lemma hreach_hinv:
  "(hstep unm a tFlag)\<^sup>*\<^sup>* (Accepted, c0, lg0) cfg \<Longrightarrow> hinv a tFlag c0 cfg"
  by (induction rule: rtranclp_induct) (auto intro: hinv_start hstep_hinv)

text \<open>The four shapes a history can have, as a case analysis.\<close>

lemma shape_cases [consumes 1, case_names idle read_done unanswered written]:
  assumes "shape a t ph evs"
  obtains "ph \<noteq> Closed" "evs = []"
  | e where "ph \<noteq> Closed" "evs = [e]" "read_ev t e"
  | e where "ph = Closed" "evs = [e, CloseEv]" "read_ev t e"
  | e w where "ph = Closed" "evs = [e, w, CloseEv]" "read_ev t e" "write_ev a t w"
  using assms by (cases ph) (auto simp: matches_Cons dest: read_ok_ev)

lemma shape_obs:
  assumes h: "history c = history c0 @ evs" and "shape a t ph evs"
  shows "reads c \<le> Suc (reads c0) \<and> writes c \<le> Suc (writes c0) \<and>
         (sent c = sent c0 \<or> sent c = sent c0 @ [a]) \<and>
         (closed c \<longleftrightarrow> closed c0 \<or> ph = Closed)"
  using assms(2)
proof (cases rule: shape_cases)
  case idle
  with h show ?thesis by (simp add: obs_defs)
next
  case (read_done e)
  with h read_ev_obs [of t e] show ?thesis by (auto simp: obs_defs)
next
  case (unanswered e)
  with h read_ev_obs [of t e] show ?thesis by (auto simp: obs_defs)
next
  case (written e w)
  with h read_ev_obs [of t e] write_ev_obs [of a t w] show ?thesis
    by (auto simp: obs_defs)
qed



end
