(* ===== verification/Server.thy ===== *)
theory Server
  imports Handler_Steps "HOL-Library.Multiset"
begin

text \<open>
  The server while it serves: the goroutines started by
  \<^verbatim>\<open>go handleConnection(c, activeChecks, options.Timeout)\<close> (line 168) run
  concurrently with each other and with the accept loop. A system is the list
  of the handlers started so far, each with its phase and its connection, and
  the one log they share. A step of the system is a step of one handler on
  the shared log, or the acceptance of another connection. All handlers get
  the same canned response and timeout, as in \<^verbatim>\<open>main\<close>. The theory proves that
  every handler behaves as if it ran alone, whatever the others and the
  scheduler do, and that every fair schedule serves every connection.
\<close>

section \<open>The system\<close>

type_synonym slot = "phase \<times> ZbxConnection"

type_synonym system = "slot list \<times> log"

inductive sstep :: "unmarshal \<Rightarrow> bytes \<Rightarrow> go_int \<Rightarrow> system \<Rightarrow> system \<Rightarrow> bool"
  for unm :: unmarshal and activeChecks :: bytes and tFlag :: go_int
where
  accept:
    "sstep unm activeChecks tFlag (hs, lg) (hs @ [(Accepted, fresh p)], lg)"
| handler:
    "i < length hs \<Longrightarrow> hs ! i = (ph, c) \<Longrightarrow>
     hstep unm activeChecks tFlag (ph, c, lg) (ph', c', lg') \<Longrightarrow>
     sstep unm activeChecks tFlag (hs, lg) (hs[i := (ph', c')], lg')"

text \<open>
  The same steps as functions: handler \<open>i\<close> takes its next step (nothing
  happens when there is no such handler or it has finished), and a schedule
  is the list of the handlers that step, in order.
\<close>

definition step_handler :: "unmarshal \<Rightarrow> bytes \<Rightarrow> go_int \<Rightarrow> nat \<Rightarrow> system \<Rightarrow> system" where
  "step_handler unm activeChecks tFlag i = (\<lambda>(hs, lg).
     if i < length hs then
       (case hnext unm activeChecks tFlag (fst (hs ! i), snd (hs ! i), lg) of
          None \<Rightarrow> (hs, lg)
        | Some (ph', c', lg') \<Rightarrow> (hs[i := (ph', c')], lg'))
     else (hs, lg))"

fun run_schedule :: "unmarshal \<Rightarrow> bytes \<Rightarrow> go_int \<Rightarrow> nat list \<Rightarrow> system \<Rightarrow> system" where
  "run_schedule unm activeChecks tFlag [] s = s"
| "run_schedule unm activeChecks tFlag (i # sched) s =
     run_schedule unm activeChecks tFlag sched (step_handler unm activeChecks tFlag i s)"

text \<open>
  The system after the connections of the peers \<open>ps\<close> were accepted, and the
  schedule that lets each of \<open>n\<close> handlers step in turn, five times round.
\<close>

definition accepted_system :: "peer list \<Rightarrow> log \<Rightarrow> system" where
  "accepted_system ps lg = (map (\<lambda>p. (Accepted, fresh p)) ps, lg)"

definition round_robin :: "nat \<Rightarrow> nat list" where
  "round_robin n = concat (replicate 5 [0..<n])"

definition slot_of :: "config \<Rightarrow> slot" where
  "slot_of = (\<lambda>(ph, c, lg). (ph, c))"

text \<open>
  What a handler alone would have made of the connection in a slot: the slot
  lies on the run of a handler from a fresh connection to the same peer.
\<close>

definition alone :: "unmarshal \<Rightarrow> bytes \<Rightarrow> go_int \<Rightarrow> slot \<Rightarrow> bool" where
  "alone unm a t = (\<lambda>(ph, c). \<exists>lg. (hstep unm a t)\<^sup>*\<^sup>* (Accepted, fresh (remote c), []) (ph, c, lg))"

text \<open>
  The log entries a handler run alone for \<open>n\<close> steps from a slot makes.
\<close>

definition entries :: "unmarshal \<Rightarrow> bytes \<Rightarrow> go_int \<Rightarrow> nat \<Rightarrow> slot \<Rightarrow> log" where
  "entries unm a t n = (\<lambda>(ph, c). snd (snd (hrun unm a t n (ph, c, []))))"

text \<open>Three clients for the examples: one asks for the checks, one never sends, one pings.\<close>

definition three_clients :: "peer list" where
  "three_clients =
     [client (Inr ''{\"request\":\"active checks\"}'') None,
      client (Inl (Error ''i/o timeout'')) None,
      client (Inr ''{\"request\":\"ping\"}'') None]"

section \<open>Steps of one handler\<close>

text \<open>
  A handler only appends to the log, and what it does to its connection does
  not depend on what the log holds.
\<close>

lemma hnext_log_local:
  "hnext unm a t (ph, c, lg) =
     map_option (\<lambda>(ph', c', entries). (ph', c', lg @ entries)) (hnext unm a t (ph, c, []))"
  by (cases ph) (auto simp: log_defs split: prod.splits sum.splits option.splits)

lemma hstep_log_local:
  assumes "hstep unm a t (ph, c, lg) (ph', c', lg')"
  obtains entries where "lg' = lg @ entries"
    and "\<And>lg2. hstep unm a t (ph, c, lg2) (ph', c', lg2 @ entries)"
proof -
  from assms obtain entries where
    e: "hnext unm a t (ph, c, []) = Some (ph', c', entries)" "lg' = lg @ entries"
    by (subst (asm) hstep_iff_hnext, subst (asm) hnext_log_local) auto
  then have "hstep unm a t (ph, c, lg2) (ph', c', lg2 @ entries)" for lg2
    by (subst hstep_iff_hnext, subst hnext_log_local) simp
  with e(2) show ?thesis by (rule that)
qed

lemma hstep_remote:
  assumes "hstep unm a t (ph, c, lg) (ph', c', lg')"
  shows "remote c' = remote c"
  using assms by (cases rule: hstep.cases) (auto simp: conn_defs Let_def)

lemma slot_of_simps [simp]: "slot_of (ph, c, lg) = (ph, c)"
  by (simp add: slot_of_def)

lemma hnext_slot:
  "map_option slot_of (hnext unm a t (ph, c, lg)) = map_option slot_of (hnext unm a t (ph, c, []))"
  by (subst hnext_log_local) (cases "hnext unm a t (ph, c, [])"; auto)

lemma hrun_stuck: "hnext unm a t cfg = None \<Longrightarrow> hrun unm a t n cfg = cfg"
  by (cases n) simp_all

lemma hrun_slot:
  "slot_of (hrun unm a t n (ph, c, lg)) = slot_of (hrun unm a t n (ph, c, []))"
proof (induction n arbitrary: ph c lg)
  case 0
  show ?case by simp
next
  case (Suc n)
  show ?case
  proof (cases "hnext unm a t (ph, c, [])")
    case None
    with hnext_slot [of unm a t ph c lg] show ?thesis by simp
  next
    case (Some cfg)
    obtain ph' c' es where cfg: "cfg = (ph', c', es)" by (cases cfg)
    with Some have "hnext unm a t (ph, c, lg) = Some (ph', c', lg @ es)"
      by (subst hnext_log_local) simp
    with Some cfg Suc.IH [of ph' c' "lg @ es"] Suc.IH [of ph' c' es] show ?thesis by simp
  qed
qed

lemma hrun_add: "hrun unm a t (m + n) cfg = hrun unm a t n (hrun unm a t m cfg)"
proof (induction m arbitrary: cfg)
  case 0
  show ?case by simp
next
  case (Suc m)
  then show ?case
    by (cases "hnext unm a t cfg") (simp_all add: hrun_stuck)
qed

lemma hrun_enough_fuel:
  assumes "5 \<le> n"
  shows "hrun unm a t n (Accepted, c, lg) = (Closed, handleConnection unm c a t lg)"
proof -
  from assms obtain k where "n = 5 + k" by (auto simp: le_iff_add)
  then show ?thesis
    by (simp only: hrun_add hrun_handleConnection) (simp add: hrun_stuck hnext_None_iff)
qed

lemma hrun_log_local:
  "hrun unm a t n (ph, c, lg) =
     (case hrun unm a t n (ph, c, []) of (ph', c', es) \<Rightarrow> (ph', c', lg @ es))"
proof (induction n arbitrary: ph c lg)
  case 0
  show ?case by simp
next
  case (Suc n)
  show ?case
  proof (cases "hnext unm a t (ph, c, [])")
    case None
    then have "hnext unm a t (ph, c, lg) = None" by (subst hnext_log_local) simp
    with None show ?thesis by simp
  next
    case (Some cfg)
    obtain ph' c' es where cfg: "cfg = (ph', c', es)" by (cases cfg)
    with Some have "hnext unm a t (ph, c, lg) = Some (ph', c', lg @ es)"
      by (subst hnext_log_local) simp
    with Some cfg Suc.IH [of ph' c' "lg @ es"] Suc.IH [of ph' c' es] show ?thesis
      by (simp add: split_beta)
  qed
qed

lemma entries_stuck: "hnext unm a t (ph, c, []) = None \<Longrightarrow> entries unm a t n (ph, c) = []"
  by (simp add: entries_def hrun_stuck)

lemma entries_Suc:
  "hnext unm a t (ph, c, []) = Some (ph', c', es) \<Longrightarrow>
   entries unm a t (Suc n) (ph, c) = es @ entries unm a t n (ph', c')"
  by (simp add: entries_def) (subst hrun_log_local, simp add: split_beta)

section \<open>Every slot is a handler run alone\<close>

lemma alone_accepted: "alone unm a t (Accepted, fresh p)"
  by (auto simp: alone_def)

lemma alone_step:
  assumes "alone unm a t (ph, c)" and "hstep unm a t (ph, c, lg) (ph', c', lg')"
  shows "alone unm a t (ph', c')"
proof -
  from assms(1) obtain lg1 where
    run: "(hstep unm a t)\<^sup>*\<^sup>* (Accepted, fresh (remote c), []) (ph, c, lg1)"
    by (auto simp: alone_def)
  from assms(2) obtain entries where "hstep unm a t (ph, c, lg1) (ph', c', lg1 @ entries)"
    by (rule hstep_log_local) blast
  with run have "(hstep unm a t)\<^sup>*\<^sup>* (Accepted, fresh (remote c), []) (ph', c', lg1 @ entries)"
    by (rule rtranclp.rtrancl_into_rtrancl)
  with hstep_remote [OF assms(2)] show ?thesis
    by (auto simp: alone_def)
qed

lemma sstep_alone:
  assumes "sstep unm a t s s'" and "list_all (alone unm a t) (fst s)"
  shows "list_all (alone unm a t) (fst s')"
  using assms
proof (induction rule: sstep.induct)
  case (accept hs lg p)
  then show ?case by (simp add: alone_accepted)
next
  case (handler i hs ph c lg ph' c' lg')
  from handler.prems handler.hyps(1,2) have "alone unm a t (ph, c)"
    by (auto simp: list_all_length)
  from alone_step [OF this handler.hyps(3)] handler.prems show ?case
    by (auto simp: list_all_iff dest: set_update_subset_insert [THEN subsetD])
qed

lemma sreach_alone:
  "(sstep unm a t)\<^sup>*\<^sup>* ([], lg0) s \<Longrightarrow> list_all (alone unm a t) (fst s)"
  by (induction rule: rtranclp_induct) (auto intro: sstep_alone)

lemma alone_closed:
  assumes "alone unm a t (Closed, c)"
  shows "c = fst (handleConnection unm (fresh (remote c)) a t [])"
proof -
  from assms obtain lg where
    "(hstep unm a t)\<^sup>*\<^sup>* (Accepted, fresh (remote c), []) (Closed, c, lg)"
    by (auto simp: alone_def)
  from this hsteps_canonical
  have "(Closed, c, lg) = (Closed, handleConnection unm (fresh (remote c)) a t [])"
    by (rule rtranclp_final_unique) (auto dest: hstep_deterministic simp: hstep_final)
  then show ?thesis by (simp add: prod_eq_iff)
qed

section \<open>Schedules\<close>

lemma step_handler_length [simp]: "length (fst (step_handler unm a t i s)) = length (fst s)"
  by (cases s) (auto simp: step_handler_def split: option.splits)

lemma step_handler_other:
  "j \<noteq> i \<Longrightarrow> fst (step_handler unm a t i s) ! j = fst s ! j"
  by (cases s) (auto simp: step_handler_def split: option.splits)

lemma step_handler_self:
  assumes "i < length hs" and "hs ! i = (ph, c)"
  shows "fst (step_handler unm a t i (hs, lg)) ! i =
     (case hnext unm a t (ph, c, []) of None \<Rightarrow> (ph, c) | Some cfg \<Rightarrow> slot_of cfg)"
  using assms hnext_slot [of unm a t ph c lg]
  by (auto simp: step_handler_def split: option.splits)

lemma run_schedule_length [simp]:
  "length (fst (run_schedule unm a t sched s)) = length (fst s)"
  by (induction sched arbitrary: s) simp_all

lemma run_schedule_slot:
  assumes "j < length hs" and "hs ! j = (ph, c)"
  shows "fst (run_schedule unm a t sched (hs, lg)) ! j =
     slot_of (hrun unm a t (count_list sched j) (ph, c, []))"
  using assms
proof (induction sched arbitrary: hs lg ph c)
  case Nil
  then show ?case by simp
next
  case (Cons i sched)
  obtain hs' lg' where s': "step_handler unm a t i (hs, lg) = (hs', lg')"
    by (cases "step_handler unm a t i (hs, lg)")
  then have len: "j < length hs'"
    using Cons.prems(1) step_handler_length [of unm a t i "(hs, lg)"] by simp
  show ?case
  proof (cases "i = j")
    case False
    with s' Cons.prems have "hs' ! j = (ph, c)"
      using step_handler_other [of j i unm a t "(hs, lg)"] by simp
    from Cons.IH [OF len this] s' False show ?thesis by simp
  next
    case True
    show ?thesis
    proof (cases "hnext unm a t (ph, c, [])")
      case None
      with s' True Cons.prems have "hs' ! j = (ph, c)"
        using step_handler_self [of j hs ph c unm a t lg] by simp
      from Cons.IH [OF len this] s' True None show ?thesis
        by (simp add: hrun_stuck)
    next
      case (Some cfg)
      obtain ph' c' es where cfg: "cfg = (ph', c', es)" by (cases cfg)
      with Some s' True Cons.prems have "hs' ! j = (ph', c')"
        using step_handler_self [of j hs ph c unm a t lg] by simp
      from Cons.IH [OF len this] s' True Some cfg hrun_slot [of unm a t _ ph' c' es]
      show ?thesis by simp
    qed
  qed
qed

lemma accepted_system_simps [simp]:
  "length (fst (accepted_system ps lg)) = length ps"
  "j < length ps \<Longrightarrow> fst (accepted_system ps lg) ! j = (Accepted, fresh (ps ! j))"
  "snd (accepted_system ps lg) = lg"
  by (simp_all add: accepted_system_def)

lemma step_handler_sstep:
  "step_handler unm a t i s = s \<or> sstep unm a t s (step_handler unm a t i s)"
proof (cases s)
  case (Pair hs lg)
  show ?thesis
  proof (cases "i < length hs \<and> hnext unm a t (fst (hs ! i), snd (hs ! i), lg) \<noteq> None")
    case False
    with Pair show ?thesis by (auto simp: step_handler_def split: option.splits)
  next
    case True
    then obtain ph' c' lg' where
      n: "hnext unm a t (fst (hs ! i), snd (hs ! i), lg) = Some (ph', c', lg')"
      by (cases "hnext unm a t (fst (hs ! i), snd (hs ! i), lg)") auto
    then have "hstep unm a t (fst (hs ! i), snd (hs ! i), lg) (ph', c', lg')"
      by (simp add: hstep_iff_hnext)
    with True have "sstep unm a t (hs, lg) (hs[i := (ph', c')], lg')"
      by (intro sstep.handler [of i hs "fst (hs ! i)" "snd (hs ! i)"]) simp_all
    with True n Pair show ?thesis by (simp add: step_handler_def)
  qed
qed

lemma run_schedule_steps: "(sstep unm a t)\<^sup>*\<^sup>* s (run_schedule unm a t sched s)"
proof (induction sched arbitrary: s)
  case Nil
  show ?case by simp
next
  case (Cons i sched)
  from step_handler_sstep [of unm a t i s] Cons.IH [of "step_handler unm a t i s"]
  show ?case by (auto intro: converse_rtranclp_into_rtranclp)
qed

lemma three_clients_simps [simp]:
  "length three_clients = 3"
  "three_clients ! 0 = client (Inr ''{\"request\":\"active checks\"}'') None"
  "three_clients ! Suc 0 = client (Inl (Error ''i/o timeout'')) None"
  "three_clients ! 2 = client (Inr ''{\"request\":\"ping\"}'') None"
  by (simp_all add: three_clients_def)

lemma sent_examples [simp]:
  "sent (fst (handleConnection (table_decoder known_requests)
     (fresh (client (Inr ''{\"request\":\"active checks\"}'') None)) ''AC1'' 5 [])) = [''AC1'']"
  "sent (fst (handleConnection (table_decoder known_requests)
     (fresh (client (Inl (Error ''i/o timeout'')) None)) ''AC1'' 5 [])) = []"
  "sent (fst (handleConnection (table_decoder known_requests)
     (fresh (client (Inr ''{\"request\":\"ping\"}'') None)) ''AC1'' 5 [])) = []"
  by (simp_all add: handler_defs conn_defs obs_defs Let_def)

lemma round_robin_3: "round_robin 3 = [0, 1, 2, 0, 1, 2, 0, 1, 2, 0, 1, 2, 0, 1, 2]"
  by (simp add: round_robin_def numeral_eq_Suc upt_rec)

text \<open>Round robin names each of the first \<open>n\<close> handlers five times and no other.\<close>

lemma count_list_concat_replicate:
  "count_list (concat (replicate k xs)) x = k * count_list xs x"
  by (induction k) simp_all

lemma count_list_replicate: "count_list (replicate k x) x = k"
  by (induction k) simp_all

lemma count_list_upt: "count_list [0..<n] j = (if j < n then 1 else 0)"
  by (induction n) simp_all

lemma count_list_round_robin: "count_list (round_robin n) j = (if j < n then 5 else 0)"
  by (simp add: round_robin_def count_list_concat_replicate count_list_upt)

section \<open>The shared log\<close>

text \<open>
  After any schedule the shared log holds, in some order, what it held before
  and the entries each handler makes when run alone for as many steps as it
  was scheduled.
\<close>

lemma step_handler_log:
  assumes "i < length hs" and "hs ! i = (ph, c)"
  shows "snd (step_handler unm a t i (hs, lg)) =
     lg @ (case hnext unm a t (ph, c, []) of None \<Rightarrow> [] | Some (ph', c', es) \<Rightarrow> es)"
  using assms
  by (simp add: step_handler_def, subst hnext_log_local) (auto split: option.splits)

lemma step_handler_beyond: "\<not> i < length hs \<Longrightarrow> step_handler unm a t i (hs, lg) = (hs, lg)"
  by (simp add: step_handler_def)

lemma step_handler_entries:
  assumes "i < length hs"
  shows "mset (snd (step_handler unm a t i (hs, lg))) +
           mset (entries unm a t n (fst (step_handler unm a t i (hs, lg)) ! i)) =
         mset lg + mset (entries unm a t (Suc n) (hs ! i))"
proof -
  obtain ph c where slot: "hs ! i = (ph, c)" by (cases "hs ! i")
  note own = step_handler_log [OF assms slot, of unm a t lg]
    step_handler_self [OF assms slot, of unm a t lg]
  show ?thesis
  proof (cases "hnext unm a t (ph, c, [])")
    case None
    with own slot show ?thesis by (simp add: entries_stuck)
  next
    case (Some cfg)
    obtain ph' c' es where "cfg = (ph', c', es)" by (cases cfg)
    with Some own slot show ?thesis by (simp add: entries_Suc)
  qed
qed

lemma run_schedule_log:
  "mset (snd (run_schedule unm a t sched (hs, lg))) =
     mset lg + (\<Sum>j = 0..<length hs. mset (entries unm a t (count_list sched j) (hs ! j)))"
proof (induction sched arbitrary: hs lg)
  case Nil
  show ?case by (simp add: entries_def split_beta)
next
  case (Cons i sched)
  show ?case
  proof (cases "i < length hs")
    case False
    then have "\<And>j. j < length hs \<Longrightarrow> count_list (i # sched) j = count_list sched j" by auto
    with False Cons.IH [of hs lg] show ?thesis
      by (simp add: step_handler_beyond)
  next
    case True
    let ?s = "step_handler unm a t i (hs, lg)"
    let ?f = "\<lambda>j. mset (entries unm a t (count_list (i # sched) j) (hs ! j))"
    let ?g = "\<lambda>j. mset (entries unm a t (count_list sched j) (fst ?s ! j))"
    have rest: "sum ?g ({0..<length hs} - {i}) = sum ?f ({0..<length hs} - {i})"
      by (rule sum.cong) (auto simp: step_handler_other)
    have "mset (snd (run_schedule unm a t (i # sched) (hs, lg))) =
        mset (snd ?s) + sum ?g {0..<length hs}"
      using Cons.IH [of "fst ?s" "snd ?s"] by simp
    also have "\<dots> = (mset (snd ?s) + ?g i) + sum ?g ({0..<length hs} - {i})"
      using sum_split_at [OF True, of ?g] by (simp add: ac_simps)
    also have "\<dots> = (mset lg + ?f i) + sum ?f ({0..<length hs} - {i})"
      using step_handler_entries [OF True, of unm a t lg "count_list sched i"] rest by simp
    also have "\<dots> = mset lg + sum ?f {0..<length hs}"
      using sum_split_at [OF True, of ?f] by (simp add: ac_simps)
    finally show ?thesis .
  qed
qed

lemma log_examples [simp]:
  "snd (handleConnection (table_decoder known_requests)
     (fresh (client (Inr ''{\"request\":\"active checks\"}'') None)) ''AC1'' 5 []) =
   [LogCall Debug got_format [StrArg ''{\"request\":\"active checks\"}'']]"
  "snd (handleConnection (table_decoder known_requests)
     (fresh (client (Inl (Error ''i/o timeout'')) None)) ''AC1'' 5 []) =
   [LogCall Warning ''Read failed: %s\<newline>'' [ErrArg (Error ''i/o timeout'')]]"
  "snd (handleConnection (table_decoder known_requests)
     (fresh (client (Inr ''{\"request\":\"ping\"}'') None)) ''AC1'' 5 []) =
   [LogCall Debug got_format [StrArg ''{\"request\":\"ping\"}''],
    LogCall Warning ''Unsupported request: %s\<newline>'' [IfaceArg (GoString ''ping'')]]"
  by (simp_all add: handler_defs conn_defs obs_defs Let_def log_defs)

section \<open>Properties of the serving system\<close>

text \<open>
  Claim C14. Handlers are served independently: in every state the system can
  reach, by any interleaving of accepts and handler steps, a connection whose
  handler has finished is exactly what \<^verbatim>\<open>handleConnection\<close> alone makes of a
  fresh connection to that peer, so the peer received the canned response or
  nothing according to its own request only.
\<close>

theorem served_independently:
  assumes "(sstep unm a t)\<^sup>*\<^sup>* ([], lg0) (hs, lg)" and "(Closed, c) \<in> set hs"
  shows "c = fst (handleConnection unm (fresh (remote c)) a t []) \<and>
         sent c = response a (outcome_of unm (fresh (remote c)) a t)"
proof -
  from sreach_alone [OF assms(1)] assms(2) have "alone unm a t (Closed, c)"
    by (auto simp: list_all_iff)
  then have c: "c = fst (handleConnection unm (fresh (remote c)) a t [])"
    by (rule alone_closed)
  have "sent (fst (handleConnection unm (fresh (remote c)) a t [])) =
      response a (outcome_of unm (fresh (remote c)) a t)"
    by (cases rule: handleConnection_cases [of "fresh (remote c)" t unm a "[]"])
       (simp_all add: outcome_of_simps)
  with c show ?thesis by simp
qed

theorem served_independently_witness:
  "sent (fst (handleConnection (table_decoder known_requests)
      (fresh (client (Inl (Error ''i/o timeout'')) None)) ''AC1'' 5 [])) =
   response ''AC1'' (outcome_of (table_decoder known_requests)
      (fresh (client (Inl (Error ''i/o timeout'')) None)) ''AC1'' 5)"
proof -
  let ?p = "client (Inl (Error ''i/o timeout'')) None"
  let ?s = "run_schedule (table_decoder known_requests) ''AC1'' 5 [0, 0] ([(Accepted, fresh ?p)], [])"
  have "sstep (table_decoder known_requests) ''AC1'' 5 ([], []) ([] @ [(Accepted, fresh ?p)], [])"
    by (rule sstep.accept)
  then have run: "(sstep (table_decoder known_requests) ''AC1'' 5)\<^sup>*\<^sup>* ([], []) (fst ?s, snd ?s)"
    using run_schedule_steps [of "table_decoder known_requests" "''AC1''" 5
        "([(Accepted, fresh ?p)], [])" "[0, 0]"]
    by (simp add: converse_rtranclp_into_rtranclp)
  have "fst ?s = [(Closed, fst (handleConnection (table_decoder known_requests) (fresh ?p) ''AC1'' 5 []))]"
    by (simp add: step_handler_def handler_defs fst_conn_Read case_prod_beta)
  then have "(Closed, fst (handleConnection (table_decoder known_requests) (fresh ?p) ''AC1'' 5 []))
      \<in> set (fst ?s)" by simp
  from served_independently [OF run this] show ?thesis
    by (simp add: handler_defs conn_defs Let_def)
qed

text \<open>
  Claim C32. The state of a connection after any schedule depends only on how
  often its own handler was scheduled: it is the state of a handler run alone
  for that many steps. Neither the other peers nor the order of the steps
  matter.
\<close>

theorem slot_after_schedule:
  assumes "j < length ps"
  shows "fst (run_schedule unm a t sched (accepted_system ps lg)) ! j =
     slot_of (hrun unm a t (count_list sched j) (Accepted, fresh (ps ! j), []))"
  using assms run_schedule_slot [of j "fst (accepted_system ps lg)" Accepted "fresh (ps ! j)"
      unm a t sched lg]
  by (simp add: accepted_system_def)

theorem slot_after_schedule_witness:
  "fst (fst (run_schedule (table_decoder known_requests) ''AC1'' 5 [1, 0, 1]
     (accepted_system three_clients [])) ! 1) = Closed \<and>
   fst (fst (run_schedule (table_decoder known_requests) ''AC1'' 5 [1, 0, 1]
     (accepted_system three_clients [])) ! 0) = Reading"
  using slot_after_schedule [of 1 three_clients "table_decoder known_requests" "''AC1''" 5
      "[1, 0, 1]" "[]"]
    slot_after_schedule [of 0 three_clients "table_decoder known_requests" "''AC1''" 5
      "[1, 0, 1]" "[]"]
  by (simp add: numeral_eq_Suc fst_conn_Read case_prod_beta slot_of_def)

text \<open>
  Every schedule that lets each handler step five times serves all
  connections, however many there are and however the steps interleave: all
  handlers are closed and each connection is the result of
  \<^verbatim>\<open>handleConnection\<close> for its peer.
\<close>

lemma fair_schedule_serves_all:
  assumes "\<forall>j < length ps. 5 \<le> count_list sched j"
  shows "fst (run_schedule unm a t sched (accepted_system ps lg)) =
     map (\<lambda>p. (Closed, fst (handleConnection unm (fresh p) a t []))) ps"
proof (rule nth_equalityI)
  show "length (fst (run_schedule unm a t sched (accepted_system ps lg))) =
      length (map (\<lambda>p. (Closed, fst (handleConnection unm (fresh p) a t []))) ps)"
    by simp
next
  fix j
  assume "j < length (fst (run_schedule unm a t sched (accepted_system ps lg)))"
  then have j: "j < length ps" by simp
  with assms have "5 \<le> count_list sched j" by simp
  from hrun_enough_fuel [OF this] j
    run_schedule_slot [of j "fst (accepted_system ps lg)" Accepted "fresh (ps ! j)" unm a t sched lg]
  show "fst (run_schedule unm a t sched (accepted_system ps lg)) ! j =
      map (\<lambda>p. (Closed, fst (handleConnection unm (fresh p) a t []))) ps ! j"
    by (simp add: accepted_system_def slot_of_def split_beta)
qed

lemma fair_schedule_serves_all_example:
  "map (\<lambda>slot. (fst slot, sent (snd slot)))
     (fst (run_schedule (table_decoder known_requests) ''AC1'' 5 (round_robin 3)
        (accepted_system three_clients []))) =
   [(Closed, [''AC1'']), (Closed, []), (Closed, [])]"
proof -
  have "\<forall>j < length three_clients. 5 \<le> count_list (round_robin 3) j"
    unfolding round_robin_3 by (simp add: less_Suc_eq numeral_3_eq_3)
  from fair_schedule_serves_all [OF this] show ?thesis
    by (simp add: three_clients_def)
qed

text \<open>
  A step of the system touches one handler at most: the other
  connections and their phases stay as they are, no handler disappears, and
  the shared log is only ever extended.
\<close>

lemma sstep_isolated:
  assumes "sstep unm a t (hs, lg) (hs', lg')"
  shows "prefix lg lg' \<and> length hs \<le> length hs' \<and>
         (\<exists>i. \<forall>j < length hs. j \<noteq> i \<longrightarrow> hs' ! j = hs ! j)"
  using assms
proof (cases rule: sstep.cases)
  case (accept p)
  then show ?thesis by (auto simp: nth_append)
next
  case (handler i ph c ph' c')
  from handler(4) obtain entries where "lg' = lg @ entries" by (rule hstep_log_local)
  with handler(1) show ?thesis by (auto intro!: exI [of _ i])
qed

lemma sstep_isolated_example:
  "\<exists>i. \<forall>j < length [(Accepted, fresh (three_clients ! 0)), (Accepted, fresh (three_clients ! 1))].
     j \<noteq> i \<longrightarrow>
     [(Accepted, fresh (three_clients ! 0)), (Accepted, fresh (three_clients ! 1))]
       [0 := (Reading, fresh (three_clients ! 0))] ! j =
     [(Accepted, fresh (three_clients ! 0)), (Accepted, fresh (three_clients ! 1))] ! j"
proof -
  have "sstep (table_decoder known_requests) ''AC1'' 5
      ([(Accepted, fresh (three_clients ! 0)), (Accepted, fresh (three_clients ! 1))], [])
      ([(Accepted, fresh (three_clients ! 0)), (Accepted, fresh (three_clients ! 1))]
         [0 := (Reading, fresh (three_clients ! 0))], [])"
    by (rule sstep.handler [where ph = Accepted and c = "fresh (three_clients ! 0)"])
       (simp_all add: hstep.start)
  from sstep_isolated [OF this] show ?thesis by blast
qed

text \<open>
  No handler waits for another: a handler that has not closed its
  connection can take its next step in every state of the system, whatever
  the other handlers are doing.
\<close>

lemma handler_never_blocked:
  assumes "i < length hs" and "fst (hs ! i) \<noteq> Closed"
  shows "\<exists>ph' c' lg'. sstep unm a t (hs, lg) (hs[i := (ph', c')], lg') \<and>
           rank ph' < rank (fst (hs ! i))"
proof -
  from assms(2) obtain cfg' where
    st: "hstep unm a t (fst (hs ! i), snd (hs ! i), lg) cfg'"
    using hstep_progress [of "(fst (hs ! i), snd (hs ! i), lg)" unm a t] by auto
  obtain ph' c' lg' where cfg': "cfg' = (ph', c', lg')" by (cases cfg')
  with st assms(1) have "sstep unm a t (hs, lg) (hs[i := (ph', c')], lg')"
    by (intro sstep.handler [of i hs "fst (hs ! i)" "snd (hs ! i)"]) simp_all
  with hstep_rank [OF st] cfg' show ?thesis by auto
qed

lemma handler_never_blocked_example:
  "\<exists>ph' c' lg'. sstep (table_decoder known_requests) ''AC1'' 5
       ([(Reading, fresh (three_clients ! 1)), (Accepted, fresh (three_clients ! 0))], [])
       ([(Reading, fresh (three_clients ! 1)), (ph', c')], lg')"
  using handler_never_blocked [of 1
      "[(Reading, fresh (three_clients ! 1)), (Accepted, fresh (three_clients ! 0))]"
      "table_decoder known_requests" "''AC1''" 5 "[]"]
  by auto

text \<open>
  Claim C35. The shared log loses nothing and invents nothing: after a
  schedule that lets every handler finish, it holds what it held before and
  exactly the entries of every handler, as \<^verbatim>\<open>handleConnection\<close> alone makes
  them for its peer, interleaved in some order.
\<close>

theorem shared_log_complete:
  assumes "\<forall>j < length ps. 5 \<le> count_list sched j"
  shows "mset (snd (run_schedule unm a t sched (accepted_system ps lg))) =
     mset lg + (\<Sum>p\<leftarrow>ps. mset (snd (handleConnection unm (fresh p) a t [])))"
proof -
  have "entries unm a t (count_list sched j) (Accepted, fresh (ps ! j)) =
      snd (handleConnection unm (fresh (ps ! j)) a t [])" if "j < length ps" for j
    using that assms by (simp add: entries_def hrun_enough_fuel)
  then have "(\<Sum>j = 0..<length ps.
        mset (entries unm a t (count_list sched j) (fst (accepted_system ps lg) ! j))) =
      (\<Sum>j = 0..<length ps. mset (snd (handleConnection unm (fresh (ps ! j)) a t [])))"
    by (intro sum.cong) simp_all
  also have "\<dots> = (\<Sum>p\<leftarrow>ps. mset (snd (handleConnection unm (fresh p) a t [])))"
    by (simp add: sum_list_sum_nth)
  finally show ?thesis
    using run_schedule_log [of unm a t sched "fst (accepted_system ps lg)" lg]
    by (simp add: accepted_system_def)
qed

theorem shared_log_complete_witness:
  "mset (snd (run_schedule (table_decoder known_requests) ''AC1'' 5 (round_robin 3)
     (accepted_system three_clients []))) =
   mset [LogCall Debug got_format [StrArg ''{\"request\":\"active checks\"}''],
         LogCall Warning ''Read failed: %s\<newline>'' [ErrArg (Error ''i/o timeout'')],
         LogCall Debug got_format [StrArg ''{\"request\":\"ping\"}''],
         LogCall Warning ''Unsupported request: %s\<newline>'' [IfaceArg (GoString ''ping'')]]"
proof -
  have "\<forall>j < length three_clients. 5 \<le> count_list (round_robin 3) j"
    unfolding round_robin_3 by (simp add: less_Suc_eq numeral_3_eq_3)
  from shared_log_complete [OF this] show ?thesis
    by (simp add: three_clients_def)
qed

end
