(* ===== verification/Options.thy ===== *)
theory Options
  imports Strconv
begin

text \<open>
  The server's configuration: the struct \<^verbatim>\<open>MockServerOptions\<close> with the
  \<^verbatim>\<open>conf\<close> tag of each field as the source writes it, and the loading of a
  configuration into it. The loader (\<^verbatim>\<open>zabbix/pkg/conf\<close>) is not part of the
  sources; it is modelled from its contract: a tag is
  \<^verbatim>\<open>name,optional,min:max,default\<close>, a field takes the value of its key, else
  its default, else stays as it is when optional; an integer must parse and
  lie in its range. A configuration file is the map from its keys to their
  values. The theory proves that every loaded configuration satisfies the
  ranges, what the defaults are, that out-of-range values are refused and
  that loading is idempotent.
\<close>

section \<open>The struct and its tags\<close>

record MockServerOptions =
  LogType :: string
  LogFile :: string
  DebugLevel :: go_int
  Port :: go_int
  Timeout :: go_int
  ActiveChecksFile :: string

text \<open>\<^verbatim>\<open>var options MockServerOptions\<close>: Go's zero value.\<close>

definition zero_options :: MockServerOptions where
  "zero_options =
     \<lparr>LogType = [], LogFile = [], DebugLevel = 0, Port = 0, Timeout = 0, ActiveChecksFile = []\<rparr>"

datatype option_field = FLogType | FLogFile | FDebugLevel | FPort | FTimeout | FActiveChecksFile

definition all_fields :: "option_field list" where
  "all_fields = [FLogType, FLogFile, FDebugLevel, FPort, FTimeout, FActiveChecksFile]"

fun field_name :: "option_field \<Rightarrow> string" where
  "field_name FLogType = ''LogType''"
| "field_name FLogFile = ''LogFile''"
| "field_name FDebugLevel = ''DebugLevel''"
| "field_name FPort = ''Port''"
| "field_name FTimeout = ''Timeout''"
| "field_name FActiveChecksFile = ''ActiveChecksFile''"

fun tag :: "option_field \<Rightarrow> string" where
  "tag FLogType = '',,,console''"
| "tag FLogFile = '',optional''"
| "tag FDebugLevel = '',,0:5,3''"
| "tag FPort = '',,1:65535,10051''"
| "tag FTimeout = '',,1:30,5''"
| "tag FActiveChecksFile = '',optional''"

fun int_typed :: "option_field \<Rightarrow> bool" where
  "int_typed FDebugLevel = True"
| "int_typed FPort = True"
| "int_typed FTimeout = True"
| "int_typed _ = False"

fun set_string :: "option_field \<Rightarrow> string \<Rightarrow> MockServerOptions \<Rightarrow> MockServerOptions" where
  "set_string FLogType v opts = opts\<lparr>LogType := v\<rparr>"
| "set_string FLogFile v opts = opts\<lparr>LogFile := v\<rparr>"
| "set_string FActiveChecksFile v opts = opts\<lparr>ActiveChecksFile := v\<rparr>"
| "set_string _ v opts = opts"

fun set_int :: "option_field \<Rightarrow> go_int \<Rightarrow> MockServerOptions \<Rightarrow> MockServerOptions" where
  "set_int FDebugLevel i opts = opts\<lparr>DebugLevel := i\<rparr>"
| "set_int FPort i opts = opts\<lparr>Port := i\<rparr>"
| "set_int FTimeout i opts = opts\<lparr>Timeout := i\<rparr>"
| "set_int _ i opts = opts"

section \<open>Reading a tag\<close>

fun split_on :: "char \<Rightarrow> string \<Rightarrow> string list" where
  "split_on sep [] = [[]]"
| "split_on sep (c # cs) =
     (if c = sep then [] # split_on sep cs
      else (case split_on sep cs of p # ps \<Rightarrow> (c # p) # ps | [] \<Rightarrow> [[c]]))"

record meta =
  meta_name :: string
  meta_optional :: bool
  meta_range :: "(int \<times> int) option"
  meta_default :: "string option"

definition parse_range :: "string \<Rightarrow> (int \<times> int) option" where
  "parse_range s =
     (case split_on CHR '':'' s of
        [lo, hi] \<Rightarrow>
          (case (Atoi lo, Atoi hi) of (Inr l, Inr h) \<Rightarrow> Some (sint l, sint h) | _ \<Rightarrow> None)
      | _ \<Rightarrow> None)"

definition parse_tag :: "string \<Rightarrow> meta" where
  "parse_tag t =
     (let parts = split_on CHR '','' t in
      \<lparr>meta_name = (if 0 < length parts then parts ! 0 else []),
       meta_optional = (1 < length parts \<and> parts ! 1 = ''optional''),
       meta_range = (if 2 < length parts then parse_range (parts ! 2) else None),
       meta_default = (if 3 < length parts then Some (parts ! 3) else None)\<rparr>)"

section \<open>Loading\<close>

type_synonym conf_file = "string \<rightharpoonup> string"

definition key_of :: "option_field \<Rightarrow> string" where
  "key_of f = (let n = meta_name (parse_tag (tag f)) in if n = [] then field_name f else n)"

definition in_meta_range :: "meta \<Rightarrow> go_int \<Rightarrow> bool" where
  "in_meta_range m i =
     (case meta_range m of None \<Rightarrow> True | Some (lo, hi) \<Rightarrow> int_between lo hi i)"

definition load_value :: "option_field \<Rightarrow> string \<Rightarrow> MockServerOptions \<Rightarrow> MockServerOptions result" where
  "load_value f v opts =
     (if int_typed f then
        (case Atoi v of
           Inl e \<Rightarrow> Inl (Error (''invalid parameter '' @ key_of f))
         | Inr i \<Rightarrow>
             if in_meta_range (parse_tag (tag f)) i then Inr (set_int f i opts)
             else Inl (Error (''value out of range for parameter '' @ key_of f)))
      else Inr (set_string f v opts))"

definition load_field :: "conf_file \<Rightarrow> option_field \<Rightarrow> MockServerOptions \<Rightarrow> MockServerOptions result" where
  "load_field kv f opts =
     (let m = parse_tag (tag f) in
      case (case kv (key_of f) of Some v \<Rightarrow> Some v | None \<Rightarrow> meta_default m) of
        None \<Rightarrow>
          if meta_optional m then Inr opts
          else Inl (Error (''cannot find mandatory parameter '' @ key_of f))
      | Some v \<Rightarrow> load_value f v opts)"

fun load_fields :: "conf_file \<Rightarrow> option_field list \<Rightarrow> MockServerOptions \<Rightarrow> MockServerOptions result" where
  "load_fields kv [] opts = Inr opts"
| "load_fields kv (f # fs) opts =
     (case load_field kv f opts of Inl e \<Rightarrow> Inl e | Inr opts' \<Rightarrow> load_fields kv fs opts')"

definition Unmarshal :: "conf_file \<Rightarrow> MockServerOptions \<Rightarrow> MockServerOptions result" where
  "Unmarshal kv opts = load_fields kv all_fields opts"

text \<open>
  \<^verbatim>\<open>conf.Load(filename, &options)\<close>: the files the process can read are a map
  from paths to their parsed contents.
\<close>

definition conf_Load ::
  "(string \<rightharpoonup> conf_file) \<Rightarrow> string \<Rightarrow> MockServerOptions \<Rightarrow> MockServerOptions result" where
  "conf_Load files filename opts =
     (case files filename of
        None \<Rightarrow> Inl (Error (''cannot open configuration file '' @ filename))
      | Some kv \<Rightarrow> Unmarshal kv opts)"

section \<open>What the loader promises\<close>

text \<open>
  The ranges the tags declare, as a predicate on the loaded struct; the value
  a field is loaded from; the integer fields read back; and the closed form of
  one checked integer setting.
\<close>

definition options_ok :: "MockServerOptions \<Rightarrow> bool" where
  "options_ok opts \<longleftrightarrow>
     int_between 0 5 (DebugLevel opts) \<and> int_between 1 65535 (Port opts) \<and>
     int_between 1 30 (Timeout opts)"

definition value_of :: "conf_file \<Rightarrow> option_field \<Rightarrow> string option" where
  "value_of kv f =
     (case kv (key_of f) of Some v \<Rightarrow> Some v | None \<Rightarrow> meta_default (parse_tag (tag f)))"

fun get_int :: "option_field \<Rightarrow> MockServerOptions \<Rightarrow> go_int" where
  "get_int FDebugLevel opts = DebugLevel opts"
| "get_int FPort opts = Port opts"
| "get_int FTimeout opts = Timeout opts"
| "get_int _ opts = 0"

definition validated :: "option_field set \<Rightarrow> MockServerOptions \<Rightarrow> bool" where
  "validated F opts \<longleftrightarrow>
     (\<forall>f \<in> F. int_typed f \<longrightarrow> in_meta_range (parse_tag (tag f)) (get_int f opts))"

definition setting :: "conf_file \<Rightarrow> string \<Rightarrow> string \<Rightarrow> string" where
  "setting kv k d = (case kv k of None \<Rightarrow> d | Some v \<Rightarrow> v)"

definition checked_int :: "option_field \<Rightarrow> string \<Rightarrow> int \<Rightarrow> int \<Rightarrow> go_int result" where
  "checked_int f v lo hi =
     (case Atoi v of
        Inl e \<Rightarrow> Inl (Error (''invalid parameter '' @ key_of f))
      | Inr i \<Rightarrow> if int_between lo hi i then Inr i
                 else Inl (Error (''value out of range for parameter '' @ key_of f)))"

text \<open>A configuration used in the examples.\<close>

definition sample_conf :: conf_file where
  "sample_conf =
     [''Port'' \<mapsto> ''10052'', ''Timeout'' \<mapsto> ''30'', ''LogType'' \<mapsto> ''syslog'',
      ''ActiveChecksFile'' \<mapsto> ''checks.json'']"

definition sample_options :: MockServerOptions where
  "sample_options =
     \<lparr>LogType = ''syslog'', LogFile = [], DebugLevel = 3, Port = 10052, Timeout = 30,
      ActiveChecksFile = ''checks.json''\<rparr>"

section \<open>The tags, decoded\<close>

lemma Atoi_literals [simp]:
  "Atoi ''0'' = Inr 0" "Atoi ''1'' = Inr 1" "Atoi ''3'' = Inr 3" "Atoi ''5'' = Inr 5"
  "Atoi ''30'' = Inr 30" "Atoi ''31'' = Inr 31" "Atoi ''10052'' = Inr 10052" "Atoi ''65535'' = Inr 65535" "Atoi ''10051'' = Inr 10051"
  by (simp_all add: strconv_defs digit_val_def go_int_range_def)

declare tag.simps [simp del]

lemma parse_tag_simps [simp]:
  "parse_tag (tag FLogType) =
     \<lparr>meta_name = [], meta_optional = False, meta_range = None, meta_default = Some ''console''\<rparr>"
  "parse_tag (tag FLogFile) =
     \<lparr>meta_name = [], meta_optional = True, meta_range = None, meta_default = None\<rparr>"
  "parse_tag (tag FDebugLevel) =
     \<lparr>meta_name = [], meta_optional = False, meta_range = Some (0, 5), meta_default = Some ''3''\<rparr>"
  "parse_tag (tag FPort) =
     \<lparr>meta_name = [], meta_optional = False, meta_range = Some (1, 65535),
      meta_default = Some ''10051''\<rparr>"
  "parse_tag (tag FTimeout) =
     \<lparr>meta_name = [], meta_optional = False, meta_range = Some (1, 30), meta_default = Some ''5''\<rparr>"
  "parse_tag (tag FActiveChecksFile) =
     \<lparr>meta_name = [], meta_optional = True, meta_range = None, meta_default = None\<rparr>"
  by (simp_all add: tag.simps parse_tag_def parse_range_def Let_def)

lemma key_of_simps [simp]: "key_of f = field_name f"
  by (cases f) (simp_all add: key_of_def)

section \<open>One field\<close>

lemma load_field_eq:
  "load_field kv f opts =
     (case value_of kv f of
        None \<Rightarrow> if meta_optional (parse_tag (tag f)) then Inr opts
                 else Inl (Error (''cannot find mandatory parameter '' @ key_of f))
      | Some v \<Rightarrow> load_value f v opts)"
  by (simp add: load_field_def value_of_def Let_def del: key_of_simps)

lemma get_set_int [simp]:
  "get_int g (set_int f i opts) = (if g = f \<and> int_typed f then i else get_int g opts)"
  by (cases f; cases g) simp_all

lemma get_int_set_string [simp]: "get_int g (set_string f v opts) = get_int g opts"
  by (cases f; cases g) simp_all

lemma int_field_has_default: "int_typed f \<Longrightarrow> meta_default (parse_tag (tag f)) \<noteq> None"
  by (cases f) simp_all

lemma value_of_int_field: "int_typed f \<Longrightarrow> \<exists>v. value_of kv f = Some v"
  using int_field_has_default [of f] by (auto simp: value_of_def split: option.splits)

lemma load_field_int:
  assumes "load_field kv f opts = Inr opts'"
  shows "(int_typed f \<longrightarrow> in_meta_range (parse_tag (tag f)) (get_int f opts')) \<and>
         (\<forall>g. g \<noteq> f \<longrightarrow> get_int g opts' = get_int g opts)"
proof (cases "int_typed f")
  case True
  then obtain v where "value_of kv f = Some v" using value_of_int_field by blast
  with assms True show ?thesis
    by (auto simp: load_field_eq load_value_def split: sum.splits if_splits)
next
  case False
  with assms show ?thesis
    by (auto simp: load_field_eq load_value_def split: option.splits if_splits)
qed

lemma value_of_simps:
  "value_of kv FLogType = Some (setting kv ''LogType'' ''console'')"
  "value_of kv FLogFile = kv ''LogFile''"
  "value_of kv FDebugLevel = Some (setting kv ''DebugLevel'' ''3'')"
  "value_of kv FPort = Some (setting kv ''Port'' ''10051'')"
  "value_of kv FTimeout = Some (setting kv ''Timeout'' ''5'')"
  "value_of kv FActiveChecksFile = kv ''ActiveChecksFile''"
  by (simp_all add: value_of_def setting_def split: option.splits)

lemma load_field_strings:
  "load_field kv FLogType opts = Inr (opts\<lparr>LogType := setting kv ''LogType'' ''console''\<rparr>)"
  "load_field kv FLogFile opts = Inr (opts\<lparr>LogFile := setting kv ''LogFile'' (LogFile opts)\<rparr>)"
  "load_field kv FActiveChecksFile opts =
     Inr (opts\<lparr>ActiveChecksFile := setting kv ''ActiveChecksFile'' (ActiveChecksFile opts)\<rparr>)"
  by (simp_all add: load_field_eq value_of_simps load_value_def setting_def split: option.splits)

lemma load_field_ints:
  "load_field kv FDebugLevel opts =
     map_sum id (\<lambda>i. opts\<lparr>DebugLevel := i\<rparr>)
       (checked_int FDebugLevel (setting kv ''DebugLevel'' ''3'') 0 5)"
  "load_field kv FPort opts =
     map_sum id (\<lambda>i. opts\<lparr>Port := i\<rparr>) (checked_int FPort (setting kv ''Port'' ''10051'') 1 65535)"
  "load_field kv FTimeout opts =
     map_sum id (\<lambda>i. opts\<lparr>Timeout := i\<rparr>) (checked_int FTimeout (setting kv ''Timeout'' ''5'') 1 30)"
  by (simp_all add: load_field_eq value_of_simps load_value_def checked_int_def in_meta_range_def
      split: sum.splits)

section \<open>The whole struct\<close>

lemma load_fields_validated:
  assumes "load_fields kv fs opts = Inr opts'" and "validated F opts"
  shows "validated (F \<union> set fs) opts'"
  using assms
proof (induction fs arbitrary: opts F)
  case Nil
  then show ?case by simp
next
  case (Cons f fs)
  then obtain mid where mid: "load_field kv f opts = Inr mid" "load_fields kv fs mid = Inr opts'"
    by (auto split: sum.splits)
  from load_field_int [OF mid(1)] Cons.prems(2) have "validated (insert f F) mid"
    by (auto simp: validated_def)
  from Cons.IH [OF mid(2) this] show ?case by simp
qed

lemma options_ok_iff: "options_ok opts \<longleftrightarrow> validated (set all_fields) opts"
  by (auto simp: options_ok_def validated_def all_fields_def in_meta_range_def)

lemma Unmarshal_eq:
  "Unmarshal kv opts =
     (case checked_int FDebugLevel (setting kv ''DebugLevel'' ''3'') 0 5 of
        Inl e \<Rightarrow> Inl e
      | Inr d \<Rightarrow>
     (case checked_int FPort (setting kv ''Port'' ''10051'') 1 65535 of
        Inl e \<Rightarrow> Inl e
      | Inr p \<Rightarrow>
     (case checked_int FTimeout (setting kv ''Timeout'' ''5'') 1 30 of
        Inl e \<Rightarrow> Inl e
      | Inr t \<Rightarrow>
          Inr \<lparr>LogType = setting kv ''LogType'' ''console'',
               LogFile = setting kv ''LogFile'' (LogFile opts),
               DebugLevel = d, Port = p, Timeout = t,
               ActiveChecksFile = setting kv ''ActiveChecksFile'' (ActiveChecksFile opts)\<rparr>)))"
  by (simp add: Unmarshal_def all_fields_def load_field_strings load_field_ints
      split: sum.splits)

lemma Unmarshal_sample: "Unmarshal sample_conf zero_options = Inr sample_options"
  by (simp add: Unmarshal_eq sample_conf_def sample_options_def zero_options_def setting_def
      checked_int_def int_between_def)

lemma sample_options_simps [simp]:
  "LogType sample_options = ''syslog''" "LogFile sample_options = []"
  "DebugLevel sample_options = 3" "Port sample_options = 10052" "Timeout sample_options = 30"
  "ActiveChecksFile sample_options = ''checks.json''"
  by (simp_all add: sample_options_def)

text \<open>
  Claim C31. Every configuration the loader accepts satisfies the ranges of the
  tags: \<^verbatim>\<open>DebugLevel\<close> in 0..5, \<^verbatim>\<open>Port\<close> in 1..65535, \<^verbatim>\<open>Timeout\<close> in 1..30,
  whatever the file holds and whatever the struct held before.
\<close>

theorem Unmarshal_valid:
  assumes "Unmarshal kv opts = Inr opts'"
  shows "options_ok opts'"
proof -
  have "validated {} opts" by (simp add: validated_def)
  with assms have "validated ({} \<union> set all_fields) opts'"
    unfolding Unmarshal_def by (rule load_fields_validated)
  then show ?thesis by (simp add: options_ok_iff)
qed

theorem Unmarshal_valid_witness:
  "Unmarshal sample_conf zero_options = Inr sample_options \<and> options_ok sample_options"
  using Unmarshal_valid [of sample_conf zero_options sample_options]
  by (simp add: Unmarshal_sample)

text \<open>
  Loading an empty configuration succeeds and yields the defaults of
  the tags: log type \<^verbatim>\<open>console\<close>, debug level 3, port 10051, timeout 5; the
  two optional fields keep what they held.
\<close>

lemma Unmarshal_defaults:
  "Unmarshal Map.empty opts =
     Inr (opts\<lparr>LogType := ''console'', DebugLevel := 3, Port := 10051, Timeout := 5\<rparr>)"
  by (simp add: Unmarshal_eq setting_def checked_int_def int_between_def)

text \<open>
  A value of an integer field that parses but lies outside the range
  of its tag makes the whole load fail, whatever the other keys hold.
\<close>

lemma Unmarshal_rejects:
  assumes "f \<in> {FDebugLevel, FPort, FTimeout}" and "kv (field_name f) = Some v"
    and "Atoi v = Inr i" and "\<not> in_meta_range (parse_tag (tag f)) i"
  shows "failed (Unmarshal kv opts)"
  using assms
  by (auto simp: Unmarshal_eq setting_def checked_int_def in_meta_range_def split: sum.splits)

lemma Unmarshal_rejects_example:
  "FTimeout \<in> {FDebugLevel, FPort, FTimeout} \<and>
   [''Timeout'' \<mapsto> ''31''] (field_name FTimeout) = Some ''31'' \<and> Atoi ''31'' = Inr 31 \<and>
   \<not> in_meta_range (parse_tag (tag FTimeout)) 31 \<and>
   failed (Unmarshal [''Timeout'' \<mapsto> ''31''] zero_options)"
  using Unmarshal_rejects [of FTimeout "[''Timeout'' \<mapsto> ''31'']" "''31''" 31 zero_options]
  by (simp add: in_meta_range_def int_between_def)

text \<open>
  Loading is idempotent: loading the same configuration again into
  the struct a successful load produced changes nothing. This is why the
  second, identical \<^verbatim>\<open>conf.Load\<close> of \<^verbatim>\<open>main\<close> has no effect of its own.
\<close>

lemma Unmarshal_idempotent:
  "Unmarshal kv opts = Inr opts' \<Longrightarrow> Unmarshal kv opts' = Inr opts'"
  by (auto simp: Unmarshal_eq setting_def split: sum.splits option.splits)

lemma Unmarshal_idempotent_example:
  "Unmarshal sample_conf zero_options = Inr sample_options \<and>
   Unmarshal sample_conf sample_options = Inr sample_options"
  using Unmarshal_idempotent [of sample_conf zero_options sample_options]
  by (simp add: Unmarshal_sample)

text \<open>
  The tag of \<^verbatim>\<open>LogType\<close> declares no range, so the loader accepts
  any string for it: a successful load stores the configured value as it is.
\<close>

lemma LogType_unchecked:
  "kv ''LogType'' = Some v \<Longrightarrow> Unmarshal kv opts = Inr opts' \<Longrightarrow> LogType opts' = v"
  by (auto simp: Unmarshal_eq setting_def split: sum.splits)

lemma LogType_unchecked_example:
  "sample_conf ''LogType'' = Some ''syslog'' \<and>
   Unmarshal sample_conf zero_options = Inr sample_options \<and> LogType sample_options = ''syslog''"
  using LogType_unchecked [of sample_conf "''syslog''" zero_options sample_options]
  by (simp add: Unmarshal_sample) (simp add: sample_conf_def)

section \<open>Files\<close>

lemma conf_Load_missing: "files filename = None \<Longrightarrow> failed (conf_Load files filename opts)"
  by (simp add: conf_Load_def)

lemma conf_Load_found: "files filename = Some kv \<Longrightarrow> conf_Load files filename opts = Unmarshal kv opts"
  by (simp add: conf_Load_def)

lemma conf_Load_valid:
  assumes "conf_Load files filename opts = Inr opts'"
  shows "options_ok opts'"
proof -
  from assms obtain kv where "load_fields kv all_fields opts = Inr opts'"
    by (auto simp: conf_Load_def Unmarshal_def split: option.splits)
  from load_fields_validated [OF this, of "{}"] show ?thesis
    by (simp add: options_ok_iff validated_def)
qed

lemma conf_Load_idem:
  assumes "conf_Load files filename opts = Inr opts'"
  shows "conf_Load files filename opts' = Inr opts'"
proof -
  from assms obtain kv where kv: "files filename = Some kv" "Unmarshal kv opts = Inr opts'"
    by (auto simp: conf_Load_def split: option.splits)
  from kv(2) have "Unmarshal kv opts' = Inr opts'"
    by (auto simp: Unmarshal_eq setting_def split: sum.splits option.splits)
  with kv(1) show ?thesis by (simp add: conf_Load_def)
qed

end
