(* ===== verification/Flag.thy ===== *)
theory Flag
  imports Strconv "HOL-Library.Sublist"
begin

text \<open>
  The part of Go's \<^verbatim>\<open>flag\<close> package that \<^verbatim>\<open>main\<close> uses: flags bound to
  variables with \<^verbatim>\<open>StringVar\<close> and \<^verbatim>\<open>BoolVar\<close>, and \<^verbatim>\<open>Parse\<close> on the arguments of
  the command line. The package is generic in the variables of the program:
  a flag carries the assignment \<^verbatim>\<open>Value.Set\<close> performs on them, which fails
  when the text is not a value of the flag's type. \<^verbatim>\<open>Parse\<close> reads arguments
  while they are flags: it stops before the first argument that is not one
  and after \<^verbatim>\<open>--\<close>; a flag is written with one or two minus signs, its value
  after an equals sign or, unless the flag is boolean, as the next argument.
  The standard library is not part of the sources; the definitions follow its
  documented behaviour. Here an error is a value; what the package writes
  for it, its message and the usage text, is in the theory \<open>Flag_Usage\<close>.
\<close>

section \<open>Flags\<close>

record 'v Flag =
  Name :: string
  Usage :: string
  DefValue :: string
  IsBoolFlag :: bool
  Set :: "string \<Rightarrow> 'v \<Rightarrow> 'v option"

definition StringVar :: "(string \<Rightarrow> 'v \<Rightarrow> 'v) \<Rightarrow> string \<Rightarrow> string \<Rightarrow> string \<Rightarrow> 'v Flag" where
  "StringVar assign name val usage =
     \<lparr>Name = name, Usage = usage, DefValue = val, IsBoolFlag = False,
      Set = (\<lambda>s v. Some (assign s v))\<rparr>"

definition BoolVar :: "(bool \<Rightarrow> 'v \<Rightarrow> 'v) \<Rightarrow> string \<Rightarrow> bool \<Rightarrow> string \<Rightarrow> 'v Flag" where
  "BoolVar assign name val usage =
     \<lparr>Name = name, Usage = usage, DefValue = FormatBool val, IsBoolFlag = True,
      Set = (\<lambda>s v. map_option (\<lambda>b. assign b v) (ParseBool s))\<rparr>"

section \<open>Parse\<close>

text \<open>
  The errors of \<^verbatim>\<open>Parse\<close>: the request for help (\<^verbatim>\<open>-h\<close> or \<^verbatim>\<open>-help\<close> when the
  program defines no such flag) and the four failures, each with the argument
  or the flag name and the value at fault.
\<close>

datatype flag_error =
    ErrHelp
  | BadSyntax string
  | NotDefined string
  | InvalidValue string string
  | NeedsArgument string

text \<open>
  The name and the value of \<^verbatim>\<open>name=value\<close>; an equals sign cannot be the first
  character of the name.
\<close>

definition name_value :: "string \<Rightarrow> string \<times> string option" where
  "name_value s =
     (case s of
        [] \<Rightarrow> ([], None)
      | c # cs \<Rightarrow>
          if CHR ''='' \<in> set cs
          then (c # takeWhile (\<lambda>x. x \<noteq> CHR ''='') cs, Some (tl (dropWhile (\<lambda>x. x \<noteq> CHR ''='') cs)))
          else (s, None))"

definition lookup :: "'v Flag list \<Rightarrow> string \<Rightarrow> 'v Flag option" where
  "lookup formal name = find (\<lambda>f. Name f = name) formal"

definition set_flag :: "'v Flag \<Rightarrow> string \<Rightarrow> 'v \<Rightarrow> flag_error + 'v" where
  "set_flag f s v = (case Set f s v of None \<Rightarrow> Inl (InvalidValue s (Name f)) | Some v' \<Rightarrow> Inr v')"

fun Parse :: "'v Flag list \<Rightarrow> 'v \<Rightarrow> string list \<Rightarrow> flag_error + 'v \<times> string list" where
  "Parse formal v [] = Inr (v, [])"
| "Parse formal v (s # args) =
     (if length s < 2 \<or> hd s \<noteq> CHR ''-'' then Inr (v, s # args)
      else if s = ''--'' then Inr (v, args)
      else
        let body = (if s ! 1 = CHR ''-'' then drop 2 s else drop 1 s) in
        if body = [] \<or> hd body = CHR ''-'' \<or> hd body = CHR ''='' then Inl (BadSyntax s)
        else
          (case lookup formal (fst (name_value body)) of
             None \<Rightarrow>
               if fst (name_value body) = ''help'' \<or> fst (name_value body) = ''h'' then Inl ErrHelp
               else Inl (NotDefined (fst (name_value body)))
           | Some f \<Rightarrow>
               (case snd (name_value body) of
                  Some x \<Rightarrow>
                    (case set_flag f x v of Inl err \<Rightarrow> Inl err | Inr v' \<Rightarrow> Parse formal v' args)
                | None \<Rightarrow>
                    if IsBoolFlag f then
                      (case set_flag f ''true'' v of
                         Inl err \<Rightarrow> Inl err
                       | Inr v' \<Rightarrow> Parse formal v' args)
                    else
                      (case args of
                         [] \<Rightarrow> Inl (NeedsArgument (fst (name_value body)))
                       | x # args' \<Rightarrow>
                           (case set_flag f x v of
                              Inl err \<Rightarrow> Inl err
                            | Inr v' \<Rightarrow> Parse formal v' args')))))"

text \<open>A name a flag can have.\<close>

definition flag_name :: "string \<Rightarrow> bool" where
  "flag_name n \<longleftrightarrow> n \<noteq> [] \<and> hd n \<noteq> CHR ''-'' \<and> CHR ''='' \<notin> set n"

section \<open>Reading one flag\<close>

text \<open>
  The three ways to write a flag that is defined: by its name alone, by its
  name followed by the value as the next argument, and by name and value in
  one argument; each with one or two minus signs.
\<close>

lemma name_value_plain [simp]: "CHR ''='' \<notin> set n \<Longrightarrow> name_value n = (n, None)"
  by (cases n) (simp_all add: name_value_def)

lemma name_value_equals [simp]:
  assumes "CHR ''='' \<notin> set n" "n \<noteq> []"
  shows "name_value (n @ CHR ''='' # x) = (n, Some x)"
proof -
  from assms obtain c cs where n: "n = c # cs" "CHR ''='' \<notin> set cs"
    by (cases n) auto
  then show ?thesis
    by (simp add: name_value_def takeWhile_until dropWhile_until)
qed

lemma Parse_body:
  assumes "flag_name n" "d = ''-'' \<or> d = ''--''"
  shows "Parse formal v ((d @ n @ w) # argv) =
    (let body = n @ w in
     case lookup formal (fst (name_value body)) of
       None \<Rightarrow>
         if fst (name_value body) = ''help'' \<or> fst (name_value body) = ''h'' then Inl ErrHelp
         else Inl (NotDefined (fst (name_value body)))
     | Some f \<Rightarrow>
         (case snd (name_value body) of
            Some x \<Rightarrow>
              (case set_flag f x v of Inl err \<Rightarrow> Inl err | Inr v' \<Rightarrow> Parse formal v' argv)
          | None \<Rightarrow>
              if IsBoolFlag f then
                (case set_flag f ''true'' v of Inl err \<Rightarrow> Inl err | Inr v' \<Rightarrow> Parse formal v' argv)
              else
                (case argv of
                   [] \<Rightarrow> Inl (NeedsArgument (fst (name_value body)))
                 | x # argv' \<Rightarrow>
                     (case set_flag f x v of
                        Inl err \<Rightarrow> Inl err
                      | Inr v' \<Rightarrow> Parse formal v' argv'))))"
proof -
  define s where "s = d @ n @ w"
  from assms obtain c cs where n: "n = c # cs" "c \<noteq> CHR ''-''" "c \<noteq> CHR ''=''"
    by (cases n) (auto simp: flag_name_def)
  with assms(2) have s:
    "\<not> (length s < 2 \<or> hd s \<noteq> CHR ''-'')" "s \<noteq> ''--''"
    "(if s ! 1 = CHR ''-'' then drop 2 s else drop 1 s) = n @ w"
    "\<not> (n @ w = [] \<or> hd (n @ w) = CHR ''-'' \<or> hd (n @ w) = CHR ''='')"
    by (auto simp: s_def)
  show ?thesis
    unfolding s_def [symmetric] Parse.simps(2) [of formal v s argv]
    by (simp only: s if_False Let_def)
qed

declare Parse.simps(2) [simp del]

lemma Parse_bool:
  assumes "flag_name n" "d = ''-'' \<or> d = ''--''" "lookup formal n = Some f" "IsBoolFlag f"
  shows "Parse formal v ((d @ n) # argv) =
    (case set_flag f ''true'' v of Inl err \<Rightarrow> Inl err | Inr v' \<Rightarrow> Parse formal v' argv)"
  using Parse_body [OF assms(1,2), of formal v "[]" argv] assms by (simp add: flag_name_def)

lemma Parse_next:
  assumes "flag_name n" "d = ''-'' \<or> d = ''--''" "lookup formal n = Some f" "\<not> IsBoolFlag f"
  shows "Parse formal v ((d @ n) # x # argv) =
    (case set_flag f x v of Inl err \<Rightarrow> Inl err | Inr v' \<Rightarrow> Parse formal v' argv)"
  using Parse_body [OF assms(1,2), of formal v "[]" "x # argv"] assms by (simp add: flag_name_def)

lemma Parse_equals:
  assumes "flag_name n" "d = ''-'' \<or> d = ''--''" "lookup formal n = Some f"
  shows "Parse formal v ((d @ n @ CHR ''='' # x) # argv) =
    (case set_flag f x v of Inl err \<Rightarrow> Inl err | Inr v' \<Rightarrow> Parse formal v' argv)"
  using Parse_body [OF assms(1,2), of formal v "CHR ''='' # x" argv] assms
  by (simp add: flag_name_def)

lemma Parse_not_defined:
  assumes "flag_name n" "d = ''-'' \<or> d = ''--''" "lookup formal n = None"
  shows "Parse formal v ((d @ n) # argv) =
    Inl (if n = ''help'' \<or> n = ''h'' then ErrHelp else NotDefined n)"
  using Parse_body [OF assms(1,2), of formal v "[]" argv] assms by (simp add: flag_name_def)

text \<open>The arguments left over are the last ones given.\<close>

lemma Parse_suffix: "Parse formal v argv = Inr (v', rest) \<Longrightarrow> suffix rest argv"
proof (induction argv arbitrary: v rule: length_induct)
  case (1 argv)
  show ?case
  proof (cases argv)
    case Nil
    with 1 show ?thesis by simp
  next
    case (Cons s args)
    have step: "suffix rest args" if "Parse formal v1 args = Inr (v', rest)" for v1
      using "1.IH" that Cons by force
    have step2: "suffix rest (x # args')" if "Parse formal v1 args' = Inr (v', rest)" "args = x # args'" for v1 x args'
      using "1.IH" that Cons by (force simp: suffix_Cons)
    from "1.prems" show ?thesis
      unfolding Cons Parse.simps(2) Let_def
      by (auto simp: suffix_Cons split: if_splits option.splits sum.splits list.splits dest: step step2)
  qed
qed

end
