(* ===== verification/Bootstrap.thy ===== *)
theory Bootstrap
  imports Options Handler Flag
begin

text \<open>
  \<^verbatim>\<open>main\<close> (lines 77-170) from the values of its flags: the flag variables
  and their defaults, the two loads of the configuration, the choice of the
  logger's sink and verbosity, the opening of the logger, the greeting, the
  reading of the canned response, the listener and the accept loop. The world
  \<^verbatim>\<open>main\<close> runs in is a record of what the collaborators answer: what the
  flag package prints for an error and the exit status it chooses after a
  request for help (used by the theory \<open>Command_Line\<close>, which reads the flags
  from the arguments), which configuration files exist, what
  \<^verbatim>\<open>ioutil.ReadFile\<close>, \<^verbatim>\<open>log.Open\<close> and \<^verbatim>\<open>Listen\<close> return, and the outcomes of
  the successive calls of \<^verbatim>\<open>Accept\<close>. The process is a record of what \<^verbatim>\<open>main\<close>
  has done: the global \<^verbatim>\<open>options\<close>, the lines written to the two standard
  streams, the logger opened, the log calls made, the address bound, whether
  the deferred \<^verbatim>\<open>ln.Close\<close> ran, and the goroutines started with the arguments
  of each. The accept loop never ends by itself: over a finite list of accept
  outcomes without a failure the result is \<open>Blocked\<close>, the process waiting in
  \<^verbatim>\<open>Accept\<close>.
\<close>

section \<open>Flags\<close>

record flags =
  confFlag :: string
  foregroundFlag :: bool

definition confDefault :: string where
  "confDefault = ''mock_server.conf''"

definition foregroundDefault :: bool where
  "foregroundDefault = True"

definition default_flags :: flags where
  "default_flags = \<lparr>confFlag = confDefault, foregroundFlag = foregroundDefault\<rparr>"

section \<open>The world and the process\<close>

record env =
  usage_output :: "flag_error \<Rightarrow> string list"
  help_status :: go_int
  conf_files :: "string \<rightharpoonup> conf_file"
  read_file :: "string \<Rightarrow> bytes result"
  log_open :: "log_type option \<Rightarrow> log_level option \<Rightarrow> string \<Rightarrow> error option"
  listen_reply :: "string \<Rightarrow> error option"
  accepts :: "peer result list"

text \<open>A goroutine started by \<^verbatim>\<open>go handleConnection(c, activeChecks, options.Timeout)\<close>.\<close>

type_synonym goroutine = "ZbxConnection \<times> bytes \<times> go_int"

record process =
  options :: MockServerOptions
  stderr :: "string list"
  stdout :: "string list"
  logger :: "(log_type option \<times> log_level option \<times> string) option"
  log :: log
  listening :: "string option"
  ln_closed :: bool
  spawned :: "goroutine list"

text \<open>
  How \<^verbatim>\<open>main\<close> stops: \<^verbatim>\<open>os.Exit\<close> with a status, a plain \<^verbatim>\<open>return\<close> (status 0),
  or not at all.
\<close>

datatype exit = Exit go_int | Returned | Blocked

definition initial :: process where
  "initial =
     \<lparr>options = zero_options, stderr = [], stdout = [], logger = None, log = [],
      listening = None, ln_closed = False, spawned = []\<rparr>"

definition Fprintf_stderr :: "string \<Rightarrow> process \<Rightarrow> process" where
  "Fprintf_stderr s p = p\<lparr>stderr := stderr p @ [s]\<rparr>"

definition Println :: "string \<Rightarrow> process \<Rightarrow> process" where
  "Println s p = p\<lparr>stdout := stdout p @ [s @ ''\<newline>'']\<rparr>"

definition logging :: "(log \<Rightarrow> log) \<Rightarrow> process \<Rightarrow> process" where
  "logging f p = p\<lparr>log := f (log p)\<rparr>"

section \<open>The phases of \<^verbatim>\<open>main\<close>\<close>

text \<open>
  One \<^verbatim>\<open>conf.Load(confFlag, &options)\<close> with its error branch. A phase yields
  \<open>Some\<close> exit when \<^verbatim>\<open>main\<close> stops in it.
\<close>

definition load_config :: "env \<Rightarrow> flags \<Rightarrow> process \<Rightarrow> exit option \<times> process" where
  "load_config e fl p =
     (case conf_Load (conf_files e) (confFlag fl) (options p) of
        Inl err \<Rightarrow> (Some (Exit 1), Fprintf_stderr (message err @ ''\<newline>'') p)
      | Inr opts \<Rightarrow> (None, p\<lparr>options := opts\<rparr>))"

text \<open>
  The two switches. \<^verbatim>\<open>logType\<close> and \<^verbatim>\<open>logLevel\<close> are declared without a
  value and the switches have no default branch: \<open>None\<close> is the variable
  left at Go's zero value.
\<close>

definition logType_of :: "string \<Rightarrow> log_type option" where
  "logType_of s =
     (if s = ''console'' then Some Console else if s = ''file'' then Some File else None)"

definition logLevel_of :: "go_int \<Rightarrow> log_level option" where
  "logLevel_of d =
     (if d = 0 then Some Info
      else if d = 1 then Some Crit
      else if d = 2 then Some Err
      else if d = 3 then Some Warning
      else if d = 4 then Some Debug
      else if d = 5 then Some Trace
      else None)"

definition open_logger :: "env \<Rightarrow> process \<Rightarrow> exit option \<times> process" where
  "open_logger e p =
     (let logType = logType_of (LogType (options p));
          logLevel = logLevel_of (DebugLevel (options p))
      in case log_open e logType logLevel (LogFile (options p)) of
           Some err \<Rightarrow>
             (Some (Exit 1),
              Fprintf_stderr (''Cannot initialize logger: '' @ message err @ ''\<newline>'') p)
         | None \<Rightarrow> (None, p\<lparr>logger := Some (logType, logLevel, LogFile (options p))\<rparr>))"

definition greeting :: string where
  "greeting = ''Starting Zabbix Agent [(hostname placeholder)]. (version placeholder)''"

text \<open>
  The greeting (lines 132-142): it is logged, then written to the standard
  output when the process runs in the foreground and the log does not
  already go to the console, followed by the hint on how to stop; then the
  name of the configuration file is logged.
\<close>

definition log_greeting :: "process \<Rightarrow> process" where
  "log_greeting p = logging (Infof greeting []) p"

definition announce :: "flags \<Rightarrow> process \<Rightarrow> process" where
  "announce fl p =
     (if foregroundFlag fl then
        Println ''Press Ctrl+C to exit.''
          (if LogType (options p) \<noteq> ''console'' then Println greeting p else p)
      else p)"

definition log_configuration :: "flags \<Rightarrow> process \<Rightarrow> process" where
  "log_configuration fl p =
     logging (Infof ''using configuration file: %s'' [StrArg (confFlag fl)]) p"

definition greet :: "flags \<Rightarrow> process \<Rightarrow> process" where
  "greet fl p = log_configuration fl (announce fl (log_greeting p))"

definition read_active_checks :: "env \<Rightarrow> process \<Rightarrow> (exit + bytes) \<times> process" where
  "read_active_checks e p =
     (case read_file e (ActiveChecksFile (options p)) of
        Inl err \<Rightarrow>
          (Inl Returned, logging (Critf ''Cannot read active checks file: %s\<newline>'' [ErrArg err]) p)
      | Inr activeChecks \<Rightarrow> (Inr activeChecks, p))"

definition listen_address :: "MockServerOptions \<Rightarrow> string" where
  "listen_address opts = '':'' @ Itoa (Port opts)"

definition start_listening :: "env \<Rightarrow> process \<Rightarrow> exit option \<times> process" where
  "start_listening e p =
     (case listen_reply e (listen_address (options p)) of
        Some err \<Rightarrow> (Some Returned, logging (Critf ''Listen failed: %s\<newline>'' [ErrArg err]) p)
      | None \<Rightarrow> (None, p\<lparr>listening := Some (listen_address (options p))\<rparr>))"

text \<open>
  The accept loop over the outcomes of the successive \<^verbatim>\<open>Accept\<close> calls: a
  failure is logged and ends the loop, a connection starts a goroutine with
  the canned response and the configured timeout (the \<^verbatim>\<open>go\<close> statement of
  line 168, whose operands are evaluated when it is executed).
\<close>

definition go_handleConnection :: "ZbxConnection \<Rightarrow> bytes \<Rightarrow> process \<Rightarrow> process" where
  "go_handleConnection c activeChecks p =
     p\<lparr>spawned := spawned p @ [(c, activeChecks, Timeout (options p))]\<rparr>"

fun accept_loop :: "bytes \<Rightarrow> peer result list \<Rightarrow> process \<Rightarrow> exit \<times> process" where
  "accept_loop activeChecks [] p = (Blocked, p)"
| "accept_loop activeChecks (Inl err # rest) p =
     (Returned, logging (Critf ''Accept failed: %s\<newline>'' [ErrArg err]) p)"
| "accept_loop activeChecks (Inr c # rest) p =
     accept_loop activeChecks rest (go_handleConnection (fresh c) activeChecks p)"

text \<open>\<^verbatim>\<open>defer ln.Close()\<close>: runs when \<^verbatim>\<open>main\<close> returns after the listener was bound.\<close>

definition deferred_ln_Close :: "exit \<times> process \<Rightarrow> exit \<times> process" where
  "deferred_ln_Close = (\<lambda>(x, p). (x, if x = Returned then p\<lparr>ln_closed := True\<rparr> else p))"

definition main :: "env \<Rightarrow> flags \<Rightarrow> exit \<times> process" where
  "main e fl =
     (case load_config e fl initial of
        (Some x, p) \<Rightarrow> (x, p)
      | (None, p) \<Rightarrow>
     (case load_config e fl p of
        (Some x, p) \<Rightarrow> (x, p)
      | (None, p) \<Rightarrow>
     (case open_logger e p of
        (Some x, p) \<Rightarrow> (x, p)
      | (None, p) \<Rightarrow>
     (case read_active_checks e (greet fl p) of
        (Inl x, p) \<Rightarrow> (x, p)
      | (Inr activeChecks, p) \<Rightarrow>
     (case start_listening e p of
        (Some x, p) \<Rightarrow> (x, p)
      | (None, p) \<Rightarrow> deferred_ln_Close (accept_loop activeChecks (accepts e) p))))))"

lemmas phase_defs [ms_defs] =
  load_config_def open_logger_def greet_def log_greeting_def announce_def log_configuration_def
  read_active_checks_def start_listening_def go_handleConnection_def
  deferred_ln_Close_def Fprintf_stderr_def Println_def logging_def

declare go_handleConnection_def [simp]

section \<open>What \<^verbatim>\<open>main\<close> promises\<close>

text \<open>
  The connections accepted before the first failure of \<^verbatim>\<open>Accept\<close>, that
  failure, and the goroutines started for a list of connections.
\<close>

fun accepted :: "peer result list \<Rightarrow> peer list" where
  "accepted [] = []"
| "accepted (Inl err # rest) = []"
| "accepted (Inr c # rest) = c # accepted rest"

fun accept_failure :: "peer result list \<Rightarrow> error option" where
  "accept_failure [] = None"
| "accept_failure (Inl err # rest) = Some err"
| "accept_failure (Inr c # rest) = accept_failure rest"

definition goroutines :: "bytes \<Rightarrow> go_int \<Rightarrow> peer list \<Rightarrow> goroutine list" where
  "goroutines activeChecks tFlag cs = map (\<lambda>c. (fresh c, activeChecks, tFlag)) cs"

text \<open>
  The process after the greeting, and the process once the listener is bound
  and the connections \<open>cs\<close> have been accepted.
\<close>

definition logger_args :: "MockServerOptions \<Rightarrow> log_type option \<times> log_level option \<times> string" where
  "logger_args opts = (logType_of (LogType opts), logLevel_of (DebugLevel opts), LogFile opts)"

definition started :: "flags \<Rightarrow> MockServerOptions \<Rightarrow> process" where
  "started fl opts = greet fl (initial\<lparr>options := opts, logger := Some (logger_args opts)\<rparr>)"

definition serving :: "flags \<Rightarrow> MockServerOptions \<Rightarrow> bytes \<Rightarrow> peer list \<Rightarrow> process" where
  "serving fl opts activeChecks cs =
     (started fl opts)\<lparr>listening := Some (listen_address opts),
                        spawned := goroutines activeChecks (Timeout opts) cs\<rparr>"

text \<open>
  The contract of \<^verbatim>\<open>main\<close>, stated without the code: what the collaborators
  answer determines one of six ways the start-up goes, and that determines
  the exit, the error stream and the critical log entries.
\<close>

datatype startup =
    ConfigFailed error
  | LoggerFailed error
  | NoActiveChecks error
  | ListenFailed error
  | AcceptFailed error
  | Serving

definition startup_of :: "env \<Rightarrow> flags \<Rightarrow> startup" where
  "startup_of e fl =
     (case conf_Load (conf_files e) (confFlag fl) zero_options of
        Inl err \<Rightarrow> ConfigFailed err
      | Inr opts \<Rightarrow>
     (case log_open e (logType_of (LogType opts)) (logLevel_of (DebugLevel opts)) (LogFile opts) of
        Some err \<Rightarrow> LoggerFailed err
      | None \<Rightarrow>
     (case read_file e (ActiveChecksFile opts) of
        Inl err \<Rightarrow> NoActiveChecks err
      | Inr activeChecks \<Rightarrow>
     (case listen_reply e (listen_address opts) of
        Some err \<Rightarrow> ListenFailed err
      | None \<Rightarrow>
     (case accept_failure (accepts e) of
        Some err \<Rightarrow> AcceptFailed err
      | None \<Rightarrow> Serving)))))"

fun exit_of :: "startup \<Rightarrow> exit" where
  "exit_of (ConfigFailed err) = Exit 1"
| "exit_of (LoggerFailed err) = Exit 1"
| "exit_of Serving = Blocked"
| "exit_of _ = Returned"

fun stderr_of :: "startup \<Rightarrow> string list" where
  "stderr_of (ConfigFailed err) = [message err @ ''\<newline>'']"
| "stderr_of (LoggerFailed err) = [''Cannot initialize logger: '' @ message err @ ''\<newline>'']"
| "stderr_of _ = []"

fun crit_of :: "startup \<Rightarrow> log" where
  "crit_of (NoActiveChecks err) =
     [LogCall Crit ''Cannot read active checks file: %s\<newline>'' [ErrArg err]]"
| "crit_of (ListenFailed err) = [LogCall Crit ''Listen failed: %s\<newline>'' [ErrArg err]]"
| "crit_of (AcceptFailed err) = [LogCall Crit ''Accept failed: %s\<newline>'' [ErrArg err]]"
| "crit_of _ = []"

fun binds :: "startup \<Rightarrow> bool" where
  "binds (AcceptFailed err) = True"
| "binds Serving = True"
| "binds _ = False"

text \<open>The start-up gets as far as the greeting with the options \<open>opts\<close>.\<close>

definition boots :: "env \<Rightarrow> flags \<Rightarrow> MockServerOptions \<Rightarrow> bool" where
  "boots e fl opts \<longleftrightarrow>
     conf_Load (conf_files e) (confFlag fl) zero_options = Inr opts \<and>
     log_open e (logType_of (LogType opts)) (logLevel_of (DebugLevel opts)) (LogFile opts) = None"

text \<open>
  What holds of the process whenever \<^verbatim>\<open>main\<close> stops or waits: nothing is
  logged before the logger is open, nothing listens before that either, no
  goroutine runs without a listener, the error stream is used only when
  nothing was logged, and every goroutine got a connection nobody touched and
  the configured timeout.
\<close>

definition process_ok :: "process \<Rightarrow> bool" where
  "process_ok p \<longleftrightarrow>
     (log p = [] \<or> logger p \<noteq> None) \<and>
     (listening p = None \<or> logger p \<noteq> None) \<and>
     (spawned p = [] \<or> listening p \<noteq> None) \<and>
     (\<not> ln_closed p \<or> listening p \<noteq> None) \<and>
     (stderr p = [] \<or> (log p = [] \<and> listening p = None)) \<and>
     list_all (\<lambda>(c, ac, t). history c = [] \<and> t = Timeout (options p)) (spawned p)"

text \<open>A world for the examples: the sample configuration, a canned response, two clients.\<close>

definition sample_env :: env where
  "sample_env =
     \<lparr>usage_output = (\<lambda>err. [''Usage of mock_server:\<newline>'']),
      help_status = 0,
      conf_files = [''mock_server.conf'' \<mapsto> sample_conf],
      read_file = (\<lambda>path. if path = ''checks.json'' then Inr ''AC1''
                           else Inl (Error ''no such file or directory'')),
      log_open = (\<lambda>logType logLevel path. None),
      listen_reply = (\<lambda>address. None),
      accepts = [Inr (client (Inr ''{\"request\":\"active checks\"}'') None),
                 Inr (client (Inr ''{\"request\":\"ping\"}'') None)]\<rparr>"

section \<open>Frame facts of the process operations\<close>

lemma logging_simps [simp]:
  "log (logging f p) = f (log p)" "options (logging f p) = options p"
  "stderr (logging f p) = stderr p" "stdout (logging f p) = stdout p"
  "logger (logging f p) = logger p" "listening (logging f p) = listening p"
  "ln_closed (logging f p) = ln_closed p" "spawned (logging f p) = spawned p"
  by (simp_all add: logging_def)

lemma Println_simps [simp]:
  "stdout (Println s p) = stdout p @ [s @ ''\<newline>'']" "options (Println s p) = options p"
  "stderr (Println s p) = stderr p" "log (Println s p) = log p"
  "logger (Println s p) = logger p" "listening (Println s p) = listening p"
  "ln_closed (Println s p) = ln_closed p" "spawned (Println s p) = spawned p"
  by (simp_all add: Println_def)

lemma Fprintf_stderr_simps [simp]:
  "stderr (Fprintf_stderr s p) = stderr p @ [s]" "options (Fprintf_stderr s p) = options p"
  "stdout (Fprintf_stderr s p) = stdout p" "log (Fprintf_stderr s p) = log p"
  "logger (Fprintf_stderr s p) = logger p" "listening (Fprintf_stderr s p) = listening p"
  "ln_closed (Fprintf_stderr s p) = ln_closed p" "spawned (Fprintf_stderr s p) = spawned p"
  by (simp_all add: Fprintf_stderr_def)

lemma initial_simps [simp]:
  "options initial = zero_options" "stderr initial = []" "stdout initial = []"
  "logger initial = None" "log initial = []" "listening initial = None"
  "\<not> ln_closed initial" "spawned initial = []"
  by (simp_all add: initial_def)

lemma greet_simps [simp]:
  "options (greet fl p) = options p" "stderr (greet fl p) = stderr p"
  "logger (greet fl p) = logger p" "listening (greet fl p) = listening p"
  "ln_closed (greet fl p) = ln_closed p" "spawned (greet fl p) = spawned p"
  "log (greet fl p) =
     log p @ [LogCall Info greeting [],
              LogCall Info ''using configuration file: %s'' [StrArg (confFlag fl)]]"
  "stdout (greet fl p) =
     stdout p @
     (if foregroundFlag fl then
        (if LogType (options p) \<noteq> ''console'' then [greeting @ ''\<newline>''] else []) @
        [''Press Ctrl+C to exit.\<newline>'']
      else [])"
  by (simp_all add: greet_def log_greeting_def announce_def log_configuration_def log_defs)

lemma started_simps [simp]:
  "options (started fl opts) = opts"
  "logger (started fl opts) = Some (logger_args opts)"
  "stderr (started fl opts) = []"
  "listening (started fl opts) = None"
  "ln_closed (started fl opts) = False"
  "spawned (started fl opts) = []"
  "log (started fl opts) =
     [LogCall Info greeting [],
      LogCall Info ''using configuration file: %s'' [StrArg (confFlag fl)]]"
  "stdout (started fl opts) =
     (if foregroundFlag fl then
        (if LogType opts \<noteq> ''console'' then [greeting @ ''\<newline>''] else []) @
        [''Press Ctrl+C to exit.\<newline>'']
      else [])"
  by (simp_all add: started_def)

lemma serving_simps [simp]:
  "options (serving fl opts ac cs) = opts"
  "logger (serving fl opts ac cs) = Some (logger_args opts)"
  "stderr (serving fl opts ac cs) = []"
  "listening (serving fl opts ac cs) = Some (listen_address opts)"
  "ln_closed (serving fl opts ac cs) = False"
  "spawned (serving fl opts ac cs) = goroutines ac (Timeout opts) cs"
  "log (serving fl opts ac cs) = log (started fl opts)"
  "stdout (serving fl opts ac cs) = stdout (started fl opts)"
  by (simp_all add: serving_def)

lemma goroutines_simps [simp]:
  "goroutines ac t [] = []"
  "goroutines ac t (c # cs) = (fresh c, ac, t) # goroutines ac t cs"
  "length (goroutines ac t cs) = length cs"
  by (simp_all add: goroutines_def)

section \<open>The phases in closed form\<close>

lemma accept_loop_eq:
  "accept_loop ac outs p =
     (let p' = p\<lparr>spawned := spawned p @ goroutines ac (Timeout (options p)) (accepted outs)\<rparr>
      in case accept_failure outs of
           None \<Rightarrow> (Blocked, p')
         | Some err \<Rightarrow> (Returned, logging (Critf ''Accept failed: %s\<newline>'' [ErrArg err]) p'))"
proof (induction outs arbitrary: p)
  case Nil
  show ?case by simp
next
  case (Cons r outs)
  show ?case
  proof (cases r)
    case (Inl err)
    then show ?thesis by simp
  next
    case (Inr c)
    then show ?thesis by (simp add: Cons.IH Let_def)
  qed
qed

lemma open_logger_loaded:
  "open_logger e (initial\<lparr>options := opts\<rparr>) =
     (case log_open e (logType_of (LogType opts)) (logLevel_of (DebugLevel opts)) (LogFile opts) of
        Some err \<Rightarrow>
          (Some (Exit 1),
           Fprintf_stderr (''Cannot initialize logger: '' @ message err @ ''\<newline>'')
             (initial\<lparr>options := opts\<rparr>))
      | None \<Rightarrow> (None, initial\<lparr>options := opts, logger := Some (logger_args opts)\<rparr>))"
  by (simp add: open_logger_def logger_args_def Let_def split: option.splits)

lemma read_active_checks_started:
  "read_active_checks e (started fl opts) =
     (case read_file e (ActiveChecksFile opts) of
        Inl err \<Rightarrow>
          (Inl Returned,
           logging (Critf ''Cannot read active checks file: %s\<newline>'' [ErrArg err])
             (started fl opts))
      | Inr activeChecks \<Rightarrow> (Inr activeChecks, started fl opts))"
  by (simp add: read_active_checks_def split: sum.splits)

lemma start_listening_started:
  "start_listening e (started fl opts) =
     (case listen_reply e (listen_address opts) of
        Some err \<Rightarrow>
          (Some Returned, logging (Critf ''Listen failed: %s\<newline>'' [ErrArg err]) (started fl opts))
      | None \<Rightarrow> (None, (started fl opts)\<lparr>listening := Some (listen_address opts)\<rparr>))"
  by (simp add: start_listening_def split: option.splits)

lemma accept_phase:
  "deferred_ln_Close
     (accept_loop ac outs ((started fl opts)\<lparr>listening := Some (listen_address opts)\<rparr>)) =
     (case accept_failure outs of
        None \<Rightarrow> (Blocked, serving fl opts ac (accepted outs))
      | Some err \<Rightarrow>
          (Returned,
           (logging (Critf ''Accept failed: %s\<newline>'' [ErrArg err])
              (serving fl opts ac (accepted outs)))\<lparr>ln_closed := True\<rparr>))"
  by (simp add: accept_loop_eq serving_def deferred_ln_Close_def logging_def Let_def
      split: option.splits)

lemmas main_phases =
  open_logger_loaded read_active_checks_started start_listening_started accept_phase

text \<open>
  \<^verbatim>\<open>main\<close> as one case analysis on what the collaborators answer. The second
  load of the configuration disappears: it cannot fail after the first
  succeeded and it yields the same options.
\<close>

lemma main_eq:
  "main e fl =
     (case conf_Load (conf_files e) (confFlag fl) zero_options of
        Inl err \<Rightarrow> (Exit 1, Fprintf_stderr (message err @ ''\<newline>'') initial)
      | Inr opts \<Rightarrow>
     (case log_open e (logType_of (LogType opts)) (logLevel_of (DebugLevel opts)) (LogFile opts) of
        Some err \<Rightarrow>
          (Exit 1,
           Fprintf_stderr (''Cannot initialize logger: '' @ message err @ ''\<newline>'')
             (initial\<lparr>options := opts\<rparr>))
      | None \<Rightarrow>
     (case read_file e (ActiveChecksFile opts) of
        Inl err \<Rightarrow>
          (Returned,
           logging (Critf ''Cannot read active checks file: %s\<newline>'' [ErrArg err])
             (started fl opts))
      | Inr activeChecks \<Rightarrow>
     (case listen_reply e (listen_address opts) of
        Some err \<Rightarrow>
          (Returned, logging (Critf ''Listen failed: %s\<newline>'' [ErrArg err]) (started fl opts))
      | None \<Rightarrow>
     (case accept_failure (accepts e) of
        None \<Rightarrow> (Blocked, serving fl opts activeChecks (accepted (accepts e)))
      | Some err \<Rightarrow>
          (Returned,
           (logging (Critf ''Accept failed: %s\<newline>'' [ErrArg err])
              (serving fl opts activeChecks (accepted (accepts e))))\<lparr>ln_closed := True\<rparr>))))))"
proof (cases "conf_Load (conf_files e) (confFlag fl) zero_options")
  case (Inl err)
  then show ?thesis by (simp add: main_def load_config_def initial_def)
next
  case (Inr opts)
  then have 1: "load_config e fl initial = (None, initial\<lparr>options := opts\<rparr>)"
    by (simp add: load_config_def initial_def)
  have 2: "load_config e fl (initial\<lparr>options := opts\<rparr>) = (None, initial\<lparr>options := opts\<rparr>)"
    using conf_Load_idem [OF Inr] by (simp add: load_config_def)
  show ?thesis
    by (simp add: main_def 1 2 Inr main_phases started_def [symmetric]
        split: option.splits sum.splits)
qed

lemma main_started:
  assumes "boots e fl opts"
  shows "main e fl =
     (case read_file e (ActiveChecksFile opts) of
        Inl err \<Rightarrow>
          (Returned,
           logging (Critf ''Cannot read active checks file: %s\<newline>'' [ErrArg err])
             (started fl opts))
      | Inr activeChecks \<Rightarrow>
     (case listen_reply e (listen_address opts) of
        Some err \<Rightarrow>
          (Returned, logging (Critf ''Listen failed: %s\<newline>'' [ErrArg err]) (started fl opts))
      | None \<Rightarrow>
     (case accept_failure (accepts e) of
        None \<Rightarrow> (Blocked, serving fl opts activeChecks (accepted (accepts e)))
      | Some err \<Rightarrow>
          (Returned,
           (logging (Critf ''Accept failed: %s\<newline>'' [ErrArg err])
              (serving fl opts activeChecks (accepted (accepts e))))\<lparr>ln_closed := True\<rparr>))))"
  using assms by (simp add: main_eq boots_def)

lemma main_spawned:
  "spawned (snd (main e fl)) = [] \<or>
   (\<exists>opts activeChecks.
      conf_Load (conf_files e) (confFlag fl) zero_options = Inr opts \<and>
      read_file e (ActiveChecksFile opts) = Inr activeChecks \<and>
      spawned (snd (main e fl)) = goroutines activeChecks (Timeout opts) (accepted (accepts e)))"
  by (simp add: main_eq split: sum.splits option.splits)

lemma go_int_small:
  assumes "int_between 0 5 d"
  shows "d \<in> {0, 1, 2, 3, 4, 5}"
proof -
  from assms have "sint d \<in> {0, 1, 2, 3, 4, 5}"
    by (auto simp: int_between_def)
  then show ?thesis
    by (auto simp: go_int_eq_iff [of d])
qed

lemma logLevel_of_None: "logLevel_of d = None \<longleftrightarrow> \<not> int_between 0 5 d"
  using go_int_small [of d]
  by (auto simp: logLevel_of_def int_between_def)

lemma sample_env_simps [simp]:
  "conf_Load (conf_files sample_env) (confFlag default_flags) zero_options = Inr sample_options"
  "read_file sample_env ''checks.json'' = Inr ''AC1''"
  "log_open sample_env lt ll path = None"
  "listen_reply sample_env address = None"
  "accepts sample_env = [Inr (client (Inr ''{\"request\":\"active checks\"}'') None),
                         Inr (client (Inr ''{\"request\":\"ping\"}'') None)]"
  by (simp_all add: sample_env_def default_flags_def confDefault_def conf_Load_def Unmarshal_sample)

lemma boots_sample [simp]: "boots sample_env default_flags sample_options"
  by (simp add: boots_def)

section \<open>Properties of the start-up\<close>

text \<open>
  Claim C6. \<^verbatim>\<open>main\<close> implements its contract: the exit is status 1 exactly
  for a configuration or logger failure, a plain return for an unreadable
  response file, a failed listen or a failed accept, and no exit otherwise;
  the error stream holds the one message of a status-1 failure and nothing
  else; the critical log entries are the one entry of a failure after the
  logger was opened; the listener is bound only when the response file was
  read, and is closed again exactly when an accept failed.
\<close>

theorem main_contract:
  "fst (main e fl) = exit_of (startup_of e fl) \<and>
   stderr (snd (main e fl)) = stderr_of (startup_of e fl) \<and>
   at_level Crit (log (snd (main e fl))) = crit_of (startup_of e fl) \<and>
   (listening (snd (main e fl)) \<noteq> None) = binds (startup_of e fl) \<and>
   ln_closed (snd (main e fl)) = (\<exists>err. startup_of e fl = AcceptFailed err)"
  by (simp add: main_eq startup_of_def split: sum.splits option.splits)

text \<open>
  Claim C8. When the file of the canned response cannot be read, \<^verbatim>\<open>main\<close>
  logs a critical entry with the error and returns: it never binds the
  listener and starts no goroutine.
\<close>

theorem no_active_checks_no_listener:
  assumes "boots e fl opts" and "read_file e (ActiveChecksFile opts) = Inl err"
  shows "fst (main e fl) = Returned \<and> listening (snd (main e fl)) = None \<and>
         spawned (snd (main e fl)) = [] \<and>
         last (log (snd (main e fl))) =
           LogCall Crit ''Cannot read active checks file: %s\<newline>'' [ErrArg err]"
  using assms by (simp add: main_started log_defs)

theorem no_active_checks_no_listener_witness:
  "boots (sample_env\<lparr>read_file := \<lambda>path. Inl (Error ''no such file or directory'')\<rparr>)
     default_flags sample_options \<and>
   fst (main (sample_env\<lparr>read_file := \<lambda>path. Inl (Error ''no such file or directory'')\<rparr>)
     default_flags) = Returned \<and>
   listening (snd (main (sample_env\<lparr>read_file := \<lambda>path. Inl (Error ''no such file or directory'')\<rparr>)
     default_flags)) = None"
  using no_active_checks_no_listener
    [of "sample_env\<lparr>read_file := \<lambda>path. Inl (Error ''no such file or directory'')\<rparr>"
      default_flags sample_options "Error ''no such file or directory''"]
  by (simp add: boots_def sample_env_def default_flags_def confDefault_def conf_Load_def
      Unmarshal_sample)

text \<open>
  Claim C7. Once the listener is bound, \<^verbatim>\<open>main\<close> starts one goroutine per
  accepted connection, in the order of acceptance, each with a fresh
  connection, the canned response and the configured timeout, for as many
  connections as arrive before an accept fails; it never returns unless an
  accept fails.
\<close>

theorem main_serves:
  assumes "boots e fl opts" and "read_file e (ActiveChecksFile opts) = Inr activeChecks"
    and "listen_reply e (listen_address opts) = None"
  shows "spawned (snd (main e fl)) = goroutines activeChecks (Timeout opts) (accepted (accepts e)) \<and>
         listening (snd (main e fl)) = Some (listen_address opts) \<and>
         (fst (main e fl) = Blocked) = (accept_failure (accepts e) = None)"
  using assms by (simp add: main_started split: option.splits)

theorem main_serves_witness:
  "spawned (snd (main sample_env default_flags)) =
     [(fresh (client (Inr ''{\"request\":\"active checks\"}'') None), ''AC1'', 30),
      (fresh (client (Inr ''{\"request\":\"ping\"}'') None), ''AC1'', 30)] \<and>
   fst (main sample_env default_flags) = Blocked"
  using main_serves [of sample_env default_flags sample_options "''AC1''"]
  by simp

text \<open>
  A failure of \<^verbatim>\<open>Accept\<close> ends the loop at once: the goroutines of
  the connections accepted so far have been started, the failure is logged as
  critical, and whatever would have arrived later is never accepted.
\<close>

lemma accept_failure_fatal:
  "accept_loop activeChecks (map Inr cs @ Inl err # rest) p =
     (Returned,
      logging (Critf ''Accept failed: %s\<newline>'' [ErrArg err])
        (p\<lparr>spawned := spawned p @ goroutines activeChecks (Timeout (options p)) cs\<rparr>))"
  by (induction cs arbitrary: p) (simp_all add: logging_def)

text \<open>
  The loop imposes no bound on the number of connections: for a
  list of any length of successful accepts it starts a goroutine for each and
  is still waiting in \<^verbatim>\<open>Accept\<close> afterwards.
\<close>

lemma accept_loop_unbounded:
  "accept_loop activeChecks (map Inr cs) p =
     (Blocked, p\<lparr>spawned := spawned p @ goroutines activeChecks (Timeout (options p)) cs\<rparr>)"
  by (induction cs arbitrary: p) simp_all

text \<open>
  Claim C38. The second \<^verbatim>\<open>conf.Load\<close> is redundant: whenever a load succeeds,
  loading again succeeds and leaves the process as it is.
\<close>

theorem load_config_twice:
  assumes "load_config e fl p = (None, p1)"
  shows "load_config e fl p1 = (None, p1)"
proof -
  from assms obtain opts where
    opts: "conf_Load (conf_files e) (confFlag fl) (options p) = Inr opts" "p1 = p\<lparr>options := opts\<rparr>"
    by (auto simp: load_config_def split: sum.splits)
  from conf_Load_idem [OF opts(1)] opts(2) show ?thesis
    by (simp add: load_config_def)
qed

theorem load_config_twice_witness:
  "load_config sample_env default_flags initial = (None, initial\<lparr>options := sample_options\<rparr>) \<and>
   load_config sample_env default_flags (initial\<lparr>options := sample_options\<rparr>) =
     (None, initial\<lparr>options := sample_options\<rparr>)"
  using load_config_twice [of sample_env default_flags initial "initial\<lparr>options := sample_options\<rparr>"]
  by (simp add: load_config_def)

text \<open>
  The foreground flag only routes the greeting: in the foreground
  the standard output gets the greeting (unless the log already goes to the
  console) and the hint about Ctrl+C; in the background it gets nothing.
\<close>

lemma main_stdout:
  assumes "boots e fl opts"
  shows "stdout (snd (main e fl)) =
     (if foregroundFlag fl then
        (if LogType opts \<noteq> ''console'' then [greeting @ ''\<newline>''] else []) @
        [''Press Ctrl+C to exit.\<newline>'']
      else [])"
  using assms by (simp add: main_started split: sum.splits option.splits)

lemma main_stdout_example:
  "stdout (snd (main sample_env default_flags)) =
     [greeting @ ''\<newline>'', ''Press Ctrl+C to exit.\<newline>'']"
  using main_stdout [OF boots_sample]
  by (simp add: default_flags_def foregroundDefault_def)

text \<open>
  For every debug level the configuration admits, the switch
  chooses the verbosity of the documented table: 0 Info, 1 Crit, 2 Err,
  3 Warning, 4 Debug, 5 Trace.
\<close>

lemma logLevel_of_valid:
  assumes "int_between 0 5 d"
  shows "logLevel_of d = Some ([Info, Crit, Err, Warning, Debug, Trace] ! nat (sint d))"
  using go_int_small [OF assms] by (auto simp: logLevel_of_def)

lemma logLevel_of_valid_example:
  "int_between 0 5 (DebugLevel sample_options) \<and>
   logLevel_of (DebugLevel sample_options) = Some Warning"
  using logLevel_of_valid [of "DebugLevel sample_options"]
  by (simp add: int_between_def)

text \<open>
  Claim C39. However \<^verbatim>\<open>main\<close> stops, the process is well formed: the logger
  was opened before anything was logged or bound, goroutines exist only
  behind a bound listener, and each was given an untouched connection and
  the configured timeout.
\<close>

theorem main_process_ok: "process_ok (snd (main e fl))"
  by (auto simp: main_eq process_ok_def goroutines_def list_all_iff log_defs logger_args_def
      split: sum.splits option.splits)

theorem main_process_ok_witness:
  "spawned (snd (main sample_env default_flags)) \<noteq> [] \<and>
   listening (snd (main sample_env default_flags)) = Some '':10052'' \<and>
   logger (snd (main sample_env default_flags)) = Some (None, Some Warning, [])"
  using main_process_ok [of sample_env default_flags]
  by (simp add: main_started [OF boots_sample] listen_address_def Itoa_def digits.simps
      logger_args_def logType_of_def logLevel_of_def)

text \<open>
  The address \<^verbatim>\<open>main\<close> listens on names the configured port and
  nothing else: it is a colon followed by decimal digits that read back as
  the port, so two configurations listen on the same address exactly when
  their ports agree.
\<close>

lemma listen_address_port:
  "hd (listen_address opts) = CHR '':'' \<and> Atoi (tl (listen_address opts)) = Inr (Port opts) \<and>
   (listen_address opts = listen_address opts' \<longleftrightarrow> Port opts = Port opts')"
  by (auto simp: listen_address_def dest: Itoa_inj)

end
