(* ===== verification/Flag_Usage.thy ===== *)
theory Flag_Usage
  imports Flag Keyed_Sort
begin

text \<open>
  What the package \<^verbatim>\<open>flag\<close> writes when \<^verbatim>\<open>Parse\<close> fails: the message of the
  error on a line of its own, then the usage, which for the command line of a
  program is the line \<^verbatim>\<open>Usage of\<close> with the name of the program and the
  defaults of the flags as \<^verbatim>\<open>PrintDefaults\<close> prints them, one write for each
  flag in the order of the names. For a request for help the usage is
  written without a message. The definitions follow the documented layout of
  \<^verbatim>\<open>PrintDefaults\<close>. The text an invalid boolean is reported with has changed
  between versions of the library and is a parameter (\<open>why\<close>); a default
  value or an argument with a byte outside ASCII is not quoted by the model
  (theory \<open>Strconv\<close>), and then nothing is said about the output.
\<close>

section \<open>The defaults of a flag\<close>

abbreviation tab :: char where
  "tab \<equiv> CHR 0x09"

abbreviation back_quote :: char where
  "back_quote \<equiv> CHR 0x60"

text \<open>
  \<^verbatim>\<open>UnquoteUsage\<close>: the name of the value and the usage to print. A name between
  back quotes in the usage is taken out of them; without one the name is that
  of the flag's type, which is empty for a boolean flag.
\<close>

definition type_name :: "'v Flag \<Rightarrow> string" where
  "type_name f = (if IsBoolFlag f then [] else ''string'')"

definition UnquoteUsage :: "'v Flag \<Rightarrow> string \<times> string" where
  "UnquoteUsage f =
     (let before = takeWhile (\<lambda>c. c \<noteq> back_quote) (Usage f);
          after = drop (Suc (length before)) (Usage f);
          name = takeWhile (\<lambda>c. c \<noteq> back_quote) after
      in if back_quote \<in> set after
         then (name, before @ name @ drop (Suc (length name)) after)
         else (type_name f, Usage f))"

text \<open>\<^verbatim>\<open>isZeroValue\<close>: whether the default is the zero value of the flag's type.\<close>

definition isZeroValue :: "'v Flag \<Rightarrow> bool" where
  "isZeroValue f \<longleftrightarrow> DefValue f = (if IsBoolFlag f then ''false'' else [])"

text \<open>A usage of several lines is indented after each line feed.\<close>

definition indented :: "string \<Rightarrow> string" where
  "indented usage =
     concat (map (\<lambda>c. if c = CHR 0x0A then ''\<newline>    '' @ [tab] else [c]) usage)"

text \<open>The default in brackets, quoted when the flag is a string; nothing for a zero value.\<close>

definition default_note :: "'v Flag \<Rightarrow> string option" where
  "default_note f =
     (if isZeroValue f then Some []
      else if IsBoolFlag f then Some ('' (default '' @ DefValue f @ '')'')
      else map_option (\<lambda>q. '' (default '' @ q @ '')'') (Quote (DefValue f)))"

text \<open>
  What \<^verbatim>\<open>PrintDefaults\<close> writes for one flag: two spaces, the name after a minus
  sign, the name of the value, the usage on the same line after a tab when
  there are no more than four characters so far and on the next line
  otherwise, and the default.
\<close>

definition flag_line :: "'v Flag \<Rightarrow> string option" where
  "flag_line f =
     (let name = fst (UnquoteUsage f);
          s = ''  -'' @ Name f @ (if name = [] then [] else '' '' @ name)
      in map_option
           (\<lambda>note. s @ (if length s \<le> 4 then [tab] else ''\<newline>    '' @ [tab]) @
              indented (snd (UnquoteUsage f)) @ note @ ''\<newline>'')
           (default_note f))"

definition PrintDefaults :: "'v Flag list \<Rightarrow> string list option" where
  "PrintDefaults formal = those (map flag_line (sort_key Name formal))"

text \<open>The usage of the command line of the program \<open>prog\<close>.\<close>

definition commandLineUsage :: "string \<Rightarrow> 'v Flag list \<Rightarrow> string list option" where
  "commandLineUsage prog formal =
     map_option ((#) (''Usage of '' @ prog @ '':\<newline>'')) (PrintDefaults formal)"

section \<open>The output of a failed Parse\<close>

text \<open>
  The text of an error. The flags of the model are strings and booleans, and
  a string takes every value, so the value at fault is that of a boolean.
\<close>

definition error_text :: "(string \<Rightarrow> string) \<Rightarrow> flag_error \<Rightarrow> string option" where
  "error_text why err =
     (case err of
        ErrHelp \<Rightarrow> Some ''flag: help requested''
      | BadSyntax s \<Rightarrow> Some (''bad flag syntax: '' @ s)
      | NotDefined name \<Rightarrow> Some (''flag provided but not defined: -'' @ name)
      | NeedsArgument name \<Rightarrow> Some (''flag needs an argument: -'' @ name)
      | InvalidValue v name \<Rightarrow>
          map_option (\<lambda>q. ''invalid boolean value '' @ q @ '' for -'' @ name @ '': '' @ why v)
            (Quote v))"

definition failure_output ::
  "string \<Rightarrow> (string \<Rightarrow> string) \<Rightarrow> 'v Flag list \<Rightarrow> flag_error \<Rightarrow> string list option" where
  "failure_output prog why formal err =
     (if err = ErrHelp then commandLineUsage prog formal
      else case error_text why err of
             None \<Rightarrow> None
           | Some text \<Rightarrow> map_option ((#) (text @ ''\<newline>'')) (commandLineUsage prog formal))"

section \<open>The lines of the flags\<close>

lemma UnquoteUsage_plain [simp]:
  "back_quote \<notin> set (Usage f) \<Longrightarrow> UnquoteUsage f = (type_name f, Usage f)"
  by (auto simp: UnquoteUsage_def Let_def dest: in_set_dropD)

lemma UnquoteUsage_named:
  assumes "back_quote \<notin> set before" and "back_quote \<notin> set name"
    and "Usage f = before @ [back_quote] @ name @ [back_quote] @ rest"
  shows "UnquoteUsage f = (name, before @ name @ rest)"
proof -
  from assms(1) have before: "takeWhile (\<lambda>c. c \<noteq> back_quote) (Usage f) = before"
    by (simp add: assms(3) takeWhile_until)
  from assms(2) have "takeWhile (\<lambda>c. c \<noteq> back_quote) (name @ [back_quote] @ rest) = name"
    by (simp add: takeWhile_until)
  with before show ?thesis
    by (simp add: UnquoteUsage_def assms(3))
qed

lemma indented_plain [simp]: "CHR 0x0A \<notin> set usage \<Longrightarrow> indented usage = usage"
  by (induction usage) (auto simp: indented_def)

text \<open>The line of a string flag and of a boolean flag whose usage is one plain line.\<close>

lemma flag_line_StringVar:
  assumes "back_quote \<notin> set usage" and "CHR 0x0A \<notin> set usage" and "plain val" and "val \<noteq> []"
  shows "flag_line (StringVar assign name val usage) =
     Some (''  -'' @ name @ '' string\<newline>    '' @ [tab] @ usage @
           '' (default '' @ [CHR 0x22] @ val @ [CHR 0x22] @ '')\<newline>'')"
  using assms
  by (simp add: flag_line_def StringVar_def type_name_def default_note_def isZeroValue_def
      Quote_plain)

lemma flag_line_BoolVar:
  assumes "back_quote \<notin> set usage" and "CHR 0x0A \<notin> set usage"
  shows "flag_line (BoolVar assign name val usage) =
     Some (''  -'' @ name @ (if length name \<le> 1 then [tab] else ''\<newline>    '' @ [tab]) @ usage @
           (if val then '' (default true)'' else []) @ ''\<newline>'')"
  using assms
  by (auto simp: flag_line_def BoolVar_def type_name_def default_note_def isZeroValue_def
      FormatBool_def)

section \<open>The usage does not depend on the order of the definitions\<close>

lemma PrintDefaults_members:
  "distinct (map Name ps) \<Longrightarrow> mset qs = mset ps \<Longrightarrow> PrintDefaults qs = PrintDefaults ps"
  by (simp add: PrintDefaults_def sort_key_unique [of Name ps qs])

lemma those_length: "those xs = Some ys \<Longrightarrow> length ys = length xs"
  by (induction xs arbitrary: ys) (auto split: option.splits)

lemma PrintDefaults_length: "PrintDefaults formal = Some ls \<Longrightarrow> length ls = length formal"
  by (auto simp: PrintDefaults_def dest: those_length)

text \<open>
  Every failure but the request for help is reported before the usage, and
  the usage is the same after each.
\<close>

lemma failure_output_usage:
  assumes "failure_output prog why formal err = Some ws"
  shows "\<exists>us. commandLineUsage prog formal = Some us \<and> suffix us ws \<and>
     length ws = length us + (if err = ErrHelp then 0 else 1)"
  using assms by (auto simp: failure_output_def suffix_def split: option.splits if_splits)

end
