(* ===== verification/Command_Line.thy ===== *)
theory Command_Line
  imports Bootstrap Flag_Usage
begin

text \<open>
  The command line of the program (lines 78-93): the four flags \<^verbatim>\<open>main\<close>
  registers with the package \<^verbatim>\<open>flag\<close>, \<^verbatim>\<open>flag.Parse\<close> on the arguments of the
  process, and \<^verbatim>\<open>main\<close> from the arguments (\<open>main_args\<close>). Beside the code
  stands what a command line asks for, without the parser: a list of settings
  and the ways to spell each. The theory proves that every spelling of a list
  of settings starts \<^verbatim>\<open>main\<close> with the defaults changed by the settings in
  order, that a flag the program does not define ends the process before
  anything is started, and what the usage of the program reads.
\<close>

section \<open>The flags of \<^verbatim>\<open>main\<close>\<close>

text \<open>
  The four flags \<^verbatim>\<open>main\<close> registers (lines 83-92): each long name has a one
  letter name bound to the same variable; the usage of the short ones is
  spelt as in the source.
\<close>

definition confDescription :: string where
  "confDescription = ''Path to the configuration file''"

definition foregroundDescription :: string where
  "foregroundDescription = ''Run Zabbix agent in foreground''"

definition flag_config :: "flags Flag" where
  "flag_config = StringVar (\<lambda>s fl. fl\<lparr>confFlag := s\<rparr>) ''config'' confDefault confDescription"

definition flag_c :: "flags Flag" where
  "flag_c =
     StringVar (\<lambda>s fl. fl\<lparr>confFlag := s\<rparr>) ''c'' confDefault (confDescription @ '' (shorhand)'')"

definition flag_foreground :: "flags Flag" where
  "flag_foreground =
     BoolVar (\<lambda>b fl. fl\<lparr>foregroundFlag := b\<rparr>) ''foreground'' foregroundDefault
       foregroundDescription"

definition flag_f :: "flags Flag" where
  "flag_f =
     BoolVar (\<lambda>b fl. fl\<lparr>foregroundFlag := b\<rparr>) ''f'' foregroundDefault
       (foregroundDescription @ '' (shorhand)'')"

text \<open>The flag set at the call of \<^verbatim>\<open>flag.Parse\<close>, in the order of the definitions.\<close>

definition formal :: "flags Flag list" where
  "formal = [flag_config, flag_c, flag_foreground, flag_f]"

lemmas flag_defs = flag_config_def flag_c_def flag_foreground_def flag_f_def

section \<open>Reading the command line\<close>

text \<open>
  \<^verbatim>\<open>main\<close> from the arguments of the command line. \<^verbatim>\<open>flag.Parse\<close> ends the
  process when the arguments are in error, with status 2 after writing its
  message and the usage to the error stream; for \<^verbatim>\<open>-h\<close> the status is the one
  the toolchain chooses. The arguments left after the flags are not looked at.
\<close>

definition parse_flags :: "env \<Rightarrow> string list \<Rightarrow> process \<Rightarrow> (exit + flags) \<times> process" where
  "parse_flags e argv p =
     (case Parse formal default_flags argv of
        Inl err \<Rightarrow>
          (Inl (Exit (if err = ErrHelp then help_status e else 2)),
           p\<lparr>stderr := stderr p @ usage_output e err\<rparr>)
      | Inr (fl, rest) \<Rightarrow> (Inr fl, p))"

definition main_args :: "env \<Rightarrow> string list \<Rightarrow> exit \<times> process" where
  "main_args e argv =
     (case parse_flags e argv initial of (Inl x, p) \<Rightarrow> (x, p) | (Inr fl, p) \<Rightarrow> main e fl)"

section \<open>What a command line asks for\<close>

text \<open>
  What a command line asks for, as a list of settings applied from left to
  right, and the ways to write each: the long or the short name after one or
  two minus signs, the value of the configuration path as the next argument
  or after an equals sign, the value of the boolean after an equals sign only
  (alone the flag means true).
\<close>

datatype setting = SetConf string | SetForeground bool

fun apply_setting :: "flags \<Rightarrow> setting \<Rightarrow> flags" where
  "apply_setting fl (SetConf path) = fl\<lparr>confFlag := path\<rparr>"
| "apply_setting fl (SetForeground b) = fl\<lparr>foregroundFlag := b\<rparr>"

definition dashed :: "string list \<Rightarrow> string list" where
  "dashed names = concat (map (\<lambda>n. [''-'' @ n, ''--'' @ n]) names)"

definition bool_words :: "bool \<Rightarrow> string list" where
  "bool_words b =
     (if b then [''1'', ''t'', ''T'', ''true'', ''TRUE'', ''True'']
      else [''0'', ''f'', ''F'', ''false'', ''FALSE'', ''False''])"

fun spellings :: "setting \<Rightarrow> string list list" where
  "spellings (SetConf path) =
     concat (map (\<lambda>w. [[w, path], [w @ ''='' @ path]]) (dashed [''config'', ''c'']))"
| "spellings (SetForeground b) =
     concat (map (\<lambda>w. (if b then [[w]] else []) @ map (\<lambda>v. [w @ ''='' @ v]) (bool_words b))
       (dashed [''foreground'', ''f'']))"

abbreviation spelt :: "setting list \<Rightarrow> string list list \<Rightarrow> bool" where
  "spelt \<equiv> list_all2 (\<lambda>s chunk. chunk \<in> set (spellings s))"

text \<open>The arguments at which \<^verbatim>\<open>flag.Parse\<close> stops: none, a word that is no flag, or \<^verbatim>\<open>--\<close>.\<close>

definition operands :: "string list \<Rightarrow> bool" where
  "operands rest \<longleftrightarrow>
     (case rest of [] \<Rightarrow> True | w # _ \<Rightarrow> length w < 2 \<or> hd w \<noteq> CHR ''-'' \<or> w = ''--'')"

section \<open>Every spelling is read\<close>

lemma lookup_formal [simp]:
  "lookup formal ''config'' =
     Some (StringVar (\<lambda>s fl. fl\<lparr>confFlag := s\<rparr>) ''config'' confDefault confDescription)"
  "lookup formal ''c'' =
     Some (StringVar (\<lambda>s fl. fl\<lparr>confFlag := s\<rparr>) ''c'' confDefault
       (confDescription @ '' (shorhand)''))"
  "lookup formal ''foreground'' =
     Some (BoolVar (\<lambda>b fl. fl\<lparr>foregroundFlag := b\<rparr>) ''foreground'' foregroundDefault
       foregroundDescription)"
  "lookup formal ''f'' =
     Some (BoolVar (\<lambda>b fl. fl\<lparr>foregroundFlag := b\<rparr>) ''f'' foregroundDefault
       (foregroundDescription @ '' (shorhand)''))"
  by (simp_all add: lookup_def formal_def flag_defs StringVar_def BoolVar_def)

lemma lookup_formal_None:
  "name \<notin> {''config'', ''c'', ''foreground'', ''f''} \<Longrightarrow> lookup formal name = None"
  by (auto simp: lookup_def formal_def flag_defs StringVar_def BoolVar_def)

lemma set_flag_simps [simp]:
  "set_flag (StringVar assign name val usage) s v = Inr (assign s v)"
  "set_flag (BoolVar assign' name val' usage) s v =
     (case ParseBool s of None \<Rightarrow> Inl (InvalidValue s name) | Some b \<Rightarrow> Inr (assign' b v))"
  "IsBoolFlag (StringVar assign name val usage) = False"
  "IsBoolFlag (BoolVar assign' name val' usage) = True"
  by (simp_all add: set_flag_def StringVar_def BoolVar_def split: option.split)

lemma dashedE:
  assumes "w \<in> set (dashed names)"
  obtains d n where "w = d @ n" "d = ''-'' \<or> d = ''--''" "n \<in> set names"
  using assms that [of "''-''"] that [of "''--''"] by (auto simp: dashed_def)

lemma ParseBool_words: "v \<in> set (bool_words b) \<Longrightarrow> ParseBool v = Some b"
  by (auto simp: bool_words_def ParseBool_def split: if_splits)

lemma flag_name_formal [simp]:
  "flag_name ''config''" "flag_name ''c''" "flag_name ''foreground''" "flag_name ''f''"
  by (simp_all add: flag_name_def)

lemma conf_flag:
  assumes "n = ''config'' \<or> n = ''c''"
  obtains f where "lookup formal n = Some f" "\<not> IsBoolFlag f" "flag_name n"
    "\<forall>x fl. set_flag f x fl = Inr (fl\<lparr>confFlag := x\<rparr>)"
  using assms by (elim disjE) auto

lemma foreground_flag:
  assumes "n = ''foreground'' \<or> n = ''f''"
  obtains f where "lookup formal n = Some f" "IsBoolFlag f" "flag_name n"
    "\<forall>x fl. set_flag f x fl =
       (case ParseBool x of
          None \<Rightarrow> Inl (InvalidValue x n)
        | Some b \<Rightarrow> Inr (fl\<lparr>foregroundFlag := b\<rparr>))"
  using assms by (elim disjE) auto

lemma Parse_spelling:
  assumes "chunk \<in> set (spellings s)"
  shows "Parse formal fl (chunk @ rest) = Parse formal (apply_setting fl s) rest"
proof (cases s)
  case (SetConf path)
  with assms obtain w where w: "w \<in> set (dashed [''config'', ''c''])"
    and chunk: "chunk = [w, path] \<or> chunk = [w @ CHR ''='' # path]"
    by auto
  from w obtain d n where dn: "w = d @ n" "d = ''-'' \<or> d = ''--''" "n = ''config'' \<or> n = ''c''"
    by (rule dashedE) auto
  from dn(3) obtain f where f: "lookup formal n = Some f" "\<not> IsBoolFlag f" "flag_name n"
    "\<forall>x fl. set_flag f x fl = Inr (fl\<lparr>confFlag := x\<rparr>)"
    by (rule conf_flag) auto
  from chunk show ?thesis
    unfolding dn(1) SetConf
    by (auto simp: Parse_next [OF f(3) dn(2) f(1,2)] Parse_equals [OF f(3) dn(2) f(1)] f(4))
next
  case (SetForeground b)
  with assms obtain w where w: "w \<in> set (dashed [''foreground'', ''f''])"
    and chunk: "b \<and> chunk = [w] \<or> (\<exists>v \<in> set (bool_words b). chunk = [w @ CHR ''='' # v])"
    by (auto split: if_splits)
  from w obtain d n where dn: "w = d @ n" "d = ''-'' \<or> d = ''--''"
    "n = ''foreground'' \<or> n = ''f''"
    by (rule dashedE) auto
  from dn(3) obtain f where f: "lookup formal n = Some f" "IsBoolFlag f" "flag_name n"
    "\<forall>x fl. set_flag f x fl =
       (case ParseBool x of
          None \<Rightarrow> Inl (InvalidValue x n)
        | Some b \<Rightarrow> Inr (fl\<lparr>foregroundFlag := b\<rparr>))"
    by (rule foreground_flag) auto
  have "ParseBool ''true'' = Some True"
    by (simp add: ParseBool_def)
  with chunk show ?thesis
    unfolding dn(1) SetForeground
    by (auto simp: Parse_bool [OF f(3) dn(2) f(1,2)] Parse_equals [OF f(3) dn(2) f(1)] f(4)
        ParseBool_words)
qed

lemma Parse_spelt:
  "spelt ss chunks \<Longrightarrow>
   Parse formal fl (concat chunks @ rest) = Parse formal (foldl apply_setting fl ss) rest"
  by (induction ss chunks arbitrary: fl rule: list_all2_induct) (simp_all add: Parse_spelling)

lemma Parse_operands: "operands rest \<Longrightarrow> \<exists>rest'. Parse formal fl rest = Inr (fl, rest')"
  by (cases rest) (auto simp: operands_def Parse.simps(2))

lemma main_args_Inr: "Parse formal default_flags argv = Inr (fl, rest) \<Longrightarrow> main_args e argv = main e fl"
  by (simp add: main_args_def parse_flags_def)

lemma main_args_Inl:
  "Parse formal default_flags argv = Inl err \<Longrightarrow>
   main_args e argv =
     (Exit (if err = ErrHelp then help_status e else 2), initial\<lparr>stderr := usage_output e err\<rparr>)"
  by (simp add: main_args_def parse_flags_def initial_def)

text \<open>
  Claim C21. The flags are read as the settings they spell: for any sequence of
  settings of the configuration path and of the foreground switch, written in
  any of their spellings and followed by nothing, by a word that is no flag or
  by \<^verbatim>\<open>--\<close>, the program starts with the defaults changed by the settings in
  the order given, so that the last setting of a flag is the one in force, and
  the words after the flags change nothing.
\<close>

theorem main_args_settings:
  assumes "spelt ss chunks" and "operands rest"
  shows "main_args e (concat chunks @ rest) = main e (foldl apply_setting default_flags ss)"
proof -
  from Parse_operands [OF assms(2)] obtain rest'
    where "Parse formal (foldl apply_setting default_flags ss) rest =
      Inr (foldl apply_setting default_flags ss, rest')"
    by blast
  with assms(1) show ?thesis
    by (simp add: main_args_Inr Parse_spelt)
qed

theorem main_args_settings_witness:
  "main_args sample_env [''-c'', ''a.conf'', ''--foreground=false'', ''-config=b.conf'', ''-f'', ''0'', ''-c'', ''c.conf''] =
   main sample_env \<lparr>confFlag = ''b.conf'', foregroundFlag = True\<rparr>"
  using main_args_settings [of "[SetConf ''a.conf'', SetForeground False, SetConf ''b.conf'', SetForeground True]"
    "[[''-c'', ''a.conf''], [''--foreground=false''], [''-config=b.conf''], [''-f'']]"
    "[''0'', ''-c'', ''c.conf'']" sample_env]
  by (simp add: dashed_def bool_words_def operands_def default_flags_def)

text \<open>
  Claim C29. A flag the program does not define ends it before anything is
  started: after any settings, an argument naming another flag makes the
  process exit with status 2, or with the status of a request for help when
  the name is \<^verbatim>\<open>h\<close> or \<^verbatim>\<open>help\<close>; the error stream holds what the flag package
  printed, no configuration was loaded, nothing was logged, no listener bound
  and no handler started.
\<close>

theorem main_args_not_defined:
  assumes "spelt ss chunks" and "flag_name n" and "d = ''-'' \<or> d = ''--''"
    and "n \<notin> {''config'', ''c'', ''foreground'', ''f''}"
  shows "main_args e (concat chunks @ (d @ n) # rest) =
     (if n = ''help'' \<or> n = ''h''
      then (Exit (help_status e), initial\<lparr>stderr := usage_output e ErrHelp\<rparr>)
      else (Exit 2, initial\<lparr>stderr := usage_output e (NotDefined n)\<rparr>))"
proof -
  have "Parse formal default_flags (concat chunks @ (d @ n) # rest) =
      Inl (if n = ''help'' \<or> n = ''h'' then ErrHelp else NotDefined n)"
    using assms by (simp add: Parse_spelt Parse_not_defined lookup_formal_None)
  then show ?thesis
    by (simp add: main_args_Inl)
qed

theorem main_args_not_defined_witness:
  "main_args sample_env [''-f'', ''--verbose'', ''-c'', ''a.conf''] =
     (Exit 2, initial\<lparr>stderr := usage_output sample_env (NotDefined ''verbose'')\<rparr>) \<and>
   main_args sample_env [''-h''] =
     (Exit 0, initial\<lparr>stderr := usage_output sample_env ErrHelp\<rparr>)"
  using main_args_not_defined [of "[SetForeground True]" "[[''-f'']]" "''verbose''" "''--''"
      sample_env "[''-c'', ''a.conf'']"]
    main_args_not_defined [of "[]" "[]" "''h''" "''-''" sample_env "[]"]
  by (simp add: dashed_def flag_name_def sample_env_def)

text \<open>
  The other ways a command line fails or surprises: a value that is no
  boolean, a flag without its value, a malformed flag; and a boolean flag
  followed by its value as a separate word, which leaves the flag true and
  ends the flags, so that what follows is not read.
\<close>

lemma main_args_examples:
  "main_args e [''-f=maybe''] =
     (Exit 2, initial\<lparr>stderr := usage_output e (InvalidValue ''maybe'' ''f'')\<rparr>)"
  "main_args e [''-c''] = (Exit 2, initial\<lparr>stderr := usage_output e (NeedsArgument ''c'')\<rparr>)"
  "main_args e [''---c'', x] = (Exit 2, initial\<lparr>stderr := usage_output e (BadSyntax ''---c'')\<rparr>)"
  "main_args e [''-f'', ''false'', ''-c'', x] = main e default_flags"
  "main_args e [] = main e default_flags"
  by (simp_all add: main_args_def parse_flags_def initial_def Parse.simps(2) name_value_def
      ParseBool_def default_flags_def foregroundDefault_def)

section \<open>What is written for a command line in error\<close>

text \<open>
  The usage of the program as the package \<^verbatim>\<open>flag\<close> prints it, the flags in the
  order of their names: the misspelt \<^verbatim>\<open>shorhand\<close> of lines 84 and 92 is what
  the user reads for \<^verbatim>\<open>-c\<close> and \<^verbatim>\<open>-f\<close>.
\<close>

lemma formal_sorted: "sort_key Name formal = [flag_c, flag_config, flag_f, flag_foreground]"
  by (simp add: formal_def flag_defs StringVar_def BoolVar_def less_eq_char_def less_char_def)

lemma usage_of_program:
  "commandLineUsage prog formal = Some
     [''Usage of '' @ prog @ '':\<newline>'',
      ''  -c string\<newline>    '' @ [tab] @
        ''Path to the configuration file (shorhand) (default \"mock_server.conf\")\<newline>'',
      ''  -config string\<newline>    '' @ [tab] @
        ''Path to the configuration file (default \"mock_server.conf\")\<newline>'',
      ''  -f'' @ [tab] @ ''Run Zabbix agent in foreground (shorhand) (default true)\<newline>'',
      ''  -foreground\<newline>    '' @ [tab] @
        ''Run Zabbix agent in foreground (default true)\<newline>'']"
proof -
  have "plain confDefault" "confDefault \<noteq> []"
    by (simp_all add: confDefault_def plain_char_def)
  then show ?thesis
    by (simp add: commandLineUsage_def PrintDefaults_def formal_sorted flag_defs
        flag_line_StringVar flag_line_BoolVar confDescription_def foregroundDescription_def
        foregroundDefault_def)
       (simp add: confDefault_def)
qed

text \<open>
  In a world whose flag package writes what the library writes, a flag that
  is not defined is answered with its name and the usage, and a request for
  help with the usage alone.
\<close>

lemma failure_output_program:
  "failure_output prog why formal (NotDefined n) =
     map_option ((#) (''flag provided but not defined: -'' @ n @ ''\<newline>''))
       (commandLineUsage prog formal)"
  "failure_output prog why formal ErrHelp = commandLineUsage prog formal"
  "failure_output prog why formal (NeedsArgument n) =
     map_option ((#) (''flag needs an argument: -'' @ n @ ''\<newline>''))
       (commandLineUsage prog formal)"
  "failure_output prog why formal (BadSyntax s) =
     map_option ((#) (''bad flag syntax: '' @ s @ ''\<newline>'')) (commandLineUsage prog formal)"
  by (simp_all add: failure_output_def error_text_def)

lemma main_args_reports:
  assumes "Parse formal default_flags argv = Inl err"
    and "failure_output prog why formal err = Some ws" and "usage_output e err = ws"
  shows "stderr (snd (main_args e argv)) = ws"
    and "\<exists>us. commandLineUsage prog formal = Some us \<and> suffix us ws"
  using assms failure_output_usage [of prog why formal err ws]
  by (auto simp: main_args_Inl)

end
