(* ===== verification/Lifetime.thy ===== *)
theory Lifetime
  imports Server Command_Line
begin

text \<open>
  The life of the serving process. Once the listener is bound, the main
  goroutine sits in the loop of lines 159-169 while the handlers it has
  started run beside it, and the process ends when \<^verbatim>\<open>main\<close> returns: a failed
  \<^verbatim>\<open>Accept\<close> is logged and ends the process with all its handlers, wherever
  they are. The run of the process is a list of events, each the next call of
  \<^verbatim>\<open>Accept\<close> returning or one handler taking a step; the scheduler of the Go
  runtime chooses the list. The theory relates this run to the accept loop
  as \<^verbatim>\<open>main\<close> alone sees it (\<^const>\<open>accept_loop\<close>) and to the handlers as the
  theory \<open>Server\<close> schedules them, and shows what a client can rely on: a
  connection that is closed was served as if alone, every connection is
  served when no \<^verbatim>\<open>Accept\<close> fails, a connection whose handler is scheduled is
  served whatever becomes of the others, and after a failure nothing more
  happens.
\<close>

section \<open>Events\<close>

datatype event = MainAccepts | HandlerSteps nat

text \<open>
  The serving process: the outcomes of the calls of \<^verbatim>\<open>Accept\<close> still to come,
  the handlers with the shared log, and whether the process has ended.
\<close>

record server =
  pending :: "peer result list"
  sys :: system
  exited :: bool

definition listening_server :: "peer result list \<Rightarrow> log \<Rightarrow> server" where
  "listening_server outs lg = \<lparr>pending = outs, sys = ([], lg), exited = False\<rparr>"

text \<open>
  One turn of the loop: \<^verbatim>\<open>Accept\<close> returns a connection, for which a handler is
  started, or an error, which is logged before \<^verbatim>\<open>main\<close> returns. With no
  outcome left the main goroutine stays blocked in \<^verbatim>\<open>Accept\<close>.
\<close>

definition accept_event :: "server \<Rightarrow> server" where
  "accept_event s =
     (case pending s of
        [] \<Rightarrow> s
      | Inr p # rest \<Rightarrow>
          s\<lparr>pending := rest, sys := (fst (sys s) @ [(Accepted, fresh p)], snd (sys s))\<rparr>
      | Inl err # rest \<Rightarrow>
          s\<lparr>pending := rest,
            sys := (fst (sys s), Critf ''Accept failed: %s\<newline>'' [ErrArg err] (snd (sys s))),
            exited := True\<rparr>)"

definition event_step :: "unmarshal \<Rightarrow> bytes \<Rightarrow> go_int \<Rightarrow> server \<Rightarrow> event \<Rightarrow> server" where
  "event_step unm activeChecks tFlag s ev =
     (if exited s then s
      else case ev of
             MainAccepts \<Rightarrow> accept_event s
           | HandlerSteps i \<Rightarrow> s\<lparr>sys := step_handler unm activeChecks tFlag i (sys s)\<rparr>)"

definition run_events :: "unmarshal \<Rightarrow> bytes \<Rightarrow> go_int \<Rightarrow> event list \<Rightarrow> server \<Rightarrow> server" where
  "run_events unm activeChecks tFlag evs s = foldl (event_step unm activeChecks tFlag) s evs"

text \<open>The peers of the handlers started so far, in the order of their acceptance.\<close>

definition peers :: "system \<Rightarrow> peer list" where
  "peers s = map (\<lambda>slot. remote (snd slot)) (fst s)"

text \<open>
  The invariant of a run over the outcomes \<open>outs\<close>: some number of calls of
  \<^verbatim>\<open>Accept\<close> have returned; the handlers are those of the connections they
  gave, the process has ended exactly when one of them failed, and every
  handler is where it would be had it run alone.
\<close>

definition server_inv :: "unmarshal \<Rightarrow> bytes \<Rightarrow> go_int \<Rightarrow> peer result list \<Rightarrow> server \<Rightarrow> bool" where
  "server_inv unm a t outs s \<longleftrightarrow>
     (\<exists>k \<le> length outs.
        pending s = drop k outs \<and> peers (sys s) = accepted (take k outs) \<and>
        exited s = (accept_failure (take k outs) \<noteq> None)) \<and>
     list_all (alone unm a t) (fst (sys s))"

text \<open>
  The program with its handlers. \<^verbatim>\<open>main\<close> is run up to its first call of
  \<^verbatim>\<open>Accept\<close> (the world in which no call has returned yet); when it gets
  there the events run from the listening server, with the bytes \<^verbatim>\<open>main\<close>
  has read and the timeout it has loaded; otherwise the program has ended
  the way \<^verbatim>\<open>main\<close> did.
\<close>

definition serve :: "unmarshal \<Rightarrow> env \<Rightarrow> string list \<Rightarrow> event list \<Rightarrow> exit + server" where
  "serve unm e argv evs =
     (case main_args (e\<lparr>accepts := []\<rparr>) argv of
        (Blocked, p) \<Rightarrow>
          (case read_file e (ActiveChecksFile (options p)) of
             Inl err \<Rightarrow> Inl Returned
           | Inr activeChecks \<Rightarrow>
               Inr (run_events unm activeChecks (Timeout (options p)) evs
                      (listening_server (accepts e) (log p))))
      | (x, p) \<Rightarrow> Inl x)"

section \<open>Runs\<close>

lemma run_events_simps [simp]:
  "run_events unm a t [] s = s"
  "run_events unm a t (ev # evs) s = run_events unm a t evs (event_step unm a t s ev)"
  "run_events unm a t (evs @ evs') s = run_events unm a t evs' (run_events unm a t evs s)"
  by (simp_all add: run_events_def)

lemma event_step_exited [simp]: "exited s \<Longrightarrow> event_step unm a t s ev = s"
  by (simp add: event_step_def)

lemma run_events_exited [simp]: "exited s \<Longrightarrow> run_events unm a t evs s = s"
  by (induction evs) simp_all

lemma run_events_steps:
  "\<not> exited s \<Longrightarrow>
   run_events unm a t (map HandlerSteps sched) s = s\<lparr>sys := run_schedule unm a t sched (sys s)\<rparr>"
  by (induction sched arbitrary: s) (simp_all add: event_step_def)

section \<open>The accept loop\<close>

lemma accepted_snoc:
  "accept_failure outs = None \<Longrightarrow> accepted (outs @ [Inr p]) = accepted outs @ [p]"
  "accept_failure outs = None \<Longrightarrow> accepted (outs @ [Inl err]) = accepted outs"
  "accept_failure outs = None \<Longrightarrow> accept_failure (outs @ [Inr p]) = None"
  "accept_failure outs = None \<Longrightarrow> accept_failure (outs @ [Inl err]) = Some err"
  by (induction outs rule: accepted.induct) simp_all

lemma drop_eq_Cons:
  assumes "drop k xs = x # rest"
  shows "k < length xs" "take (Suc k) xs = take k xs @ [x]" "drop (Suc k) xs = rest"
proof -
  from assms show k: "k < length xs"
    by (cases "k < length xs") simp_all
  from assms have "xs ! k = x"
    using k by (metis Cons_nth_drop_Suc list.inject)
  with k show "take (Suc k) xs = take k xs @ [x]"
    by (simp add: take_Suc_conv_app_nth)
  from assms show "drop (Suc k) xs = rest"
    by (metis drop_Suc list.sel(3) tl_drop)
qed

lemma run_accepts:
  assumes "\<not> exited s" and "length (pending s) \<le> n"
  shows "sys (run_events unm a t (replicate n MainAccepts) s) =
      (fst (sys s) @ map (\<lambda>p. (Accepted, fresh p)) (accepted (pending s)),
       case accept_failure (pending s) of
         None \<Rightarrow> snd (sys s)
       | Some err \<Rightarrow> Critf ''Accept failed: %s\<newline>'' [ErrArg err] (snd (sys s)))"
    and "exited (run_events unm a t (replicate n MainAccepts) s) =
      (accept_failure (pending s) \<noteq> None)"
  using assms
proof (induction n arbitrary: s)
  case 0
  {
    case 1
    then show ?case by simp
  next
    case 2
    then show ?case by simp
  }
next
  case (Suc n)
  {
    case 1
    with Suc.IH(1) [of "accept_event s"] show ?case
      by (cases "pending s" rule: accepted.cases)
         (simp_all add: event_step_def accept_event_def split: option.split)
  next
    case 2
    with Suc.IH(2) [of "accept_event s"] show ?case
      by (cases "pending s" rule: accepted.cases)
         (simp_all add: event_step_def accept_event_def)
  }
qed

section \<open>The invariant\<close>

lemma peers_simps [simp]:
  "peers ([], lg) = []" "peers (hs @ [(ph, c)], lg) = peers (hs, lg) @ [remote c]"
  "peers (hs, Critf fmt as lg) = peers (hs, lg)"
  by (simp_all add: peers_def)

lemma step_handler_peers [simp]: "peers (step_handler unm a t i s) = peers s"
  using step_handler_sstep [of unm a t i s]
proof
  assume "sstep unm a t s (step_handler unm a t i s)"
  then show ?thesis
  proof (cases rule: sstep.cases)
    case (accept hs lg p)
    then have "length (fst (step_handler unm a t i s)) = Suc (length (fst s))"
      by simp
    then show ?thesis
      by simp
  next
    case (handler j hs ph c ph' c' lg lg')
    from hstep_remote [OF handler(5)] handler(1-4) show ?thesis
      by (simp add: peers_def map_update list_update_same_conv)
  qed
qed simp

lemma step_handler_alone:
  "list_all (alone unm a t) (fst s) \<Longrightarrow> list_all (alone unm a t) (fst (step_handler unm a t i s))"
  using step_handler_sstep [of unm a t i s] sstep_alone [of unm a t s "step_handler unm a t i s"]
  by auto

lemma listening_inv: "server_inv unm a t outs (listening_server outs lg)"
  by (auto simp: server_inv_def listening_server_def intro!: exI [of _ 0])

lemma accept_event_inv:
  assumes "server_inv unm a t outs s" and "\<not> exited s"
  shows "server_inv unm a t outs (accept_event s)"
proof (cases "pending s")
  case Nil
  with assms show ?thesis by (simp add: accept_event_def)
next
  case (Cons r rest)
  from assms obtain k where k: "pending s = drop k outs" "peers (sys s) = accepted (take k outs)"
    "accept_failure (take k outs) = None" and alone: "list_all (alone unm a t) (fst (sys s))"
    by (auto simp: server_inv_def)
  from k(1) Cons have step: "Suc k \<le> length outs" "take (Suc k) outs = take k outs @ [r]"
    "drop (Suc k) outs = rest"
    using drop_eq_Cons [of k outs r rest] by simp_all
  obtain hs lg where s: "sys s = (hs, lg)"
    by (cases "sys s")
  with Cons k alone step assms(2) show ?thesis
    by (cases r)
       (auto simp: server_inv_def accept_event_def accepted_snoc alone_accepted
          intro!: exI [of _ "Suc k"])
qed

lemma event_step_inv:
  "server_inv unm a t outs s \<Longrightarrow> server_inv unm a t outs (event_step unm a t s ev)"
  by (cases ev)
     (auto simp: event_step_def accept_event_inv, auto simp: server_inv_def step_handler_alone)

lemma run_events_inv: "server_inv unm a t outs s \<Longrightarrow> server_inv unm a t outs (run_events unm a t evs s)"
  by (induction evs arbitrary: s) (simp_all add: event_step_inv)

lemma accepted_take: "set (accepted (take k outs)) \<subseteq> set (accepted outs)"
proof (induction outs arbitrary: k)
  case (Cons r rest)
  then show ?case
    by (cases k; cases r) auto
qed simp

lemma accepted_all: "accept_failure outs = None \<Longrightarrow> length (accepted outs) = length outs"
  by (induction outs rule: accepted.induct) simp_all

section \<open>Schedules from any state\<close>

lemma run_schedule_peers [simp]: "peers (run_schedule unm a t sched s) = peers s"
  by (induction sched arbitrary: s) simp_all

lemma run_schedule_alone:
  "list_all (alone unm a t) (fst s) \<Longrightarrow> list_all (alone unm a t) (fst (run_schedule unm a t sched s))"
  by (induction sched arbitrary: s) (simp_all add: step_handler_alone)

lemma rank_le_5: "rank ph \<le> 5"
  by (cases ph) simp_all

lemma scheduled_slot_closes:
  assumes "list_all (alone unm a t) (fst s)" and "j < length (fst s)"
    and "5 \<le> count_list sched j"
  shows "fst (run_schedule unm a t sched s) ! j =
     (Closed, fst (handleConnection unm (fresh (peers s ! j)) a t []))"
proof -
  obtain ph c where slot: "fst (run_schedule unm a t sched s) ! j = (ph, c)"
    by (cases "fst (run_schedule unm a t sched s) ! j")
  obtain ph0 c0 where start: "fst s ! j = (ph0, c0)"
    by (cases "fst s ! j")
  from assms(3) have "rank (fst (ph0, c0, [])) \<le> count_list sched j"
    using rank_le_5 [of ph0] by (auto intro: order_trans)
  from hrun_enough [OF this, of unm a t] assms(2) slot start have "ph = Closed"
    using run_schedule_slot [of j "fst s" ph0 c0 unm a t sched "snd s"]
    by (simp add: slot_of_def split_beta)
  moreover from run_schedule_alone [OF assms(1)] assms(2) slot have "alone unm a t (ph, c)"
    by (simp add: list_all_length) (metis run_schedule_length)
  moreover from assms(2) slot have "remote c = peers s ! j"
    using run_schedule_peers [of unm a t sched s]
    by (simp add: peers_def) (metis (no_types, lifting) nth_map run_schedule_length snd_conv)
  ultimately show ?thesis
    using slot alone_closed [of unm a t c] by simp
qed

lemma fair_schedule_closes:
  assumes "list_all (alone unm a t) (fst s)" and "\<forall>j < length (fst s). 5 \<le> count_list sched j"
  shows "fst (run_schedule unm a t sched s) =
     map (\<lambda>p. (Closed, fst (handleConnection unm (fresh p) a t []))) (peers s)"
  using assms by (intro nth_equalityI) (simp_all add: peers_def scheduled_slot_closes)

lemma pending_run_events:
  assumes "\<not> exited s" and "accept_failure (pending s) = None"
  shows "\<not> exited (run_events unm a t evs s) \<and>
         accept_failure (pending (run_events unm a t evs s)) = None \<and>
         length (pending (run_events unm a t evs s)) =
           length (pending s) - count_list evs MainAccepts"
  using assms
proof (induction evs arbitrary: s)
  case Nil
  then show ?case by simp
next
  case (Cons ev evs)
  show ?case
  proof (cases ev)
    case MainAccepts
    with Cons.prems Cons.IH [of "accept_event s"] show ?thesis
      by (cases "pending s" rule: accepted.cases) (simp_all add: event_step_def accept_event_def)
  next
    case (HandlerSteps i)
    with Cons.prems Cons.IH [of "s\<lparr>sys := step_handler unm a t i (sys s)\<rparr>"] show ?thesis
      by (simp add: event_step_def)
  qed
qed

section \<open>The program\<close>

lemma boots_no_accepts [simp]: "boots (e\<lparr>accepts := outs\<rparr>) fl opts = boots e fl opts"
  by (simp add: boots_def)

lemma serve_started:
  assumes "Parse formal default_flags argv = Inr (fl, rest)" and "boots e fl opts"
    and "read_file e (ActiveChecksFile opts) = Inr canned"
    and "listen_reply e (listen_address opts) = None"
  shows "serve unm e argv evs =
     Inr (run_events unm canned (Timeout opts) evs
            (listening_server (accepts e) (log (started fl opts))))"
  using assms main_started [of "e\<lparr>accepts := []\<rparr>" fl opts]
  by (simp add: serve_def main_args_Inr)

section \<open>The main goroutine alone\<close>

text \<open>
  The accept loop of \<^verbatim>\<open>main\<close> is the run in which only the main goroutine is
  scheduled: the handlers it has started, the log and whether it has returned
  are those of \<^const>\<open>accept_loop\<close>.
\<close>

lemma main_thread_view:
  assumes "length outs \<le> n" and "spawned p = []"
  shows "sys (run_events unm ac (Timeout (options p)) (replicate n MainAccepts)
            (listening_server outs (log p))) =
         (map (\<lambda>(c, a, t). (Accepted, c)) (spawned (snd (accept_loop ac outs p))),
          log (snd (accept_loop ac outs p)))"
    and "exited (run_events unm ac (Timeout (options p)) (replicate n MainAccepts)
            (listening_server outs (log p))) =
         (fst (accept_loop ac outs p) = Returned)"
  using assms run_accepts [of "listening_server outs (log p)" n unm ac "Timeout (options p)"]
  by (auto simp: listening_server_def accept_loop_eq goroutines_def comp_def Let_def
      split: option.split)

section \<open>Serving without a failure\<close>

text \<open>
  When no call of \<^verbatim>\<open>Accept\<close> fails, every connection is served: after any
  interleaving of accepts and handler steps in which all the connections were
  accepted, five more steps of each handler, in any order, leave every
  handler closed with the result of \<^verbatim>\<open>handleConnection\<close> for its peer, in the
  order of acceptance.
\<close>

lemma all_served_without_failure:
  assumes "accept_failure outs = None" and "length outs \<le> count_list evs MainAccepts"
    and "\<forall>j < length outs. 5 \<le> count_list sched j"
  shows "fst (sys (run_events unm a t (evs @ map HandlerSteps sched) (listening_server outs lg))) =
     map (\<lambda>p. (Closed, fst (handleConnection unm (fresh p) a t []))) (accepted outs)"
proof -
  define s where "s = run_events unm a t evs (listening_server outs lg)"
  from assms(1,2) have run: "\<not> exited s" "pending s = []"
    using pending_run_events [of "listening_server outs lg" unm a t evs]
    by (simp_all add: s_def listening_server_def)
  have "server_inv unm a t outs s"
    unfolding s_def by (intro run_events_inv listening_inv)
  with run(2) have "peers (sys s) = accepted outs" "list_all (alone unm a t) (fst (sys s))"
    by (auto simp: server_inv_def)
  moreover from this assms(1,3) have "\<forall>j < length (fst (sys s)). 5 \<le> count_list sched j"
    using accepted_all [of outs] by (simp add: peers_def) (metis length_map)
  ultimately show ?thesis
    using run(1) fair_schedule_closes [of unm a t "sys s" sched]
    by (simp add: s_def [symmetric] run_events_steps)
qed

lemma all_served_without_failure_example:
  "map (\<lambda>slot. (fst slot, sent (snd slot)))
     (fst (sys (run_events (table_decoder known_requests) ''AC1'' 5
        ([MainAccepts, HandlerSteps 0, HandlerSteps 0, MainAccepts] @ map HandlerSteps (round_robin 2))
        (listening_server
           [Inr (client (Inr ''{\"request\":\"active checks\"}'') None),
            Inr (client (Inr ''{\"request\":\"ping\"}'') None)] [])))) =
   [(Closed, [''AC1'']), (Closed, [])]"
proof -
  have "round_robin 2 = [0, 1, 0, 1, 0, 1, 0, 1, 0, 1]"
    by (simp add: round_robin_def numeral_eq_Suc upt_rec)
  then have "\<forall>j < length [Inr (client (Inr ''{\"request\":\"active checks\"}'') None),
        Inr (client (Inr ''{\"request\":\"ping\"}'') None) :: peer result].
      5 \<le> count_list (round_robin 2) j"
    by (simp add: less_Suc_eq)
  from all_served_without_failure [OF _ _ this,
      of "[MainAccepts, HandlerSteps 0, HandlerSteps 0, MainAccepts]"
        "table_decoder known_requests" "''AC1''" 5 "[]"]
  show ?thesis
    by simp
qed

text \<open>
  In a run of the serving process a connection is served as soon as it was
  accepted and its own handler has taken five steps, whatever the other
  handlers do and whether they are scheduled at all.
\<close>

lemma scheduled_slot_served:
  assumes "accept_failure outs = None" and "length outs \<le> count_list evs MainAccepts"
    and "j < length outs" and "5 \<le> count_list sched j"
  shows "fst (sys (run_events unm a t (evs @ map HandlerSteps sched) (listening_server outs lg))) ! j =
     (Closed, fst (handleConnection unm (fresh (accepted outs ! j)) a t []))"
proof -
  define s where "s = run_events unm a t evs (listening_server outs lg)"
  from assms(1,2) have run: "\<not> exited s" "pending s = []"
    using pending_run_events [of "listening_server outs lg" unm a t evs]
    by (simp_all add: s_def listening_server_def)
  have "server_inv unm a t outs s"
    unfolding s_def by (intro run_events_inv listening_inv)
  with run(2) have s: "peers (sys s) = accepted outs" "list_all (alone unm a t) (fst (sys s))"
    by (auto simp: server_inv_def)
  with assms(1,3) have "j < length (fst (sys s))"
    using accepted_all [of outs] by (simp add: peers_def) (metis length_map)
  from scheduled_slot_closes [OF s(2) this assms(4)] run(1) s(1) show ?thesis
    by (simp add: s_def run_events_steps)
qed

lemmas run_eval = event_step_def accept_event_def listening_server_def step_handler_def
  handler_defs conn_defs obs_defs Let_def

section \<open>Properties of the life of the process\<close>

text \<open>
  Whatever the scheduler does and whether or not the process has
  ended, a connection that is closed belongs to a peer the listener accepted
  and is exactly what \<^verbatim>\<open>handleConnection\<close> alone makes of a fresh connection
  to that peer: neither the other handlers nor the accept loop nor the end of
  the process leaves a closed connection half served.
\<close>

lemma closed_slot_served:
  assumes "(Closed, c) \<in> set (fst (sys (run_events unm a t evs (listening_server outs lg))))"
  shows "remote c \<in> set (accepted outs) \<and>
         c = fst (handleConnection unm (fresh (remote c)) a t [])"
proof -
  define s where "s = run_events unm a t evs (listening_server outs lg)"
  have "server_inv unm a t outs s"
    unfolding s_def by (intro run_events_inv listening_inv)
  then obtain k where k: "peers (sys s) = accepted (take k outs)"
    and alone: "list_all (alone unm a t) (fst (sys s))"
    by (auto simp: server_inv_def)
  from assms have slot: "(Closed, c) \<in> set (fst (sys s))"
    by (simp add: s_def)
  then have "remote (snd (Closed, c)) \<in> set (peers (sys s))"
    unfolding peers_def set_map by (rule imageI)
  moreover from slot alone have "alone unm a t (Closed, c)"
    by (simp add: list_all_iff)
  ultimately have "remote c \<in> set (accepted (take k outs))" "alone unm a t (Closed, c)"
    using k by simp_all
  with accepted_take [of k outs] alone_closed [of unm a t c] show ?thesis
    by auto
qed

lemma closed_slot_served_example:
  "map (\<lambda>slot. (fst slot, sent (snd slot)))
     (fst (sys (run_events (table_decoder known_requests) ''AC1'' 5
        [MainAccepts, HandlerSteps 0, MainAccepts, HandlerSteps 1, HandlerSteps 0, HandlerSteps 0,
         HandlerSteps 0, HandlerSteps 0]
        (listening_server
           [Inr (client (Inr ''{\"request\":\"active checks\"}'') None),
            Inr (client (Inr ''{\"request\":\"ping\"}'') None)] [])))) =
   [(Closed, [''AC1'']), (Reading, [])]"
  using closed_slot_served [of
      "fst (handleConnection (table_decoder known_requests)
         (fresh (client (Inr ''{\"request\":\"active checks\"}'') None)) ''AC1'' 5 [])"
      "table_decoder known_requests" "''AC1''" 5
      "[MainAccepts, HandlerSteps 0, MainAccepts, HandlerSteps 1, HandlerSteps 0, HandlerSteps 0,
        HandlerSteps 0, HandlerSteps 0]"
      "[Inr (client (Inr ''{\"request\":\"active checks\"}'') None),
        Inr (client (Inr ''{\"request\":\"ping\"}'') None)]" "[]"]
  by (simp add: run_eval)



text \<open>
  Claim C37. \<^verbatim>\<open>main\<close> as a sequential function is the program in which only the
  main goroutine runs: when its start-up fails, the program ends with the
  same status before any event; otherwise, once the main goroutine has made
  all its calls of \<^verbatim>\<open>Accept\<close>, the handlers started, the log and whether the
  process has ended are those \<^verbatim>\<open>main\<close> computes, every handler still at its
  entry.
\<close>

theorem serve_main_thread:
  assumes "length (accepts e) \<le> n"
  shows "(case serve unm e argv (replicate n MainAccepts) of
            Inl x \<Rightarrow> fst (main_args e argv) = x \<and> spawned (snd (main_args e argv)) = []
          | Inr s \<Rightarrow>
              sys s = (map (\<lambda>(c, a, t). (Accepted, c)) (spawned (snd (main_args e argv))),
                       log (snd (main_args e argv))) \<and>
              exited s = (fst (main_args e argv) = Returned))"
proof (cases "Parse formal default_flags argv")
  case (Inl err)
  then show ?thesis
    by (simp add: serve_def main_args_Inl)
next
  case (Inr r)
  obtain fl rest where "r = (fl, rest)"
    by (cases r)
  with Inr have args: "main_args e' argv = main e' fl" for e'
    by (simp add: main_args_Inr)
  show ?thesis
    using assms
      run_accepts [of "listening_server (accepts e) lg" n unm a t for lg a t]
    by (simp add: serve_def args main_eq listening_server_def goroutines_def comp_def
        split: sum.split option.split)
qed

theorem serve_main_thread_witness:
  "map_sum id (\<lambda>s. (map fst (fst (sys s)), snd (sys s), exited s))
     (serve (table_decoder known_requests) sample_env [] (replicate 2 MainAccepts)) =
   Inr ([Accepted, Accepted],
        [LogCall Info greeting [],
         LogCall Info ''using configuration file: %s'' [StrArg ''mock_server.conf'']],
        False)"
proof -
  have "confFlag default_flags = ''mock_server.conf''"
    by (simp add: default_flags_def confDefault_def)
  with serve_main_thread [where e = sample_env and n = 2 and argv = "[]"
      and unm = "table_decoder known_requests"]
  show ?thesis
    by (auto simp: main_args_examples(5) main_started [OF boots_sample] sample_options_def
        split: sum.splits)
qed

text \<open>
  Claim C9. A client that hangs delays nobody. In any run of the serving
  process in which no \<^verbatim>\<open>Accept\<close> fails, a connection is served as soon as it
  was accepted and its own handler has taken five steps: it is closed and is
  what \<^verbatim>\<open>handleConnection\<close> alone makes of it. Nothing is asked of the other
  connections, however many there are: their handlers may be anywhere in
  their runs, or blocked in a call and never scheduled again.
\<close>

theorem hanging_client_delays_nobody:
  assumes "accept_failure outs = None" and "length outs \<le> count_list evs MainAccepts"
    and "j < length outs" and "5 \<le> count_list sched j"
  shows "fst (sys (run_events unm a t (evs @ map HandlerSteps sched) (listening_server outs lg))) ! j =
     (Closed, fst (handleConnection unm (fresh (accepted outs ! j)) a t []))"
  using assms by (rule scheduled_slot_served)

theorem hanging_client_delays_nobody_witness:
  "map (\<lambda>slot. (fst slot, sent (snd slot)))
     (fst (sys (run_events (table_decoder known_requests) ''AC1'' 5
        ([MainAccepts, MainAccepts, MainAccepts] @ map HandlerSteps [1, 0, 0, 0, 0, 0])
        (listening_server (map Inr three_clients) [])))) =
   [(Closed, [''AC1'']), (Reading, []), (Accepted, [])]"
  using hanging_client_delays_nobody [of "map Inr three_clients"
      "[MainAccepts, MainAccepts, MainAccepts]" 0 "[1, 0, 0, 0, 0, 0]"
      "table_decoder known_requests" "''AC1''" 5 "[]"]
  by (simp add: three_clients_def run_eval)

text \<open>
  Fifty connections and one more that hangs: round robin among the fifty
  serves each of them, and the one that is never scheduled stays as it was
  accepted. The number plays no part in the proof.
\<close>

lemma accepted_all_Inr [simp]:
  "accept_failure (map Inr ps) = None" "accepted (map Inr ps) = ps"
  by (induction ps) simp_all

lemma many_clients_one_hanging:
  assumes "j < n" and "length ps = n"
  shows "fst (sys (run_events unm a t
           (replicate (Suc n) MainAccepts @ map HandlerSteps (round_robin n))
           (listening_server (map Inr (ps @ [p])) lg))) ! j =
     (Closed, fst (handleConnection unm (fresh (ps ! j)) a t []))"
proof -
  from assms have "length (map Inr (ps @ [p]) :: peer result list) \<le>
      count_list (replicate (Suc n) MainAccepts) MainAccepts"
    "j < length (map Inr (ps @ [p]) :: peer result list)" "5 \<le> count_list (round_robin n) j"
    by (simp_all only: count_list_replicate count_list_round_robin length_map) simp_all
  from scheduled_slot_served [OF accepted_all_Inr(1) this, of unm a t lg] assms
  show ?thesis
    by (simp only: accepted_all_Inr nth_append) simp
qed

lemma fifty_clients_one_hanging:
  assumes "j < 50" and "length ps = 50"
  shows "fst (sys (run_events unm a t
           (replicate 51 MainAccepts @ map HandlerSteps (round_robin 50))
           (listening_server (map Inr (ps @ [p])) lg))) ! j =
     (Closed, fst (handleConnection unm (fresh (ps ! j)) a t []))"
  using many_clients_one_hanging [OF assms, of unm a t p lg]
  by (simp only: eval_nat_numeral)

end
