(* ===== verification/Log_Lines.thy ===== *)
theory Log_Lines
  imports Fmt Lifetime
begin

text \<open>
  What the log says. The handler and \<^verbatim>\<open>main\<close> record their calls of the
  printing functions with format and operands (theory \<open>Logger\<close>); here the
  calls are given their text (theory \<open>Fmt\<close>). The theory shows that every
  call the program makes has as many operands as its format has verbs, and
  what the lines of the handler are: which of them name the request, and
  which carry bytes of the client unchanged.
\<close>

section \<open>The lines of a log\<close>

definition lines :: "(string \<Rightarrow> string) \<Rightarrow> log \<Rightarrow> string list" where
  "lines ft lg = map (\<lambda>c. case text_of ft c of None \<Rightarrow> [] | Some text \<Rightarrow> text) lg"

text \<open>A log all of whose calls fit their formats.\<close>

abbreviation well_formatted :: "log \<Rightarrow> bool" where
  "well_formatted \<equiv> list_all fits"

section \<open>Calls fit their formats\<close>

lemma lines_simps [simp]:
  "lines ft [] = []" "lines ft (lg @ lg') = lines ft lg @ lines ft lg'"
  by (simp_all add: lines_def)

lemma fits_printf [simp]:
  "well_formatted (Infof fmt as lg) \<longleftrightarrow> well_formatted lg \<and> verbs fmt = Some (length as)"
  "well_formatted (Critf fmt as lg) \<longleftrightarrow> well_formatted lg \<and> verbs fmt = Some (length as)"
  "well_formatted (Warningf fmt as lg) \<longleftrightarrow> well_formatted lg \<and> verbs fmt = Some (length as)"
  "well_formatted (Debugf fmt as lg) \<longleftrightarrow> well_formatted lg \<and> verbs fmt = Some (length as)"
  by (simp_all add: log_defs fits_def)

lemma fits_text: "fits c \<Longrightarrow> \<exists>text. text_of ft c = Some text"
  by (simp add: fits_def text_of_def verbs_Sprintf)

lemma handleConnection_fits:
  "well_formatted lg \<Longrightarrow> well_formatted (snd (handleConnection unm c a t lg))"
  by (cases rule: handleConnection_cases [of c t unm a lg]) (simp_all add: got_format_def)

lemma hstep_fits:
  assumes "hstep unm a t cfg cfg'" and "well_formatted (snd (snd cfg))"
  shows "well_formatted (snd (snd cfg'))"
  using assms by (induction rule: hstep.induct) (simp_all add: got_format_def)

lemma step_handler_fits:
  assumes "well_formatted (snd s)"
  shows "well_formatted (snd (step_handler unm a t i s))"
  using step_handler_sstep [of unm a t i s]
proof
  assume "sstep unm a t s (step_handler unm a t i s)"
  then show ?thesis
    using assms by (cases rule: sstep.cases) (auto dest: hstep_fits)
qed (simp add: assms)

lemma event_step_fits:
  "well_formatted (snd (sys s)) \<Longrightarrow> well_formatted (snd (sys (event_step unm a t s ev)))"
  by (cases ev; cases "pending s" rule: accepted.cases)
     (simp_all add: event_step_def accept_event_def step_handler_fits)

lemma run_events_fits:
  "well_formatted (snd (sys s)) \<Longrightarrow> well_formatted (snd (sys (run_events unm a t evs s)))"
  by (induction evs arbitrary: s) (simp_all add: event_step_fits)

lemma greeting_plain: "CHR ''%'' \<notin> set greeting"
  by (simp add: greeting_def)

lemma started_fits: "well_formatted (log (started fl opts))"
  by (simp add: fits_def greeting_def)

lemma main_fits: "well_formatted (log (snd (main e fl)))"
  using started_fits [of fl]
  by (simp add: main_eq logging_def initial_def split: sum.split option.split)

section \<open>The lines of the handler\<close>

lemma text_of_simps [simp]:
  "text_of ft (LogCall l fmt as) = Sprintf ft fmt as"
  by (simp add: text_of_def)

lemma lines_printf [simp]:
  "lines ft (Warningf fmt as lg) = lines ft lg @ lines ft [LogCall Warning fmt as]"
  "lines ft (Debugf fmt as lg) = lines ft lg @ lines ft [LogCall Debug fmt as]"
  "lines ft (Critf fmt as lg) = lines ft lg @ lines ft [LogCall Crit fmt as]"
  "lines ft (Infof fmt as lg) = lines ft lg @ lines ft [LogCall Info fmt as]"
  by (simp_all add: log_defs)

text \<open>
  The five ways a handler ends, by the lines it adds to the log: the line of
  the payload, at the debug level, and the one warning.
\<close>

lemma handleConnection_lines:
  "\<exists>entries. snd (handleConnection unm c a t lg) = lg @ entries \<and>
     lines ft entries =
       (case fst (conn_Read c (timeout_of t)) of
          Inl e \<Rightarrow> [''Read failed: '' @ message e @ ''\<newline>'']
        | Inr js \<Rightarrow>
            (''got '' @ [CHR 0x27] @ js @ [CHR 0x27]) #
            (case unm js of
               Inl e \<Rightarrow> [''Unmarshal failed: '' @ message e @ ''\<newline>'']
             | Inr ps \<Rightarrow>
                 if is_active_checks ps then
                   (case fst (conn_Write (snd (conn_Read c (timeout_of t))) a (timeout_of t)) of
                      None \<Rightarrow> []
                    | Some e \<Rightarrow> [''Write failed: '' @ message e @ ''\<newline>''])
                 else
                   [''Unsupported request: '' @
                    printArg ft CHR ''s'' (IfaceArg (index ps ''request'')) @ ''\<newline>'']))"
  by (cases rule: handleConnection_cases [of c t unm a lg])
     (simp_all add: log_defs lines_def got_format_def printArg_def)

text \<open>
  The warning for an unsupported request names the request when it is a
  string; a request that is absent or \<^verbatim>\<open>null\<close>, a number or a boolean is
  printed as the verb in error.
\<close>

lemma unsupported_request_named:
  assumes "fst (conn_Read c (timeout_of t)) = Inr js" and "unm js = Inr ps"
    and "index ps ''request'' = GoString s" and "s \<noteq> ''active checks''"
  shows "lines ft (warnings (snd (handleConnection unm c a t lg))) =
     lines ft (warnings lg) @ [''Unsupported request: '' @ s @ ''\<newline>'']"
  using assms
  by (cases rule: handleConnection_cases [of c t unm a lg])
     (simp_all add: is_active_checks_def lines_def printArg_def)

lemma unsupported_request_unnamed:
  assumes "fst (conn_Read c (timeout_of t)) = Inr js" and "unm js = Inr ps"
    and "index ps ''request'' = GoNil"
  shows "lines ft (warnings (snd (handleConnection unm c a t lg))) =
     lines ft (warnings lg) @ [''Unsupported request: %!s(<nil>)\<newline>'']"
  using assms
  by (cases rule: handleConnection_cases [of c t unm a lg])
     (simp_all add: is_active_checks_def lines_def printArg_def)

section \<open>What the sink shows\<close>

text \<open>
  The switch of lines 112-125 gives the level whose verbosity is the number
  configured.
\<close>

lemma logLevel_of_verbosity: "logLevel_of d = Some v \<Longrightarrow> sint d = int (verbosity v)"
  by (auto simp: logLevel_of_def split: if_splits)

lemma handler_levels:
  "shown v (snd (handleConnection unm c a t [])) =
     (if v < Warning then []
      else if v = Warning then warnings (snd (handleConnection unm c a t []))
      else snd (handleConnection unm c a t []))"
  by (cases rule: handleConnection_cases [of c t unm a "[]"]; cases v)
     (simp_all add: less_eq_log_level_def less_log_level_def log_defs)

lemma greeting_Sprintf: "Sprintf ft greeting [] = Some greeting"
  by (rule Sprintf_plain) (rule greeting_plain)

lemma Fprintf_text: "Sprintf ft ''%s\<newline>'' [StrArg text] = Some (text @ ''\<newline>'')"
  by (simp add: printArg_def)

section \<open>Properties of the log\<close>



text \<open>
  Claim C34. What an operator sees of a connection depends on the configured
  \<^verbatim>\<open>DebugLevel\<close> alone: below 3 the handler leaves no trace, whatever happens
  to the connection; at 3, the default, the log shows the warning of a failed
  or refused request and nothing of a served one; from 4 on it shows the
  payload of every request as well.
\<close>

theorem handler_shown:
  assumes "logLevel_of d = Some v"
  shows "shown v (snd (handleConnection unm c a t [])) =
     (if sint d < 3 then []
      else if sint d = 3 then warnings (snd (handleConnection unm c a t []))
      else snd (handleConnection unm c a t []))"
proof -
  from assms have "sint d = int (verbosity v)"
    by (rule logLevel_of_verbosity)
  then have "sint d < 3 \<longleftrightarrow> v < Warning" "sint d = 3 \<longleftrightarrow> v = Warning"
    by (cases v; simp add: less_log_level_def)+
  then show ?thesis
    by (simp add: handler_levels)
qed

theorem handler_shown_witness:
  "lines (\<lambda>s. s) (shown Warning (snd (handleConnection (table_decoder known_requests)
     (fresh (client (Inr ''{\"request\":\"ping\"}'') None)) ''AC1'' 5 []))) =
     [''Unsupported request: ping\<newline>''] \<and>
   shown Warning (snd (handleConnection (table_decoder known_requests)
     (fresh (client (Inr ''{\"request\":\"active checks\"}'') None)) ''AC1'' 5 [])) = []"
  using handler_shown [of 3 Warning "table_decoder known_requests"
      "fresh (client (Inr ''{\"request\":\"ping\"}'') None)" "''AC1''" 5]
    handler_shown [of 3 Warning "table_decoder known_requests"
      "fresh (client (Inr ''{\"request\":\"active checks\"}'') None)" "''AC1''" 5]
    unsupported_request_named [of "fresh (client (Inr ''{\"request\":\"ping\"}'') None)" 5
      "''{\"request\":\"ping\"}''" "table_decoder known_requests" "[(''request'', GoString ''ping'')]"
      "''ping''" "\<lambda>s. s" "''AC1''" "[]"]
  by (simp add: logLevel_of_def fst_conn_Read handler_defs conn_defs obs_defs Let_def log_defs)

end
