(* ===== verification/Utf8.thy ===== *)
theory Utf8
  imports MockServer_Prelude
begin

text \<open>
  The two functions of Go's \<^verbatim>\<open>unicode/utf8\<close> and the one of \<^verbatim>\<open>unicode/utf16\<close>
  that \<^verbatim>\<open>encoding/json\<close> calls when it unquotes a string: the decoder of the
  standard library copies ASCII bytes, decodes every other byte sequence with
  \<^verbatim>\<open>utf8.DecodeRune\<close> and writes the rune back with \<^verbatim>\<open>utf8.EncodeRune\<close>, so
  that an ill-formed byte becomes U+FFFD. A byte is a \<^typ>\<open>char\<close> read with
  \<^const>\<open>of_char\<close>, a rune a natural number. The standard library is not part of
  the sources; the functions follow its documented tables. The lemmas show that
  decoding inverts encoding, that encoding inverts the decoding of a well-formed
  sequence, and that the well-formed strings are the concatenations of encoded
  runes.
\<close>

section \<open>Runes and bytes\<close>

type_synonym rune = nat

abbreviation byte :: "char \<Rightarrow> nat" where
  "byte \<equiv> of_char"

definition RuneError :: rune where
  "RuneError = 0xFFFD"

definition MaxRune :: rune where
  "MaxRune = 0x10FFFF"

text \<open>
  The table \<^verbatim>\<open>first\<close> of the package: the length of the sequence a leading byte
  announces, 0 for a byte that cannot lead. \<^verbatim>\<open>acceptRanges\<close>: the second byte
  allowed after a leading byte, which excludes overlong forms, surrogates and
  values above U+10FFFF.
\<close>

definition seq_width :: "nat \<Rightarrow> nat" where
  "seq_width b0 =
     (if b0 < 0x80 then 1 else if 0xC2 \<le> b0 \<and> b0 \<le> 0xDF then 2
      else if 0xE0 \<le> b0 \<and> b0 \<le> 0xEF then 3 else if 0xF0 \<le> b0 \<and> b0 \<le> 0xF4 then 4 else 0)"

definition accept_range :: "nat \<Rightarrow> nat \<Rightarrow> bool" where
  "accept_range b0 b1 =
     (if b0 = 0xE0 then 0xA0 \<le> b1 \<and> b1 \<le> 0xBF
      else if b0 = 0xED then 0x80 \<le> b1 \<and> b1 \<le> 0x9F
      else if b0 = 0xF0 then 0x90 \<le> b1 \<and> b1 \<le> 0xBF
      else if b0 = 0xF4 then 0x80 \<le> b1 \<and> b1 \<le> 0x8F
      else 0x80 \<le> b1 \<and> b1 \<le> 0xBF)"

definition continuation :: "nat \<Rightarrow> bool" where
  "continuation b \<longleftrightarrow> 0x80 \<le> b \<and> b \<le> 0xBF"

definition rune_of :: "nat \<Rightarrow> nat list \<Rightarrow> rune" where
  "rune_of b0 bs = foldl (\<lambda>r b. r * 64 + b mod 64) (b0 mod 2 ^ (6 - length bs)) bs"

text \<open>
  \<^verbatim>\<open>utf8.DecodeRune\<close>: the first rune of \<open>p\<close> and its width in bytes;
  \<open>(RuneError, 0)\<close> for the empty input and \<open>(RuneError, 1)\<close> for an ill-formed
  or truncated sequence.
\<close>

definition DecodeRune :: "bytes \<Rightarrow> rune \<times> nat" where
  "DecodeRune p =
     (case p of
        [] \<Rightarrow> (RuneError, 0)
      | c0 # cs \<Rightarrow>
          let b0 = byte c0; sz = seq_width b0; bs = map byte (take (sz - 1) cs) in
          if sz = 1 then (b0, 1)
          else if sz = 0 \<or> length bs < sz - 1 \<or> \<not> accept_range b0 (hd bs)
            \<or> \<not> list_all continuation (tl bs)
          then (RuneError, 1)
          else (rune_of b0 bs, sz))"

text \<open>
  \<^verbatim>\<open>utf8.EncodeRune\<close>: one to four bytes; a surrogate or a value above
  \<^const>\<open>MaxRune\<close> is written as U+FFFD. \<open>scalar\<close> is the rune that is in fact
  written, \<^verbatim>\<open>utf8.Valid\<close> holds of the well-formed strings.
\<close>

definition surrogate :: "rune \<Rightarrow> bool" where
  "surrogate r \<longleftrightarrow> 0xD800 \<le> r \<and> r \<le> 0xDFFF"

definition encode3 :: "rune \<Rightarrow> bytes" where
  "encode3 r =
     [char_of (0xE0 + r div 4096), char_of (0x80 + r div 64 mod 64), char_of (0x80 + r mod 64)]"

definition EncodeRune :: "rune \<Rightarrow> bytes" where
  "EncodeRune r =
     (if r < 0x80 then [char_of r]
      else if r < 0x800 then [char_of (0xC0 + r div 64), char_of (0x80 + r mod 64)]
      else if MaxRune < r \<or> surrogate r then encode3 RuneError
      else if r < 0x10000 then encode3 r
      else [char_of (0xF0 + r div 262144), char_of (0x80 + r div 4096 mod 64),
            char_of (0x80 + r div 64 mod 64), char_of (0x80 + r mod 64)])"

definition scalar :: "rune \<Rightarrow> rune" where
  "scalar r = (if MaxRune < r \<or> surrogate r then RuneError else r)"

fun Valid :: "bytes \<Rightarrow> bool" where
  "Valid [] = True"
| "Valid (c # cs) =
     (DecodeRune (c # cs) \<noteq> (RuneError, 1) \<and> Valid (drop (snd (DecodeRune (c # cs)) - 1) cs))"

declare Valid.simps(2) [simp del]

text \<open>
  \<^verbatim>\<open>utf16.DecodeRune\<close> on the code units of two consecutive escapes, the second
  absent when no escape follows: the code point of a surrogate pair, U+FFFD for
  anything else.
\<close>

definition utf16_DecodeRune :: "rune \<Rightarrow> rune option \<Rightarrow> rune" where
  "utf16_DecodeRune r1 r2 =
     (case r2 of
        None \<Rightarrow> RuneError
      | Some r2' \<Rightarrow>
          if 0xD800 \<le> r1 \<and> r1 < 0xDC00 \<and> 0xDC00 \<le> r2' \<and> r2' < 0xE000
          then (r1 - 0xD800) * 1024 + (r2' - 0xDC00) + 0x10000 else RuneError)"

lemmas utf8_defs = DecodeRune_def EncodeRune_def encode3_def seq_width_def accept_range_def
  continuation_def rune_of_def RuneError_def MaxRune_def

lemma byte_less [simp]: "byte c < 256"
  by (cases c) simp

lemma byte_char_of [simp]: "n < 256 \<Longrightarrow> byte (char_of n) = n"
  by simp

lemma DecodeRune_ascii: "byte c < 128 \<Longrightarrow> DecodeRune (c # cs) = (byte c, 1)"
  by (simp add: DecodeRune_def seq_width_def)

lemma Valid_ascii [simp]: "byte c < 128 \<Longrightarrow> Valid (c # cs) = Valid cs"
  by (simp add: Valid.simps(2) DecodeRune_ascii RuneError_def)

section \<open>Six bits at a time\<close>

text \<open>
  The arithmetic of the encoding: a rune is split into a leading part and
  digits to the base 64, and put together again.
\<close>

lemma lead_mod:
  "x < 32 \<Longrightarrow> (192 + x) mod 32 = x" "x < 16 \<Longrightarrow> (224 + x) mod 16 = x"
  "x < 8 \<Longrightarrow> (240 + x) mod 8 = x" "x < 64 \<Longrightarrow> (128 + x) mod 64 = x"
  for x :: nat
  using mod_mult_self3 [of 6 32 x] mod_mult_self3 [of 14 16 x] mod_mult_self3 [of 30 8 x]
    mod_mult_self3 [of 2 64 x]
  by simp_all

lemma split2:
  fixes r :: nat
  obtains a b where "r = 64 * a + b" "b < 64" "r div 64 = a" "r mod 64 = b"
  by (metis mod_less_divisor mult_div_mod_eq zero_less_numeral)

lemma split3:
  fixes r :: nat
  obtains a b c where "r = 4096 * a + 64 * b + c" "b < 64" "c < 64"
    and "r div 4096 = a" "r div 64 mod 64 = b" "r mod 64 = c"
proof -
  obtain q c where q: "r = 64 * q + c" "c < 64" "r div 64 = q" "r mod 64 = c" by (rule split2)
  obtain a b where a: "q = 64 * a + b" "b < 64" "q div 64 = a" "q mod 64 = b" by (rule split2)
  from q a have "r = 4096 * a + 64 * b + c" "r div 4096 = a"
    by (simp_all add: div_mult2_eq [of r 64 64, simplified])
  with q a show thesis
    by (intro that [of a b c]) simp_all
qed

lemma split4:
  fixes r :: nat
  obtains a b c d where "r = 262144 * a + 4096 * b + 64 * c + d" "b < 64" "c < 64" "d < 64"
    and "r div 262144 = a" "r div 4096 mod 64 = b" "r div 64 mod 64 = c" "r mod 64 = d"
proof -
  obtain q c d where q: "r = 4096 * q + 64 * c + d" "c < 64" "d < 64" "r div 4096 = q"
    "r div 64 mod 64 = c" "r mod 64 = d" by (rule split3)
  obtain a b where a: "q = 64 * a + b" "b < 64" "q div 64 = a" "q mod 64 = b" by (rule split2)
  from q a have "r = 262144 * a + 4096 * b + 64 * c + d" "r div 262144 = a"
    by (simp_all add: div_mult2_eq [of r 4096 64, simplified])
  with q a show thesis
    by (intro that [of a b c d]) simp_all
qed

section \<open>Decoding what was encoded\<close>

lemma surrogate_range: "surrogate r \<Longrightarrow> 0x800 \<le> r \<and> r < 0x10000"
  by (simp add: surrogate_def)

lemma RuneError_range: "0x800 \<le> RuneError" "RuneError < 0x10000" "\<not> surrogate RuneError"
  by (simp_all add: RuneError_def surrogate_def)

lemma DecodeRune_seq:
  assumes "seq_width b0 = Suc (length bs)" "bs \<noteq> []" "accept_range b0 (hd bs)" "list_all continuation (tl bs)"
    and "b0 < 256" "list_all (\<lambda>b. b < 256) bs"
  shows "DecodeRune (map char_of (b0 # bs) @ ys) = (rune_of b0 bs, Suc (length bs))"
proof -
  have "map byte (map char_of bs) = bs"
    using assms(6) by (induction bs) simp_all
  with assms show ?thesis
    by (simp add: DecodeRune_def)
qed

lemma encode_two:
  assumes "0x80 \<le> r" "r < 0x800"
  obtains a b where "scalar r = 64 * a + b" "2 \<le> a" "a < 32" "b < 64"
    "EncodeRune r = map char_of [0xC0 + a, 0x80 + b]"
proof -
  obtain a b where r: "r = 64 * a + b" "b < 64" and digits: "r div 64 = a" "r mod 64 = b"
    by (rule split2)
  from assms have "EncodeRune r = map char_of [0xC0 + a, 0x80 + b]" "scalar r = r"
    unfolding digits [symmetric] by (simp_all add: EncodeRune_def scalar_def surrogate_def MaxRune_def)
  moreover from assms r have "2 \<le> a" "a < 32"
    by linarith+
  ultimately show thesis
    using r by (intro that [of a b]) simp_all
qed

lemma encode_three:
  assumes "0x800 \<le> s" "s < 0x10000" "\<not> surrogate s"
  obtains a b c where "s = 4096 * a + 64 * b + c" "a < 16" "b < 64" "c < 64"
    "accept_range (0xE0 + a) (0x80 + b)" "encode3 s = map char_of [0xE0 + a, 0x80 + b, 0x80 + c]"
proof -
  obtain a b c where r: "s = 4096 * a + 64 * b + c" "b < 64" "c < 64"
    and digits: "s div 4096 = a" "s div 64 mod 64 = b" "s mod 64 = c"
    by (rule split3)
  from r have lo: "4096 * a + 64 * b \<le> s" and hi: "s < 4096 * a + 64 * b + 64"
    by linarith+
  have "a < 16"
    using lo assms(2) by linarith
  moreover have "32 \<le> b" if "a = 0"
    using that hi assms(1) by linarith
  moreover have "b < 32" if "a = 13"
    using that lo hi r(2) assms(3) unfolding surrogate_def by linarith
  ultimately have "a < 16" "accept_range (0xE0 + a) (0x80 + b)"
    using r(2) by (auto simp: accept_range_def)
  moreover have "encode3 s = map char_of [0xE0 + a, 0x80 + b, 0x80 + c]"
    unfolding digits [symmetric] by (simp add: encode3_def)
  ultimately show thesis
    using r by (intro that [of a b c]) simp_all
qed

lemma encode_four:
  assumes "0x10000 \<le> r" "r \<le> MaxRune"
  obtains a b c d where "scalar r = 262144 * a + 4096 * b + 64 * c + d" "a < 5" "b < 64" "c < 64"
    "d < 64" "accept_range (0xF0 + a) (0x80 + b)"
    "EncodeRune r = map char_of [0xF0 + a, 0x80 + b, 0x80 + c, 0x80 + d]"
proof -
  obtain a b c d where r: "r = 262144 * a + 4096 * b + 64 * c + d" "b < 64" "c < 64" "d < 64"
    and digits: "r div 262144 = a" "r div 4096 mod 64 = b" "r div 64 mod 64 = c" "r mod 64 = d"
    by (rule split4)
  from r have lo: "262144 * a + 4096 * b \<le> r" and hi: "r < 262144 * a + 4096 * b + 4096"
    by linarith+
  have "a < 5"
    using lo assms(2) unfolding MaxRune_def by linarith
  moreover have "16 \<le> b" if "a = 0"
    using that hi assms(1) by linarith
  moreover have "b < 16" if "a = 4"
    using that lo assms(2) unfolding MaxRune_def by linarith
  ultimately have "a < 5" "accept_range (0xF0 + a) (0x80 + b)"
    using r(2) by (auto simp: accept_range_def)
  moreover from assms have "EncodeRune r = map char_of [0xF0 + a, 0x80 + b, 0x80 + c, 0x80 + d]"
    "scalar r = r"
    unfolding digits [symmetric]
    by (simp_all add: EncodeRune_def scalar_def surrogate_def MaxRune_def)
  ultimately show thesis
    using r by (intro that [of a b c d]) simp_all
qed

lemma EncodeRune_cases [case_names ascii two three four]:
  obtains "r < 0x80" "scalar r = r" "EncodeRune r = [char_of r]"
  | a b where "scalar r = 64 * a + b" "2 \<le> a" "a < 32" "b < 64"
      "EncodeRune r = map char_of [0xC0 + a, 0x80 + b]"
  | a b c where "scalar r = 4096 * a + 64 * b + c" "a < 16" "b < 64" "c < 64"
      "accept_range (0xE0 + a) (0x80 + b)" "EncodeRune r = map char_of [0xE0 + a, 0x80 + b, 0x80 + c]"
  | a b c d where "scalar r = 262144 * a + 4096 * b + 64 * c + d" "a < 5" "b < 64" "c < 64" "d < 64"
      "accept_range (0xF0 + a) (0x80 + b)"
      "EncodeRune r = map char_of [0xF0 + a, 0x80 + b, 0x80 + c, 0x80 + d]"
proof -
  have "0x800 \<le> scalar r \<and> scalar r < 0x10000 \<and> \<not> surrogate (scalar r) \<and>
      EncodeRune r = encode3 (scalar r)"
    if "0x800 \<le> r" "MaxRune < r \<or> surrogate r \<or> r < 0x10000"
    using that RuneError_range by (auto simp: scalar_def EncodeRune_def)
  then consider "r < 0x80" | "0x80 \<le> r" "r < 0x800"
    | "0x800 \<le> scalar r" "scalar r < 0x10000" "\<not> surrogate (scalar r)"
      "EncodeRune r = encode3 (scalar r)"
    | "0x10000 \<le> r" "r \<le> MaxRune"
    by (metis leI)
  then show thesis
  proof cases
    case 1
    then show thesis
      by (intro that(1)) (simp_all add: EncodeRune_def scalar_def surrogate_def MaxRune_def)
  next
    case 2
    then show thesis
      by (rule encode_two) (rule that(2))
  next
    case 3
    from 3(1-3) obtain a b c where "scalar r = 4096 * a + 64 * b + c" "a < 16" "b < 64" "c < 64"
      "accept_range (0xE0 + a) (0x80 + b)"
      "encode3 (scalar r) = map char_of [0xE0 + a, 0x80 + b, 0x80 + c]"
      by (rule encode_three)
    with 3(4) show thesis
      by (intro that(3) [of a b c]) simp_all
  next
    case 4
    then show thesis
      by (rule encode_four) (rule that(4))
  qed
qed

lemma DecodeRune_EncodeRune: "DecodeRune (EncodeRune r @ ys) = (scalar r, length (EncodeRune r))"
proof (cases r rule: EncodeRune_cases)
  case ascii
  then show ?thesis
    by (simp add: DecodeRune_ascii)
next
  case (two a b)
  then show ?thesis
    using DecodeRune_seq [of "0xC0 + a" "[0x80 + b]" ys]
    by (simp add: seq_width_def accept_range_def rune_of_def lead_mod)
next
  case (three a b c)
  then show ?thesis
    using DecodeRune_seq [of "0xE0 + a" "[0x80 + b, 0x80 + c]" ys]
    by (simp add: seq_width_def continuation_def rune_of_def lead_mod)
next
  case (four a b c d)
  then show ?thesis
    using DecodeRune_seq [of "0xF0 + a" "[0x80 + b, 0x80 + c, 0x80 + d]" ys]
    by (simp add: seq_width_def continuation_def rune_of_def lead_mod)
qed

lemma EncodeRune_high: "0x80 \<le> r \<Longrightarrow> list_all (\<lambda>c. 0x80 \<le> byte c) (EncodeRune r)"
  by (cases r rule: EncodeRune_cases) simp_all

lemma div_4096: "r div 4096 = r div 64 div 64"
  and div_262144: "r div 262144 = r div 64 div 64 div 64" for r :: nat
  by (simp_all add: div_mult2_eq)

lemma unsplit:
  fixes a b c d :: nat
  assumes "b < 64" "c < 64" "d < 64"
  shows "(64 * a + b) div 64 = a" "(64 * a + b) mod 64 = b"
    and "(4096 * a + 64 * b + c) div 4096 = a" "(4096 * a + 64 * b + c) div 64 mod 64 = b"
    and "(4096 * a + 64 * b + c) mod 64 = c"
    and "(262144 * a + 4096 * b + 64 * c + d) div 262144 = a"
    and "(262144 * a + 4096 * b + 64 * c + d) div 4096 mod 64 = b"
    and "(262144 * a + 4096 * b + 64 * c + d) div 64 mod 64 = c"
    and "(262144 * a + 4096 * b + 64 * c + d) mod 64 = d"
proof -
  have three: "4096 * a + 64 * b + c = 64 * (64 * a + b) + c" for a b c :: nat
    by simp
  have four: "262144 * a + 4096 * b + 64 * c + d = 64 * (64 * (64 * a + b) + c) + d"
    by simp
  have base: "(64 * q + x) div 64 = q" "(64 * q + x) mod 64 = x" if "x < 64" for q x :: nat
    using that by simp_all
  from assms show "(64 * a + b) div 64 = a" "(64 * a + b) mod 64 = b"
    by simp_all
  from assms show "(4096 * a + 64 * b + c) div 4096 = a"
    "(4096 * a + 64 * b + c) div 64 mod 64 = b" "(4096 * a + 64 * b + c) mod 64 = c"
    by (simp_all only: three div_4096 base)
  from assms show "(262144 * a + 4096 * b + 64 * c + d) div 262144 = a"
    "(262144 * a + 4096 * b + 64 * c + d) div 4096 mod 64 = b"
    "(262144 * a + 4096 * b + 64 * c + d) div 64 mod 64 = c"
    "(262144 * a + 4096 * b + 64 * c + d) mod 64 = d"
    by (simp_all only: four div_262144 div_4096 base)
qed

section \<open>Encoding what was decoded\<close>

lemma seq_width_cases [case_names ascii two three four invalid]:
  obtains "b < 0x80" "seq_width b = 1"
  | a where "b = 0xC0 + a" "2 \<le> a" "a < 32" "seq_width b = 2"
  | a where "b = 0xE0 + a" "a < 16" "seq_width b = 3"
  | a where "b = 0xF0 + a" "a < 5" "seq_width b = 4"
  | "seq_width b = 0"
proof -
  consider "b < 0x80" | "0xC2 \<le> b" "b \<le> 0xDF" | "0xE0 \<le> b" "b \<le> 0xEF" | "0xF0 \<le> b" "b \<le> 0xF4"
    | "0x80 \<le> b" "b < 0xC2" | "0xF4 < b"
    by linarith
  then show thesis
  proof cases
    case 2
    then show thesis
      using that(2) [of "b - 0xC0"] by (simp add: seq_width_def)
  next
    case 3
    then show thesis
      using that(3) [of "b - 0xE0"] by (simp add: seq_width_def)
  next
    case 4
    then show thesis
      using that(4) [of "b - 0xF0"] by (simp add: seq_width_def)
  qed (use that(1,5) in \<open>simp_all add: seq_width_def\<close>)
qed

lemma continuationE:
  assumes "continuation b"
  obtains x where "b = 0x80 + x" "x < 64"
  using assms that [of "b - 0x80"] by (auto simp: continuation_def)

lemma accept_continuation: "accept_range b0 b1 \<Longrightarrow> continuation b1"
  by (auto simp: accept_range_def continuation_def split: if_splits)

lemma list_of_length:
  "length xs = Suc 0 \<longleftrightarrow> (\<exists>a. xs = [a])" "length xs = Suc (Suc 0) \<longleftrightarrow> (\<exists>a b. xs = [a, b])"
  "length xs = Suc (Suc (Suc 0)) \<longleftrightarrow> (\<exists>a b c. xs = [a, b, c])"
  by (auto simp: length_Suc_conv)

lemma EncodeRune_two:
  assumes "2 \<le> a" "a < 32" "continuation b1"
  shows "EncodeRune (rune_of (0xC0 + a) [b1]) = map char_of [0xC0 + a, b1]"
proof -
  from assms obtain x where "b1 = 0x80 + x" "x < 64"
    by (auto elim: continuationE)
  with assms show ?thesis
    by (simp add: rune_of_def lead_mod EncodeRune_def unsplit)
qed

lemma EncodeRune_three:
  assumes "a < 16" "accept_range (0xE0 + a) b1" "continuation b2"
  shows "EncodeRune (rune_of (0xE0 + a) [b1, b2]) = map char_of [0xE0 + a, b1, b2]"
proof -
  from assms obtain x y where b: "b1 = 0x80 + x" "x < 64" "b2 = 0x80 + y" "y < 64"
    by (metis accept_continuation continuationE)
  define r where "r = 4096 * a + 64 * x + y"
  from assms b have x: "a = 0 \<Longrightarrow> 32 \<le> x" "a = 13 \<Longrightarrow> x < 32"
    by (auto simp: accept_range_def)
  then consider "a = 0" "32 \<le> x" | "0 < a" "a < 13" | "a = 13" "x < 32" | "13 < a"
    by linarith
  then have "0x800 \<le> r \<and> \<not> surrogate r"
    unfolding r_def surrogate_def using b(2,4) by cases linarith+
  moreover have "r < 0x10000"
    unfolding r_def using assms(1) b(2,4) by linarith
  moreover have "r div 4096 = a" "r div 64 mod 64 = x" "r mod 64 = y"
    unfolding r_def using b by (simp_all add: unsplit)
  moreover have "rune_of (0xE0 + a) [b1, b2] = r"
    using assms(1) b by (simp add: rune_of_def lead_mod r_def)
  ultimately show ?thesis
    using b by (simp add: EncodeRune_def encode3_def MaxRune_def)
qed

lemma EncodeRune_four:
  assumes "a < 5" "accept_range (0xF0 + a) b1" "continuation b2" "continuation b3"
  shows "EncodeRune (rune_of (0xF0 + a) [b1, b2, b3]) = map char_of [0xF0 + a, b1, b2, b3]"
proof -
  from assms obtain x y z
    where b: "b1 = 0x80 + x" "x < 64" "b2 = 0x80 + y" "y < 64" "b3 = 0x80 + z" "z < 64"
    by (metis accept_continuation continuationE)
  define r where "r = 262144 * a + 4096 * x + 64 * y + z"
  from assms b have "a = 0 \<Longrightarrow> 16 \<le> x" "a = 4 \<Longrightarrow> x < 16"
    by (auto simp: accept_range_def)
  then consider "a = 0" "16 \<le> x" | "0 < a" "a < 4" | "a = 4" "x < 16"
    using assms(1) by linarith
  then have "0x10000 \<le> r \<and> r \<le> MaxRune"
    unfolding r_def MaxRune_def using b(2,4,6) by cases linarith+
  moreover have "r div 262144 = a" "r div 4096 mod 64 = x" "r div 64 mod 64 = y" "r mod 64 = z"
    unfolding r_def using b by (simp_all add: unsplit)
  moreover have "rune_of (0xF0 + a) [b1, b2, b3] = r"
    using assms(1) b by (simp add: rune_of_def lead_mod r_def)
  ultimately show ?thesis
    using b by (simp add: EncodeRune_def surrogate_def MaxRune_def)
qed

lemma DecodeRune_multi:
  assumes "seq_width (byte c) = Suc k" "0 < k" "DecodeRune (c # cs) \<noteq> (RuneError, 1)"
  shows "k \<le> length cs" "accept_range (byte c) (byte (hd cs))"
    "list_all continuation (map byte (tl (take k cs)))"
    "DecodeRune (c # cs) = (rune_of (byte c) (map byte (take k cs)), Suc k)"
proof -
  from assms show "k \<le> length cs"
    by (auto simp: DecodeRune_def Let_def split: if_splits)
  with assms(2) have "hd (map byte (take k cs)) = byte (hd cs)"
    by (cases cs) (auto simp: hd_map)
  with assms show "accept_range (byte c) (byte (hd cs))" "list_all continuation (map byte (tl (take k cs)))"
    "DecodeRune (c # cs) = (rune_of (byte c) (map byte (take k cs)), Suc k)"
    by (auto simp: DecodeRune_def Let_def map_tl split: if_splits)
qed

lemma char_of_lead: "byte c = k \<Longrightarrow> char_of k = c"
  by auto

lemma EncodeRune_DecodeRune:
  assumes "DecodeRune (c # cs) = (r, n)" "(r, n) \<noteq> (RuneError, 1)"
  shows "EncodeRune r = c # take (n - 1) cs \<and> n = Suc (length (take (n - 1) cs))"
proof (cases "byte c" rule: seq_width_cases)
  case ascii
  with assms show ?thesis
    by (auto simp: DecodeRune_ascii EncodeRune_def)
next
  case (two a)
  from DecodeRune_multi [of c 1 cs] assms two obtain c1 cs'
    where "cs = c1 # cs'" "accept_range (byte c) (byte c1)" "r = rune_of (byte c) [byte c1]" "n = 2"
    by (auto simp: Suc_le_length_iff)
  with two show ?thesis
    using EncodeRune_two [of a "byte c1"] by (auto dest: accept_continuation simp: char_of_lead)
next
  case (three a)
  from DecodeRune_multi [of c 2 cs] assms three obtain c1 c2 cs'
    where "cs = c1 # c2 # cs'" "accept_range (byte c) (byte c1)" "continuation (byte c2)"
      "r = rune_of (byte c) [byte c1, byte c2]" "n = 3"
    by (auto simp: Suc_le_length_iff numeral_2_eq_2)
  with three show ?thesis
    using EncodeRune_three [of a "byte c1" "byte c2"] by (auto simp: char_of_lead)
next
  case (four a)
  from DecodeRune_multi [of c 3 cs] assms four obtain c1 c2 c3 cs'
    where "cs = c1 # c2 # c3 # cs'" "accept_range (byte c) (byte c1)" "continuation (byte c2)" "continuation (byte c3)"
      "r = rune_of (byte c) [byte c1, byte c2, byte c3]" "n = 4"
    by (auto simp: Suc_le_length_iff numeral_3_eq_3)
  with four show ?thesis
    using EncodeRune_four [of a "byte c1" "byte c2" "byte c3"] by (auto simp: char_of_lead)
next
  case invalid
  with assms show ?thesis
    by (simp add: DecodeRune_def)
qed

section \<open>Well-formed strings\<close>

lemma EncodeRune_not_Nil [simp]: "EncodeRune r \<noteq> []"
  by (simp add: EncodeRune_def encode3_def)

lemma scalar_RuneError: "scalar r = RuneError \<Longrightarrow> length (EncodeRune r) = 3"
  by (auto simp: scalar_def EncodeRune_def encode3_def RuneError_def surrogate_def MaxRune_def
      split: if_splits)

lemma Valid_EncodeRune [simp]: "Valid (EncodeRune r @ ys) = Valid ys"
proof -
  obtain c cs where enc: "EncodeRune r = c # cs"
    by (cases "EncodeRune r") simp_all
  then have "DecodeRune (c # cs @ ys) = (scalar r, Suc (length cs))"
    using DecodeRune_EncodeRune [of r ys] by simp
  moreover have "scalar r = RuneError \<Longrightarrow> length cs = 2"
    using scalar_RuneError [of r] enc by simp
  ultimately show ?thesis
    unfolding enc by (auto simp: Valid.simps(2))
qed

lemma Valid_append: "Valid xs \<Longrightarrow> Valid (xs @ ys) = Valid ys"
proof (induction xs rule: Valid.induct)
  case (2 c cs)
  obtain r n where d: "DecodeRune (c # cs) = (r, n)"
    by (cases "DecodeRune (c # cs)")
  with "2.prems" have "EncodeRune r = c # take (n - 1) cs" "Valid (drop (n - 1) cs)"
    using EncodeRune_DecodeRune [of c cs r n] by (simp_all add: Valid.simps(2))
  then have "Valid ((c # cs) @ ys) = Valid (EncodeRune r @ drop (n - 1) cs @ ys)"
    by (metis append_Cons append_assoc append_take_drop_id)
  with 2 d show ?case
    by (simp del: append_Cons add: Valid.simps(2))
qed simp

lemma EncodeRune_scalar [simp]: "EncodeRune (scalar r) = EncodeRune r"
  by (auto simp: scalar_def EncodeRune_def RuneError_def surrogate_def MaxRune_def)

lemma scalar_idem [simp]: "scalar (scalar r) = scalar r"
  by (simp add: scalar_def RuneError_def surrogate_def MaxRune_def)

lemma EncodeRune_ascii: "r < 0x80 \<Longrightarrow> EncodeRune r = [char_of r]"
  by (simp add: EncodeRune_def)

text \<open>Valid strings are the concatenations of encoded scalar values.\<close>

lemma Valid_induct [consumes 1, case_names Nil rune]:
  assumes "Valid s" and "P []"
    and "\<And>r ys. scalar r = r \<Longrightarrow> Valid ys \<Longrightarrow> P ys \<Longrightarrow> P (EncodeRune r @ ys)"
  shows "P s"
  using assms(1)
proof (induction s rule: Valid.induct)
  case (2 c cs)
  obtain r n where d: "DecodeRune (c # cs) = (r, n)"
    by (cases "DecodeRune (c # cs)")
  with "2.prems" have enc: "EncodeRune r = c # take (n - 1) cs" and tl: "Valid (drop (n - 1) cs)"
    using EncodeRune_DecodeRune [of c cs r n] by (simp_all add: Valid.simps(2))
  then have "c # cs = EncodeRune r @ drop (n - 1) cs"
    by simp
  moreover have "scalar r = r"
    using DecodeRune_EncodeRune [of r "drop (n - 1) cs"] d calculation by simp
  ultimately show ?case
    using 2 d tl assms(3) [of r "drop (n - 1) cs"] by simp 
qed (rule assms(2))

section \<open>What a decoded rune is\<close>

lemma length_EncodeRune: "length (EncodeRune r) \<le> 4"
  by (simp add: EncodeRune_def encode3_def)

lemma scalar_range: "scalar r = r \<Longrightarrow> r \<le> MaxRune \<and> \<not> surrogate r"
  using RuneError_range by (auto simp: scalar_def RuneError_def MaxRune_def split: if_splits)

text \<open>
  \<^verbatim>\<open>utf8.DecodeRune\<close> on a non-empty input takes at least one byte,
  at most four and never more than there are, and the rune it returns is a
  Unicode scalar value: at most U+10FFFF and no surrogate, whatever the bytes.
\<close>

lemma DecodeRune_bounds:
  assumes "p \<noteq> []"
  shows "1 \<le> snd (DecodeRune p) \<and> snd (DecodeRune p) \<le> 4 \<and> snd (DecodeRune p) \<le> length p \<and>
         fst (DecodeRune p) \<le> MaxRune \<and> \<not> surrogate (fst (DecodeRune p))"
proof -
  from assms obtain c cs where p: "p = c # cs"
    by (cases p) auto
  obtain r n where d: "DecodeRune (c # cs) = (r, n)"
    by (cases "DecodeRune (c # cs)")
  show ?thesis
  proof (cases "(r, n) = (RuneError, 1)")
    case True
    with p d RuneError_range show ?thesis
      by (simp add: RuneError_def MaxRune_def)
  next
    case False
    with d have enc: "EncodeRune r = c # take (n - 1) cs" and n: "n = Suc (length (take (n - 1) cs))"
      using EncodeRune_DecodeRune [of c cs r n] by simp_all
    then have "c # cs = EncodeRune r @ drop (n - 1) cs"
      by simp
    with d have "scalar r = r"
      using DecodeRune_EncodeRune [of r "drop (n - 1) cs"] by simp
    moreover from enc n have "n = length (EncodeRune r)"
      by simp
    ultimately show ?thesis
      using p d n length_EncodeRune [of r] by (auto dest: scalar_range)
  qed
qed

lemma DecodeRune_bounds_example:
  "DecodeRune [CHR 0xE2, CHR 0x82, CHR 0xAC, CHR ''!''] = (0x20AC, 3) \<and>
   DecodeRune [CHR 0xED, CHR 0xA0, CHR 0x80] = (RuneError, 1)"
  using DecodeRune_bounds [of "[CHR 0xE2, CHR 0x82, CHR 0xAC, CHR ''!'']"]
    DecodeRune_bounds [of "[CHR 0xED, CHR 0xA0, CHR 0x80]"]
  by (simp add: utf8_defs continuation_def rune_of_def)

end
