(* ===== verification/Json_Lexer.thy ===== *)
theory Json_Lexer
  imports Json Utf8
begin

text \<open>
  The first half of the decoder of \<^verbatim>\<open>encoding/json\<close>, which the handler calls
  on the bytes it has read: the split of the input into tokens. The scanner of
  the standard library reads one byte at a time; what it accepts between two
  values is fixed by the grammar of JSON, so this theory reads a whole token at
  a time: the six punctuation marks, the three literal names, a string (scanned
  to its closing quote with every escape checked, then unquoted as the
  library's \<^verbatim>\<open>unquote\<close> does) and a number (the longest prefix the number
  grammar allows). White space is the four characters the library skips. The
  standard library is not part of the sources; the definitions follow its
  documented behaviour. A printer of tokens serves as the specification: the
  lemmas show that printed tokens are read back, and that every token read
  from any input is well formed.
\<close>

section \<open>Tokens\<close>

text \<open>
  A string token carries the unquoted bytes, a number token the literal as
  written (its conversion to a \<^verbatim>\<open>float64\<close> is in theory \<open>Strconv\<close>).
\<close>

datatype token =
    LBrace | RBrace | LBracket | RBracket | Colon | Comma
  | TString string | TNumber string | TTrue | TFalse | TNull

abbreviation quote_mark :: char where
  "quote_mark \<equiv> CHR 0x22"

abbreviation backslash :: char where
  "backslash \<equiv> CHR 0x5C"

definition is_space :: "char \<Rightarrow> bool" where
  "is_space c \<longleftrightarrow> c = CHR '' '' \<or> c = CHR 0x09 \<or> c = CHR 0x0D \<or> c = CHR 0x0A"

definition is_digit :: "char \<Rightarrow> bool" where
  "is_digit c \<longleftrightarrow> 48 \<le> byte c \<and> byte c \<le> 57"

definition punct :: "char \<Rightarrow> token option" where
  "punct c =
     (if c = CHR ''{'' then Some LBrace else if c = CHR ''}'' then Some RBrace
      else if c = CHR ''['' then Some LBracket else if c = CHR '']'' then Some RBracket
      else if c = CHR '':'' then Some Colon else if c = CHR '','' then Some Comma else None)"

section \<open>String literals\<close>

text \<open>
  \<open>string_end\<close> is the scan of a string body: the number of bytes before the
  closing quote, or nothing when the body holds a control character, an
  escape the grammar does not know or no closing quote. \<open>unquote\<close> turns an
  accepted body into the bytes of the Go string: escapes are replaced, a pair
  of surrogate escapes becomes one code point, a lone surrogate and every
  ill-formed byte sequence becomes U+FFFD. The branches for malformed escapes,
  which the library reports as a failure and which the scan excludes, end the
  string.
\<close>

definition hex_val :: "char \<Rightarrow> nat option" where
  "hex_val c =
     (let k = byte c in
      if 48 \<le> k \<and> k \<le> 57 then Some (k - 48)
      else if 97 \<le> k \<and> k \<le> 102 then Some (k - 87)
      else if 65 \<le> k \<and> k \<le> 70 then Some (k - 55)
      else None)"

definition hex4 :: "string \<Rightarrow> rune option" where
  "hex4 s =
     (if length s < 4 then None
      else map_option (foldl (\<lambda>r d. r * 16 + d) 0) (those (map hex_val (take 4 s))))"

definition getu4 :: "string \<Rightarrow> rune option" where
  "getu4 s = (case s of b # u # ds \<Rightarrow> if b = backslash \<and> u = CHR ''u'' then hex4 ds else None | _ \<Rightarrow> None)"

definition simple_escape :: "char \<Rightarrow> bool" where
  "simple_escape e \<longleftrightarrow> e \<in> set [quote_mark, backslash, CHR ''/'', CHR ''b'', CHR ''f'', CHR ''n'', CHR ''r'', CHR ''t'']"

definition unescape :: "char \<Rightarrow> char" where
  "unescape e =
     (if e = CHR ''b'' then CHR 0x08 else if e = CHR ''f'' then CHR 0x0C
      else if e = CHR ''n'' then CHR 0x0A else if e = CHR ''r'' then CHR 0x0D
      else if e = CHR ''t'' then CHR 0x09 else e)"

fun string_end :: "string \<Rightarrow> nat option" where
  "string_end [] = None"
| "string_end (c # cs) =
     (if c = quote_mark then Some 0
      else if c = backslash then
        (case cs of
           [] \<Rightarrow> None
         | e # es \<Rightarrow>
             if simple_escape e then map_option (\<lambda>k. k + 2) (string_end es)
             else if e = CHR ''u'' \<and> hex4 es \<noteq> None
             then map_option (\<lambda>k. k + 6) (string_end (drop 4 es))
             else None)
      else if byte c < 0x20 then None
      else map_option Suc (string_end cs))"

fun unquote :: "string \<Rightarrow> string" where
  "unquote [] = []"
| "unquote (c # cs) =
     (if c = backslash then
        (case cs of
           [] \<Rightarrow> []
         | e # es \<Rightarrow>
             if e = CHR ''u'' then
               (case hex4 es of
                  None \<Rightarrow> []
                | Some r \<Rightarrow>
                    if surrogate r then
                      (let dec = utf16_DecodeRune r (getu4 (drop 4 es)) in
                       if dec \<noteq> RuneError then EncodeRune dec @ unquote (drop 10 es)
                       else EncodeRune RuneError @ unquote (drop 4 es))
                    else EncodeRune r @ unquote (drop 4 es))
             else if simple_escape e then unescape e # unquote es
             else [])
      else if byte c < 0x80 then c # unquote cs
      else EncodeRune (fst (DecodeRune (c # cs))) @ unquote (drop (snd (DecodeRune (c # cs)) - 1) cs))"

section \<open>Number literals\<close>

text \<open>
  The length of the number literal at the head of the input: an optional minus
  sign, an integer part without a leading zero, an optional fraction and an
  optional exponent, each of the latter two with at least one digit.
\<close>

definition digits_len :: "string \<Rightarrow> nat" where
  "digits_len s = length (takeWhile is_digit s)"

definition int_end :: "string \<Rightarrow> nat option" where
  "int_end s =
     (let i = digits_len s in if i = 0 \<or> (hd s = CHR ''0'' \<and> 1 < i) then None else Some i)"

definition frac_end :: "string \<Rightarrow> nat option" where
  "frac_end s =
     (case s of
        [] \<Rightarrow> Some 0
      | c # cs \<Rightarrow>
          if c = CHR ''.'' then (let f = digits_len cs in if f = 0 then None else Some (Suc f))
          else Some 0)"

definition sign_len :: "string \<Rightarrow> nat" where
  "sign_len s = (case s of [] \<Rightarrow> 0 | c # _ \<Rightarrow> if c = CHR ''+'' \<or> c = CHR ''-'' then 1 else 0)"

definition exp_end :: "string \<Rightarrow> nat option" where
  "exp_end s =
     (case s of
        [] \<Rightarrow> Some 0
      | c # cs \<Rightarrow>
          if c = CHR ''e'' \<or> c = CHR ''E''
          then (let m = sign_len cs; e = digits_len (drop m cs) in
                if e = 0 then None else Some (Suc (m + e)))
          else Some 0)"

definition minus_len :: "string \<Rightarrow> nat" where
  "minus_len s = (case s of [] \<Rightarrow> 0 | c # _ \<Rightarrow> if c = CHR ''-'' then 1 else 0)"

definition number_end :: "string \<Rightarrow> nat option" where
  "number_end s =
     (let m = minus_len s in
      case int_end (drop m s) of
        None \<Rightarrow> None
      | Some i \<Rightarrow>
          (case frac_end (drop (m + i) s) of
             None \<Rightarrow> None
           | Some f \<Rightarrow> map_option (\<lambda>e. m + i + f + e) (exp_end (drop (m + i + f) s))))"

section \<open>The lexer\<close>

text \<open>
  The result is \<open>None\<close> as soon as a byte can start no token, which the
  library reports as a syntax error.
\<close>

definition literal :: "string \<Rightarrow> (token \<times> nat) option" where
  "literal s =
     (if take 4 s = ''true'' then Some (TTrue, 4)
      else if take 5 s = ''false'' then Some (TFalse, 5)
      else if take 4 s = ''null'' then Some (TNull, 4)
      else map_option (\<lambda>k. (TNumber (take k s), k)) (number_end s))"

fun tokenize :: "string \<Rightarrow> token list option" where
  "tokenize [] = Some []"
| "tokenize (c # cs) =
     (if is_space c then tokenize cs
      else if punct c \<noteq> None then map_option (Cons (the (punct c))) (tokenize cs)
      else if c = quote_mark then
        (case string_end cs of
           None \<Rightarrow> None
         | Some k \<Rightarrow> map_option (Cons (TString (unquote (take k cs)))) (tokenize (drop (Suc k) cs)))
      else
        (case literal (c # cs) of
           None \<Rightarrow> None
         | Some (t, k) \<Rightarrow> map_option (Cons t) (tokenize (drop (k - 1) cs))))"

section \<open>Printing tokens\<close>

text \<open>
  The printer escapes the quotation mark, the backslash and the control
  characters and writes every other byte as it is.
\<close>

definition quote_char :: "char \<Rightarrow> string" where
  "quote_char c =
     (if c = quote_mark \<or> c = backslash then [backslash, c]
      else if byte c < 0x20
      then [backslash, CHR ''u'', CHR ''0'', CHR ''0'', hex_digit (byte c div 16), hex_digit (byte c mod 16)]
      else [c])"

definition quote :: "string \<Rightarrow> string" where
  "quote s = concat (map quote_char s)"

fun render :: "token \<Rightarrow> string" where
  "render LBrace = ''{''"
| "render RBrace = ''}''"
| "render LBracket = ''[''"
| "render RBracket = '']''"
| "render Colon = '':''"
| "render Comma = '',''"
| "render (TString s) = quote_mark # quote s @ [quote_mark]"
| "render (TNumber n) = n"
| "render TTrue = ''true''"
| "render TFalse = ''false''"
| "render TNull = ''null''"

section \<open>Well-formed tokens\<close>

text \<open>
  What the lemmas below need to say of tokens: a string token holds
  well-formed UTF-8 and a number token holds exactly one number literal
  (\<open>token_ok\<close>); where a number is printed, the next token is a comma or a
  closing bracket (\<open>spaced\<close>), so that the digits of the number end where the
  token ends (\<open>stops\<close>).
\<close>

fun token_ok :: "token \<Rightarrow> bool" where
  "token_ok (TString s) = Valid s"
| "token_ok (TNumber n) = (number_end n = Some (length n))"
| "token_ok _ = True"

fun closer :: "token \<Rightarrow> bool" where
  "closer Comma = True"
| "closer RBracket = True"
| "closer RBrace = True"
| "closer _ = False"

fun is_number :: "token \<Rightarrow> bool" where
  "is_number (TNumber n) = True"
| "is_number _ = False"

definition closing :: "token list \<Rightarrow> bool" where
  "closing ts \<longleftrightarrow> (case ts of [] \<Rightarrow> True | t # _ \<Rightarrow> closer t)"

fun spaced :: "token list \<Rightarrow> bool" where
  "spaced [] = True"
| "spaced (t # ts) = ((is_number t \<longrightarrow> closing ts) \<and> spaced ts)"

abbreviation renders :: "token list \<Rightarrow> string" where
  "renders ts \<equiv> concat (map render ts)"

definition stops :: "string \<Rightarrow> bool" where
  "stops rest \<longleftrightarrow>
     (case rest of [] \<Rightarrow> True | c # _ \<Rightarrow> \<not> is_digit c \<and> c \<noteq> CHR ''.'' \<and> c \<noteq> CHR ''e'' \<and> c \<noteq> CHR ''E'')"

section \<open>Strings: scanning and unquoting what was quoted\<close>

lemma quote_simps [simp]: "quote [] = []" "quote (c # cs) = quote_char c @ quote cs"
  "quote (xs @ ys) = quote xs @ quote ys"
  by (simp_all add: quote_def)

lemma hex_val_hex_digit [simp]: "d < 16 \<Longrightarrow> hex_val (hex_digit d) = Some d"
  by (simp add: hex_val_def hex_digit_def)

lemma hex4_control:
  "byte c < 0x20 \<Longrightarrow>
     hex4 (CHR ''0'' # CHR ''0'' # hex_digit (byte c div 16) # hex_digit (byte c mod 16) # X) =
       Some (byte c)"
  by (simp add: hex4_def hex_val_def [of "CHR ''0''"])

lemma string_end_quote_char:
  "string_end (quote_char c @ X) = map_option (\<lambda>k. k + length (quote_char c)) (string_end X)"
  by (auto simp: quote_char_def simple_escape_def hex4_control option.map_comp comp_def
      intro!: option.map_cong)

lemma string_end_quote: "string_end (quote s @ quote_mark # rest) = Some (length (quote s))"
  by (induction s) (simp_all add: string_end_quote_char)


lemma unquote_quote_char:
  assumes "byte c < 0x80"
  shows "unquote (quote_char c @ X) = c # unquote X"
proof -
  have "EncodeRune (byte c) = [c]" "\<not> surrogate (byte c)" if "byte c < 0x20"
    using that by (simp_all add: EncodeRune_ascii surrogate_def)
  with assms show ?thesis
    by (auto simp: quote_char_def unescape_def simple_escape_def hex4_control)
qed

lemma unquote_EncodeRune:
  assumes "0x80 \<le> r"
  shows "unquote (EncodeRune r @ X) = EncodeRune r @ unquote X"
proof -
  obtain c cs where enc: "EncodeRune r = c # cs"
    by (cases "EncodeRune r") simp_all
  with assms have "0x80 \<le> byte c"
    using EncodeRune_high [of r] by simp
  moreover have "DecodeRune (c # cs @ X) = (scalar r, Suc (length cs))"
    using DecodeRune_EncodeRune [of r X] enc by simp
  ultimately show ?thesis
    using EncodeRune_scalar [of r] unfolding enc by auto
qed

lemma quote_high: "list_all (\<lambda>c. 0x80 \<le> byte c) xs \<Longrightarrow> quote xs = xs"
  by (induction xs) (auto simp: quote_char_def)

lemma unquote_quote: "Valid s \<Longrightarrow> unquote (quote s) = s"
proof (induction s rule: Valid_induct)
  case (rune r ys)
  show ?case
  proof (cases "r < 0x80")
    case True
    with rune show ?thesis
      by (simp add: EncodeRune_ascii unquote_quote_char)
  next
    case False
    with rune show ?thesis
      by (simp add: quote_high EncodeRune_high unquote_EncodeRune)
  qed
qed simp

lemma Valid_unquote [simp]: "Valid (unquote s)"
  by (induction s rule: unquote.induct)
    (auto simp: unescape_def simple_escape_def Let_def split: list.splits option.splits)


section \<open>Numbers: what the scan depends on\<close>

lemma digits_len_simps [simp]:
  "digits_len [] = 0" "digits_len (c # cs) = (if is_digit c then Suc (digits_len cs) else 0)"
  by (simp_all add: digits_len_def)

lemma digits_len_le: "digits_len s \<le> length s"
  by (induction s) simp_all

lemma digits_len_take: "digits_len (take j s) = min j (digits_len s)"
  by (induction s arbitrary: j) (auto simp: take_Cons' )

lemma digits_len_append: "stops rest \<Longrightarrow> digits_len (xs @ rest) = digits_len xs"
  by (induction xs) (auto simp: stops_def split: list.splits)

lemma int_end_Some: "int_end s = Some i \<Longrightarrow> 0 < i \<and> i \<le> length s"
  using digits_len_le [of s] by (auto simp: int_end_def Let_def split: if_splits)

lemma int_end_take: "int_end s = Some i \<Longrightarrow> i \<le> j \<Longrightarrow> int_end (take j s) = Some i"
  by (cases s) (auto simp: int_end_def Let_def digits_len_take take_Cons' split: if_splits)

lemma int_end_append: "int_end s = Some i \<Longrightarrow> stops rest \<Longrightarrow> int_end (s @ rest) = Some i"
  by (cases s) (auto simp: int_end_def Let_def digits_len_append split: if_splits)

lemma frac_end_Some: "frac_end s = Some f \<Longrightarrow> f \<le> length s"
  using digits_len_le [of "tl s"] by (auto simp: frac_end_def Let_def split: list.splits if_splits)

lemma frac_end_take: "frac_end s = Some f \<Longrightarrow> f \<le> j \<Longrightarrow> frac_end (take j s) = Some f"
  by (cases s; cases j)
    (auto simp: frac_end_def Let_def digits_len_take split: if_splits)

lemma frac_end_append: "frac_end s = Some f \<Longrightarrow> stops rest \<Longrightarrow> frac_end (s @ rest) = Some f"
  by (cases s)
    (auto simp: frac_end_def Let_def digits_len_append stops_def split: if_splits list.splits)


lemma sign_len_le: "sign_len s \<le> 1"
  by (simp add: sign_len_def split: list.split)

lemma exp_end_Some: "exp_end s = Some e \<Longrightarrow> e \<le> length s"
proof (cases s)
  case (Cons c cs)
  assume "exp_end s = Some e"
  with Cons show ?thesis
    using digits_len_le [of "drop (sign_len cs) cs"]
    by (auto simp: exp_end_def Let_def split: if_splits)
qed (simp add: exp_end_def)

lemma exp_end_take: "exp_end s = Some e \<Longrightarrow> e \<le> j \<Longrightarrow> exp_end (take j s) = Some e"
  by (cases s; cases j)
    (auto simp: exp_end_def Let_def digits_len_take drop_take sign_len_def take_Cons'
      split: if_splits list.splits)

lemma exp_end_append: "exp_end s = Some e \<Longrightarrow> stops rest \<Longrightarrow> exp_end (s @ rest) = Some e"
  by (cases s)
    (auto simp: exp_end_def Let_def digits_len_append stops_def sign_len_def
      split: if_splits list.splits)

lemma number_end_stages:
  "number_end s = Some k \<longleftrightarrow>
     (\<exists>i f e. int_end (drop (minus_len s) s) = Some i
        \<and> frac_end (drop (minus_len s + i) s) = Some f
        \<and> exp_end (drop (minus_len s + i + f) s) = Some e \<and> k = minus_len s + i + f + e)"
  by (auto simp: number_end_def Let_def split: option.splits)


lemma minus_len_take: "0 < j \<Longrightarrow> minus_len (take j s) = minus_len s"
  and minus_len_append: "s \<noteq> [] \<Longrightarrow> minus_len (s @ rest) = minus_len s"
  and minus_len_le: "minus_len s \<le> length s"
  by (cases s; cases j; simp add: minus_len_def)+

lemma number_end_Some:
  assumes "number_end s = Some k"
  shows "0 < k" "k \<le> length s"
proof -
  from assms obtain i f e
    where "int_end (drop (minus_len s) s) = Some i" "frac_end (drop (minus_len s + i) s) = Some f"
      "exp_end (drop (minus_len s + i + f) s) = Some e" "k = minus_len s + i + f + e"
    by (auto simp: number_end_stages)
  then show "0 < k" "k \<le> length s"
    using int_end_Some [of "drop (minus_len s) s" i] frac_end_Some [of "drop (minus_len s + i) s" f]
      exp_end_Some [of "drop (minus_len s + i + f) s" e]
    by auto
qed

lemma number_end_take:
  assumes "number_end s = Some k"
  shows "number_end (take k s) = Some k"
proof -
  let ?m = "minus_len s"
  from assms obtain i f e
    where stages: "int_end (drop ?m s) = Some i" "frac_end (drop (?m + i) s) = Some f"
      "exp_end (drop (?m + i + f) s) = Some e" and k: "k = ?m + i + f + e"
    by (auto simp: number_end_stages)
  from assms have "minus_len (take k s) = ?m"
    by (simp add: minus_len_take number_end_Some)
  moreover have "int_end (take (k - ?m) (drop ?m s)) = Some i"
    "frac_end (take (k - (?m + i)) (drop (?m + i) s)) = Some f"
    "exp_end (take (k - (?m + i + f)) (drop (?m + i + f) s)) = Some e"
    using stages k by (simp_all add: int_end_take frac_end_take exp_end_take)
  ultimately show ?thesis
    using k by (simp add: number_end_stages drop_take)
qed

lemma number_end_append:
  assumes "number_end s = Some k" "stops rest"
  shows "number_end (s @ rest) = Some k"
proof -
  let ?m = "minus_len s"
  from assms obtain i f e
    where stages: "int_end (drop ?m s) = Some i" "frac_end (drop (?m + i) s) = Some f"
      "exp_end (drop (?m + i + f) s) = Some e" and k: "k = ?m + i + f + e"
    by (auto simp: number_end_stages)
  from assms have "s \<noteq> []"
    using number_end_Some [of s k] by auto
  then have "minus_len (s @ rest) = ?m"
    by (rule minus_len_append)
  moreover have "?m + i + f \<le> length s"
    using exp_end_Some [OF stages(3)] k number_end_Some(2) [OF assms(1)] by simp
  ultimately show ?thesis
    using stages k assms(2)
    by (simp add: number_end_stages int_end_append frac_end_append exp_end_append)
qed


section \<open>Lexing what was printed\<close>

lemma number_first:
  assumes "number_end (c # cs) = Some k"
  shows "c = CHR ''-'' \<or> is_digit c"
  using assms
  by (auto simp: number_end_stages minus_len_def int_end_def Let_def split: if_splits)

lemma tokenize_punct [simp]:
  "tokenize (CHR ''{'' # s) = map_option (Cons LBrace) (tokenize s)"
  "tokenize (CHR ''}'' # s) = map_option (Cons RBrace) (tokenize s)"
  "tokenize (CHR ''['' # s) = map_option (Cons LBracket) (tokenize s)"
  "tokenize (CHR '']'' # s) = map_option (Cons RBracket) (tokenize s)"
  "tokenize (CHR '':'' # s) = map_option (Cons Colon) (tokenize s)"
  "tokenize (CHR '','' # s) = map_option (Cons Comma) (tokenize s)"
  by (simp_all add: is_space_def punct_def)

lemma tokenize_string:
  "Valid s \<Longrightarrow> tokenize (quote_mark # quote s @ quote_mark # rest) = map_option (Cons (TString s)) (tokenize rest)"
  by (simp add: is_space_def punct_def string_end_quote unquote_quote)

lemma tokenize_literal [simp]:
  "tokenize (CHR ''t'' # CHR ''r'' # CHR ''u'' # CHR ''e'' # rest) = map_option (Cons TTrue) (tokenize rest)"
  "tokenize (CHR ''f'' # CHR ''a'' # CHR ''l'' # CHR ''s'' # CHR ''e'' # rest) =
     map_option (Cons TFalse) (tokenize rest)"
  "tokenize (CHR ''n'' # CHR ''u'' # CHR ''l'' # CHR ''l'' # rest) = map_option (Cons TNull) (tokenize rest)"
  by (simp_all add: is_space_def punct_def literal_def)

lemma tokenize_number:
  assumes "number_end n = Some (length n)" "stops rest"
  shows "tokenize (n @ rest) = map_option (Cons (TNumber n)) (tokenize rest)"
proof -
  from assms(1) obtain c cs where n: "n = c # cs"
    using number_end_Some(1) [of n] by (cases n) auto
  with assms(1) have "c = CHR ''-'' \<or> is_digit c"
    using number_first by blast
  then have "\<not> is_space c" "punct c = None" "c \<noteq> quote_mark" "c \<noteq> CHR ''t''" "c \<noteq> CHR ''f''"
    "c \<noteq> CHR ''n''"
    by (auto simp: is_space_def punct_def is_digit_def)
  moreover have "number_end (c # cs @ rest) = Some (Suc (length cs))"
    using number_end_append [OF assms] n by simp
  ultimately show ?thesis
    by (simp add: n literal_def)
qed

declare tokenize.simps(2) [simp del]

lemma stops_renders: "closing ts \<Longrightarrow> stops (renders ts)"
proof (cases ts)
  case (Cons t ts')
  assume "closing ts"
  with Cons show ?thesis
    by (cases t) (simp_all add: closing_def stops_def is_digit_def)
qed (simp add: stops_def)

lemma tokenize_render:
  "token_ok t \<Longrightarrow> (is_number t \<Longrightarrow> stops rest) \<Longrightarrow>
     tokenize (render t @ rest) = map_option (Cons t) (tokenize rest)"
  by (cases t) (simp_all add: tokenize_number tokenize_string)

lemma tokenize_renders: "list_all token_ok ts \<Longrightarrow> spaced ts \<Longrightarrow> tokenize (renders ts) = Some ts"
  by (induction ts) (simp_all add: tokenize_render stops_renders)


section \<open>The tokens of any input\<close>

lemma literal_ok: "literal s = Some (t, k) \<Longrightarrow> token_ok t"
  using number_end_take [of s k] number_end_Some(2) [of s k]
  by (auto simp: literal_def split: if_splits)

lemma tokenize_tokens_ok: "tokenize s = Some ts \<Longrightarrow> list_all token_ok ts"
proof (induction s arbitrary: ts rule: tokenize.induct)
  case (2 c cs)
  then show ?case
    by (auto simp: tokenize.simps(2) literal_ok punct_def split: if_splits option.splits)
qed simp

end
