(* ===== verification/Json_Parser.thy ===== *)
theory Json_Parser
  imports Json_Lexer "HOL-Library.AList"
begin

text \<open>
  The second half of the decoder of \<^verbatim>\<open>encoding/json\<close>: from tokens to the value
  they denote. The library drives its decoder by a scanner with a stack of
  parse states; the parser here is that pushdown machine over tokens, with the
  values built so far kept in the stack. The scan states carry the names of
  the library's step functions (\<^verbatim>\<open>stateBeginValue\<close>, \<^verbatim>\<open>stateBeginValueOrEmpty\<close>,
  \<^verbatim>\<open>stateBeginStringOrEmpty\<close>, \<^verbatim>\<open>stateBeginString\<close>, \<^verbatim>\<open>stateEndValue\<close>,
  \<^verbatim>\<open>stateEndTop\<close>); \<open>EndKey\<close> is \<^verbatim>\<open>stateEndValue\<close> after an object key. A member
  of an object is stored as a Go map stores it: a later value for the same key
  replaces the earlier one. The limit on the depth of nesting that later
  versions of the library enforce (10000) is not modelled. The theory proves
  that the tokens printed for a well-formed value parse back to it, that
  \<open>decode\<close> inverts \<open>encode\<close>, and that whatever \<open>decode\<close> returns is well
  formed.
\<close>

section \<open>The state of the parser\<close>

text \<open>
  A frame is an array or an object under construction: the elements read so
  far, the members read so far, or the members and the key whose value is
  being read. \<open>complete\<close> hands a finished value to the frame on top of the
  stack, or ends the parse when the stack is empty; \<open>store\<close> is the
  assignment \<^verbatim>\<open>m[key] = value\<close> by which a member enters its object.
\<close>

datatype frame = InArray "iface list" | InObject pairs | InMember pairs string

definition store :: "pairs \<Rightarrow> string \<times> iface \<Rightarrow> pairs" where
  "store acc p = AList.update (fst p) (snd p) acc"

datatype scan =
    BeginValue | BeginValueOrEmpty | BeginStringOrEmpty | BeginString | EndKey | EndValue
  | EndTop iface

type_synonym pstate = "scan \<times> frame list"

fun complete :: "iface \<Rightarrow> frame list \<Rightarrow> pstate option" where
  "complete v [] = Some (EndTop v, [])"
| "complete v (InArray vs # st) = Some (EndValue, InArray (vs @ [v]) # st)"
| "complete v (InMember ps k # st) = Some (EndValue, InObject (store ps (k, v)) # st)"
| "complete v (InObject ps # st) = None"

fun begin_value :: "token \<Rightarrow> frame list \<Rightarrow> pstate option" where
  "begin_value LBrace st = Some (BeginStringOrEmpty, InObject [] # st)"
| "begin_value LBracket st = Some (BeginValueOrEmpty, InArray [] # st)"
| "begin_value (TString s) st = complete (GoString s) st"
| "begin_value (TNumber n) st = complete (GoFloat64 n) st"
| "begin_value TTrue st = complete (GoBool True) st"
| "begin_value TFalse st = complete (GoBool False) st"
| "begin_value TNull st = complete GoNil st"
| "begin_value _ st = None"

fun begin_key :: "token \<Rightarrow> frame list \<Rightarrow> pstate option" where
  "begin_key (TString k) (InObject ps # st) = Some (EndKey, InMember ps k # st)"
| "begin_key _ _ = None"

fun end_value :: "token \<Rightarrow> frame list \<Rightarrow> pstate option" where
  "end_value Comma (InArray vs # st) = Some (BeginValue, InArray vs # st)"
| "end_value Comma (InObject ps # st) = Some (BeginString, InObject ps # st)"
| "end_value RBracket (InArray vs # st) = complete (GoSlice vs) st"
| "end_value RBrace (InObject ps # st) = complete (GoMap ps) st"
| "end_value _ _ = None"

fun step :: "token \<Rightarrow> pstate \<Rightarrow> pstate option" where
  "step t (BeginValue, st) = begin_value t st"
| "step t (BeginValueOrEmpty, st) = (if t = RBracket then end_value t st else begin_value t st)"
| "step t (BeginStringOrEmpty, st) = (if t = RBrace then end_value t st else begin_key t st)"
| "step t (BeginString, st) = begin_key t st"
| "step t (EndKey, st) = (if t = Colon then Some (BeginValue, st) else None)"
| "step t (EndValue, st) = end_value t st"
| "step t (EndTop v, st) = None"

fun run :: "token list \<Rightarrow> pstate \<Rightarrow> pstate option" where
  "run [] s = Some s"
| "run (t # ts) s = Option.bind (step t s) (run ts)"

definition parse :: "token list \<Rightarrow> iface option" where
  "parse ts = (case run ts (BeginValue, []) of Some (EndTop v, _) \<Rightarrow> Some v | _ \<Rightarrow> None)"

definition decode :: "bytes \<Rightarrow> iface option" where
  "decode s = (case tokenize s of None \<Rightarrow> None | Some ts \<Rightarrow> parse ts)"

section \<open>Printing values\<close>

text \<open>
  The specification of the decoder is a printer: \<open>encode\<close> writes a value
  without white space. A value is well formed when its strings and keys are
  well-formed UTF-8, its numbers are number literals and the keys of each
  object are distinct.
\<close>

fun tokens_of :: "iface \<Rightarrow> token list" where
  "tokens_of GoNil = [TNull]"
| "tokens_of (GoBool b) = [if b then TTrue else TFalse]"
| "tokens_of (GoFloat64 n) = [TNumber n]"
| "tokens_of (GoString s) = [TString s]"
| "tokens_of (GoSlice vs) = LBracket # concat_sep [Comma] (map tokens_of vs) @ [RBracket]"
| "tokens_of (GoMap ps) =
     LBrace # concat_sep [Comma] (map (\<lambda>(k, v). TString k # Colon # tokens_of v) ps) @ [RBrace]"

definition encode :: "iface \<Rightarrow> bytes" where
  "encode v = concat (map render (tokens_of v))"

fun wf_value :: "iface \<Rightarrow> bool" where
  "wf_value (GoString s) = Valid s"
| "wf_value (GoFloat64 n) = (number_end n = Some (length n))"
| "wf_value (GoSlice vs) = (\<forall>v \<in> set vs. wf_value v)"
| "wf_value (GoMap ps) = (distinct (map fst ps) \<and> (\<forall>(k, v) \<in> set ps. Valid k \<and> wf_value v))"
| "wf_value _ = True"

text \<open>
  A printer is not bound to distinct keys. For a value whose objects repeat
  keys the decoder is to keep the last member of each key, in the place of
  the first. \<open>last_wins\<close> says so of a list of members without reference to
  the parser: the keys in the order of their first occurrence, each with the
  value of its last. \<open>norm\<close> is what is left of a value, and \<open>printable\<close> is
  what the decoder asks of the strings and numbers alone.
\<close>

fun printable :: "iface \<Rightarrow> bool" where
  "printable (GoString s) = Valid s"
| "printable (GoFloat64 n) = (number_end n = Some (length n))"
| "printable (GoSlice vs) = (\<forall>v \<in> set vs. printable v)"
| "printable (GoMap ps) = (\<forall>(k, v) \<in> set ps. Valid k \<and> printable v)"
| "printable _ = True"

definition last_wins :: "pairs \<Rightarrow> pairs" where
  "last_wins ps = map (\<lambda>k. (k, index (rev ps) k)) (rev (remdups (rev (map fst ps))))"

fun norm :: "iface \<Rightarrow> iface" where
  "norm (GoSlice vs) = GoSlice (map norm vs)"
| "norm (GoMap ps) = GoMap (last_wins (map (\<lambda>(k, v). (k, norm v)) ps))"
| "norm v = v"

text \<open>
  The tokens of one member of an object; the stacks on which a value can be
  completed and the states in which a value or a key can begin, for the
  statement of the lemmas.
\<close>

definition member_tokens :: "string \<times> iface \<Rightarrow> token list" where
  "member_tokens p = TString (fst p) # Colon # tokens_of (snd p)"

definition ready :: "frame list \<Rightarrow> bool" where
  "ready st \<longleftrightarrow> (case st of InObject _ # _ \<Rightarrow> False | _ \<Rightarrow> True)"

definition value_mode :: "scan \<Rightarrow> bool" where
  "value_mode m \<longleftrightarrow> m = BeginValue \<or> m = BeginValueOrEmpty"

definition key_mode :: "scan \<Rightarrow> bool" where
  "key_mode m \<longleftrightarrow> m = BeginString \<or> m = BeginStringOrEmpty"

section \<open>Well-formed states\<close>

text \<open>
  The invariant of the parser: every value it holds is well formed.
\<close>

fun frame_ok :: "frame \<Rightarrow> bool" where
  "frame_ok (InArray vs) = (\<forall>v \<in> set vs. wf_value v)"
| "frame_ok (InObject ps) = wf_value (GoMap ps)"
| "frame_ok (InMember ps k) = (wf_value (GoMap ps) \<and> Valid k)"

fun state_ok :: "pstate \<Rightarrow> bool" where
  "state_ok (EndTop v, st) = (wf_value v \<and> list_all frame_ok st)"
| "state_ok (m, st) = list_all frame_ok st"

section \<open>Parsing what was printed\<close>

lemma ready_simps [simp]:
  "ready []" "ready (InArray vs # st)" "ready (InMember ps k # st)" "\<not> ready (InObject ps # st)"
  by (simp_all add: ready_def)

lemma value_mode_simps [simp]: "value_mode BeginValue" "value_mode BeginValueOrEmpty"
  and key_mode_simps [simp]: "key_mode BeginString" "key_mode BeginStringOrEmpty"
  by (simp_all add: value_mode_def key_mode_def)

lemma run_Nil_bind [simp]: "Option.bind x (run []) = x"
  by (cases x) simp_all

lemma run_append: "run (xs @ ys) s = Option.bind (run xs s) (run ys)"
proof (induction xs arbitrary: s)
  case (Cons t xs)
  then show ?case
    by (cases "step t s") simp_all
qed simp

lemma update_fresh: "k \<notin> fst ` set ps \<Longrightarrow> AList.update k v ps = ps @ [(k, v)]"
  by (induction ps) auto

lemma tokens_of_GoMap:
  "tokens_of (GoMap ps) = LBrace # concat_sep [Comma] (map member_tokens ps) @ [RBrace]"
proof -
  have "(\<lambda>(k, v). TString k # Colon # tokens_of v) = member_tokens"
    by (auto simp: member_tokens_def)
  then show ?thesis
    by simp
qed

declare tokens_of.simps(6) [simp del]

lemma run_elements:
  assumes "\<And>v m st. v \<in> set vs \<Longrightarrow> ready st \<Longrightarrow> value_mode m \<Longrightarrow>
      run (tokens_of v) (m, st) = complete (f v) st"
    and "vs \<noteq> []" "value_mode m"
  shows "run (concat_sep [Comma] (map tokens_of vs)) (m, InArray acc # st) =
    Some (EndValue, InArray (acc @ map f vs) # st)"
  using assms(2,1,3)
proof (induction vs arbitrary: acc m rule: list_nonempty_induct)
  case (cons v vs)
  then obtain w ws where "vs = w # ws"
    by (cases vs) auto
  with cons show ?case
    by (simp add: run_append)
qed simp

lemma run_member:
  assumes "\<And>m st. ready st \<Longrightarrow> value_mode m \<Longrightarrow> run (tokens_of v) (m, st) = complete (f v) st"
    and "key_mode m"
  shows "run (member_tokens (k, v)) (m, InObject acc # st) =
    Some (EndValue, InObject (store acc (k, f v)) # st)"
  using assms by (auto simp: member_tokens_def key_mode_def)

lemma run_members:
  assumes "\<And>k v m st. (k, v) \<in> set ps \<Longrightarrow> ready st \<Longrightarrow> value_mode m \<Longrightarrow>
      run (tokens_of v) (m, st) = complete (f v) st"
    and "ps \<noteq> []" "key_mode m"
  shows "run (concat_sep [Comma] (map member_tokens ps)) (m, InObject acc # st) =
    Some (EndValue, InObject (foldl store acc (map (\<lambda>(k, v). (k, f v)) ps)) # st)"
  using assms(2,1,3)
proof (induction ps arbitrary: acc m rule: list_nonempty_induct)
  case (single p)
  then show ?case
    using run_member [of "snd p" f m "fst p" acc st] by (cases p) auto
next
  case (cons p ps)
  obtain q qs where ps: "ps = q # qs"
    using cons.hyps by (cases ps) auto
  from cons.prems have "run (member_tokens p) (m, InObject acc # st) =
      Some (EndValue, InObject (store acc (fst p, f (snd p))) # st)"
    using run_member [of "snd p" f m "fst p" acc st] by (cases p) auto
  moreover from cons.prems have "run (concat_sep [Comma] (map member_tokens ps))
      (BeginString, InObject (store acc (fst p, f (snd p))) # st) =
      Some (EndValue,
        InObject (foldl store (store acc (fst p, f (snd p))) (map (\<lambda>(k, v). (k, f v)) ps)) # st)"
    by (intro cons.IH) auto
  ultimately show ?case
    unfolding ps split_beta by (simp add: run_append)
qed

text \<open>
  Storing the members in turn leaves what \<open>last_wins\<close> describes: one more
  member replaces the value of its key where the key stands, or comes last
  when the key is new.
\<close>

lemma map_upd_other:
  "k \<notin> set xs \<Longrightarrow> map (\<lambda>x. (x, if x = k then v else f x)) xs = map (\<lambda>x. (x, f x)) xs"
  by (induction xs) auto

lemma update_keyed:
  "distinct xs \<Longrightarrow> AList.update k v (map (\<lambda>x. (x, f x)) xs) =
     (if k \<in> set xs then map (\<lambda>x. (x, (f(k := v)) x)) xs else map (\<lambda>x. (x, f x)) xs @ [(k, v)])"
  by (induction xs) (auto simp: map_upd_other)

lemma index_upd: "index ((k, v) # ps) = (index ps)(k := v)"
  by (simp add: fun_eq_iff)

lemma last_wins_snoc: "last_wins (ps @ [p]) = store (last_wins ps) p"
  by (cases p) (simp add: last_wins_def store_def update_keyed index_upd map_upd_other)

lemma last_wins_Nil [simp]: "last_wins [] = []"
  by (simp add: last_wins_def)

lemma store_all_last_wins: "foldl store [] ps = last_wins ps"
  by (induction ps rule: rev_induct) (simp_all add: last_wins_snoc)

theorem run_tokens_of:
  "printable v \<Longrightarrow> ready st \<Longrightarrow> value_mode m \<Longrightarrow> run (tokens_of v) (m, st) = complete (norm v) st"
proof (induction v arbitrary: m st)
  case (GoSlice vs)
  then show ?case
    using run_elements [of vs norm _ "[]" st]
    by (cases "vs = []") (auto simp: value_mode_def run_append)
next
  case (GoMap ps)
  then have "run (tokens_of v) (m, st) = complete (norm v) st"
    if "(k, v) \<in> set ps" "ready st" "value_mode m" for k v m st
    using that by (auto simp: snds.simps)
  with GoMap.prems show ?case
    using run_members [of ps norm BeginStringOrEmpty "[]" st]
    by (cases "ps = []")
       (auto simp: value_mode_def tokens_of_GoMap run_append store_all_last_wins last_wins_def)
qed (auto simp: value_mode_def)

lemma parse_tokens_norm: "printable v \<Longrightarrow> parse (tokens_of v) = Some (norm v)"
  by (simp add: parse_def run_tokens_of)

subsection \<open>Values without repeated keys\<close>

lemma store_all_fresh: "distinct (map fst (acc @ ps)) \<Longrightarrow> foldl store acc ps = acc @ ps"
proof (induction ps arbitrary: acc)
  case (Cons p ps)
  then have "store acc p = acc @ [p]"
    by (simp add: store_def update_fresh)
  with Cons.prems Cons.IH [of "acc @ [p]"] show ?case
    by simp
qed simp

lemma wf_printable: "wf_value v \<Longrightarrow> printable v"
  by (induction v) (auto simp: snds.simps)

lemma norm_wf: "wf_value v \<Longrightarrow> norm v = v"
proof (induction v)
  case (GoSlice vs)
  then show ?case
    by (simp add: map_idI)
next
  case (GoMap ps)
  then have "map (\<lambda>(k, v). (k, norm v)) ps = ps"
    by (intro map_idI) (auto simp: snds.simps)
  with GoMap.prems store_all_fresh [of "[]" ps] show ?case
    by (simp add: store_all_last_wins)
qed simp_all

lemma parse_tokens_of: "wf_value v \<Longrightarrow> parse (tokens_of v) = Some v"
  by (simp add: parse_tokens_norm wf_printable norm_wf)

subsection \<open>The printed tokens tokenize back\<close>

lemma list_all_concat_sep:
  "list_all P s \<Longrightarrow> (\<And>x. x \<in> set xs \<Longrightarrow> list_all P (f x)) \<Longrightarrow>
     list_all P (concat_sep s (map f xs))"
proof (induction xs)
  case (Cons x xs)
  then show ?case
    by (cases xs) simp_all
qed simp

lemma tokens_of_ok: "printable v \<Longrightarrow> list_all token_ok (tokens_of v)"
proof (induction v)
  case (GoSlice vs)
  then show ?case
    by (simp add: list_all_concat_sep)
next
  case (GoMap ps)
  then have "list_all token_ok (member_tokens p)" if "p \<in> set ps" for p
    using that by (cases p) (auto simp: member_tokens_def snds.simps)
  then show ?case
    by (simp add: tokens_of_GoMap list_all_concat_sep)
qed simp_all

lemma spaced_concat_sep:
  assumes "\<And>x ts. x \<in> set xs \<Longrightarrow> closing ts \<Longrightarrow> spaced (f x @ ts) = spaced ts" "closing ts"
  shows "spaced (concat_sep [Comma] (map f xs) @ ts) = spaced ts"
  using assms
proof (induction xs)
  case (Cons x xs)
  then show ?case
    by (cases xs) (simp_all add: closing_def)
qed simp

lemma spaced_tokens_of: "closing ts \<Longrightarrow> spaced (tokens_of v @ ts) = spaced ts"
proof (induction v arbitrary: ts)
  case (GoSlice vs)
  then show ?case
    using spaced_concat_sep [of vs tokens_of "RBracket # ts"] by (simp add: closing_def)
next
  case (GoMap ps)
  then have "spaced (member_tokens p @ ts) = spaced ts" if "p \<in> set ps" "closing ts" for p ts
    using that by (cases p) (auto simp: member_tokens_def snds.simps)
  then show ?case
    using spaced_concat_sep [of ps member_tokens "RBrace # ts"]
    by (simp add: closing_def tokens_of_GoMap)
qed (simp_all add: closing_def)

lemma tokenize_encode: "printable v \<Longrightarrow> tokenize (encode v) = Some (tokens_of v)"
  using spaced_tokens_of [of "[]" v]
  by (simp add: encode_def tokenize_renders tokens_of_ok closing_def)

text \<open>
  Claim C18. Decoding inverts printing: the text printed for a value whose
  strings are well-formed UTF-8, whose numbers are number literals and whose
  objects have distinct keys, at any depth, is accepted and decodes to that
  value.
\<close>

theorem decode_encode: "wf_value v \<Longrightarrow> decode (encode v) = Some v"
  by (simp add: decode_def tokenize_encode parse_tokens_of wf_printable)

theorem decode_encode_witness:
  "decode ''[{\"k\":\"v\"},-1.5e3,false,null]'' =
     Some (GoSlice [GoMap [(''k'', GoString ''v'')], GoFloat64 ''-1.5e3'', GoBool False, GoNil])"
  using decode_encode
    [of "GoSlice [GoMap [(''k'', GoString ''v'')], GoFloat64 ''-1.5e3'', GoBool False, GoNil]"]
  by (simp add: encode_def tokens_of_GoMap member_tokens_def quote_char_def number_end_def
      minus_len_def int_end_def frac_end_def exp_end_def sign_len_def is_digit_def)

text \<open>
  Claim C19. A printed value whose objects repeat keys decodes to its normal
  form: of the members with one key the decoder keeps the last, in the place
  of the first, at every depth, and nothing else is changed.
\<close>

theorem decode_encode_norm: "printable v \<Longrightarrow> decode (encode v) = Some (norm v)"
  by (simp add: decode_def tokenize_encode parse_tokens_norm)

theorem decode_encode_norm_witness:
  "decode ''{\"a\":1,\"b\":[{\"c\":true,\"c\":null}],\"a\":\"x\"}'' =
     Some (GoMap [(''a'', GoString ''x''), (''b'', GoSlice [GoMap [(''c'', GoNil)]])])"
  using decode_encode_norm
    [of "GoMap [(''a'', GoFloat64 ''1''), (''b'', GoSlice [GoMap [(''c'', GoBool True), (''c'', GoNil)]]),
       (''a'', GoString ''x'')]"]
  by (simp add: encode_def tokens_of_GoMap member_tokens_def quote_char_def number_end_def
      minus_len_def int_end_def frac_end_def exp_end_def sign_len_def is_digit_def last_wins_def
      index_def)

subsection \<open>What the members of a decoded object are\<close>

lemma map_of_store_all: "map_of (foldl store acc ps) = map_of acc ++ map_of (rev ps)"
proof (induction ps arbitrary: acc)
  case (Cons p ps)
  have "map_of (store acc p) ++ map_of (rev ps) = map_of acc ++ (map_of [p] ++ map_of (rev ps))"
    by (cases p) (simp add: store_def update_conv' fun_eq_iff map_add_def split: option.split)
  with Cons show ?case
    by simp
qed simp

lemma index_store_all:
  "index (foldl store [] ps) k = (case map_of (rev ps) k of None \<Rightarrow> GoNil | Some v \<Rightarrow> v)"
  by (simp add: index_def map_of_store_all)

lemma index_last_wins: "index (last_wins ps) k = index (rev ps) k"
  unfolding store_all_last_wins [symmetric] index_store_all by (simp add: index_def)

lemma index_norm:
  "index (last_wins (map (\<lambda>(k, v). (k, norm v)) ps)) k =
     (case map_of (rev ps) k of None \<Rightarrow> GoNil | Some v \<Rightarrow> norm v)"
  unfolding index_last_wins by (simp add: index_def rev_map map_of_map split: option.split)

section \<open>The values of any input are well formed\<close>

lemma set_update: "set (AList.update k v ps) \<subseteq> insert (k, v) (set ps)"
  by (induction ps) auto

lemma wf_update:
  "wf_value (GoMap ps) \<Longrightarrow> Valid k \<Longrightarrow> wf_value v \<Longrightarrow> wf_value (GoMap (AList.update k v ps))"
  using set_update [of k v ps] by (auto simp: distinct_update)

lemma complete_ok:
  "wf_value v \<Longrightarrow> list_all frame_ok st \<Longrightarrow> complete v st = Some s \<Longrightarrow> state_ok s"
  by (induction v st rule: complete.induct)
     (auto simp: wf_update store_def simp del: wf_value.simps(4))

lemma begin_value_ok:
  "token_ok t \<Longrightarrow> list_all frame_ok st \<Longrightarrow> begin_value t st = Some s \<Longrightarrow> state_ok s"
  by (cases t) (auto dest: complete_ok [rotated 2])

lemma begin_key_ok:
  "token_ok t \<Longrightarrow> list_all frame_ok st \<Longrightarrow> begin_key t st = Some s \<Longrightarrow> state_ok s"
  by (induction t st rule: begin_key.induct) auto

lemma end_value_ok: "list_all frame_ok st \<Longrightarrow> end_value t st = Some s \<Longrightarrow> state_ok s"
  by (induction t st rule: end_value.induct) (auto dest: complete_ok [rotated 2])

lemma step_ok: "token_ok t \<Longrightarrow> state_ok s \<Longrightarrow> step t s = Some s' \<Longrightarrow> state_ok s'"
  by (induction t s rule: step.induct)
    (auto dest: begin_value_ok begin_key_ok end_value_ok split: if_splits)

lemma run_ok: "list_all token_ok ts \<Longrightarrow> state_ok s \<Longrightarrow> run ts s = Some s' \<Longrightarrow> state_ok s'"
  by (induction ts arbitrary: s) (auto dest: step_ok split: Option.bind_splits)

theorem decode_wf: "decode s = Some v \<Longrightarrow> wf_value v"
proof -
  assume "decode s = Some v"
  then obtain ts st where "tokenize s = Some ts" "run ts (BeginValue, []) = Some (EndTop v, st)"
    by (auto simp: decode_def parse_def split: option.splits scan.splits)
  then show ?thesis
    using run_ok [of ts "(BeginValue, [])" "(EndTop v, st)"] tokenize_tokens_ok [of s ts] by simp
qed

end
