(* ===== verification/Json_Unmarshal.thy ===== *)
theory Json_Unmarshal
  imports Json_Parser Strconv
begin

text \<open>
  \<^verbatim>\<open>json.Unmarshal(js, &pairs)\<close> as the handler calls it, with \<^verbatim>\<open>pairs\<close> a nil
  \<^verbatim>\<open>map[string]interface{}\<close>: the input is checked against the grammar and
  decoded; an object fills a new map, \<^verbatim>\<open>null\<close> leaves the map nil without an
  error, and every other value is an error, as is a number anywhere in the
  input that does not fit a \<^verbatim>\<open>float64\<close>. A nil map and an empty map answer
  every index alike, so both are the empty list. The text of the error the
  library returns is not modelled: \<open>report\<close> stands for it.
\<close>

section \<open>Unmarshal into a map\<close>

definition numbers :: "token list \<Rightarrow> string list" where
  "numbers ts = concat (map (\<lambda>t. case t of TNumber n \<Rightarrow> [n] | _ \<Rightarrow> []) ts)"

text \<open>
  The library's part: the value of an input, unless the input breaks the
  grammar or holds a number out of range. The handler's part: the value is
  stored in a variable of type \<^verbatim>\<open>map[string]interface{}\<close>.
\<close>

definition decode_in_range :: "bytes \<Rightarrow> iface option" where
  "decode_in_range js =
     (case tokenize js of
        None \<Rightarrow> None
      | Some ts \<Rightarrow> if list_ex ErrRange (numbers ts) then None else parse ts)"

definition json_Unmarshal :: "(bytes \<Rightarrow> error) \<Rightarrow> unmarshal" where
  "json_Unmarshal report js =
     (case decode_in_range js of
        None \<Rightarrow> Inl (report js)
      | Some v \<Rightarrow> (case v of GoMap ps \<Rightarrow> Inr ps | GoNil \<Rightarrow> Inr [] | _ \<Rightarrow> Inl (report js)))"

text \<open>
  A value is representable when none of its numbers is out of range.
\<close>

definition representable :: "iface \<Rightarrow> bool" where
  "representable v \<longleftrightarrow> \<not> list_ex ErrRange (numbers (tokens_of v))"

definition sample_report :: "bytes \<Rightarrow> error" where
  "sample_report js = Error ''invalid request''"

lemmas lex_defs = is_space_def punct_def literal_def number_end_def minus_len_def int_end_def
  frac_end_def exp_end_def sign_len_def is_digit_def simple_escape_def unescape_def hex4_def
  hex_val_def getu4_def

lemmas json_eval = json_Unmarshal_def decode_in_range_def parse_def numbers_def store_def
  tokenize.simps(2) lex_defs float_defs

section \<open>What Unmarshal returns\<close>

lemma json_Unmarshal_Inr:
  "json_Unmarshal report js = Inr ps \<longleftrightarrow>
     (\<exists>ts. tokenize js = Some ts \<and> \<not> list_ex ErrRange (numbers ts) \<and>
        (parse ts = Some (GoMap ps) \<or> parse ts = Some GoNil \<and> ps = []))"
  by (auto simp: json_Unmarshal_def decode_in_range_def split: option.splits iface.splits)

lemma json_Unmarshal_failed: "failed (json_Unmarshal report js) \<Longrightarrow> json_Unmarshal report js = Inl (report js)"
  by (auto simp: json_Unmarshal_def split: option.splits iface.splits)

text \<open>
  The text of an object whose strings are well-formed UTF-8, whose numbers are
  number literals within the range of a \<^verbatim>\<open>float64\<close> and whose keys are distinct
  decodes without an error to the map of exactly its members.
\<close>

lemma json_Unmarshal_encode:
  assumes "wf_value (GoMap ps)" and "representable (GoMap ps)"
  shows "json_Unmarshal report (encode (GoMap ps)) = Inr ps"
  using assms wf_printable [of "GoMap ps"]
  by (simp add: json_Unmarshal_Inr tokenize_encode parse_tokens_of representable_def
      del: wf_value.simps printable.simps)

text \<open>When keys are repeated the map holds the last member of each key.\<close>

lemma json_Unmarshal_norm:
  assumes "printable (GoMap ps)" and "representable (GoMap ps)"
  shows "json_Unmarshal report (encode (GoMap ps)) =
     Inr (last_wins (map (\<lambda>(k, v). (k, norm v)) ps))"
  using assms parse_tokens_norm [of "GoMap ps"]
  by (simp add: json_Unmarshal_Inr tokenize_encode representable_def del: printable.simps)

lemma json_Unmarshal_encode_example:
  "json_Unmarshal sample_report ''{\"request\":\"active checks\",\"host\":\"agent 1\",\"version\":6.4}'' =
     Inr [(''request'', GoString ''active checks''), (''host'', GoString ''agent 1''),
          (''version'', GoFloat64 ''6.4'')]"
  using json_Unmarshal_encode [of "[(''request'', GoString ''active checks''),
      (''host'', GoString ''agent 1''), (''version'', GoFloat64 ''6.4'')]" sample_report]
  by (simp add: encode_def tokens_of_GoMap member_tokens_def representable_def numbers_def
      quote_char_def number_end_def minus_len_def int_end_def frac_end_def exp_end_def
      is_digit_def float_defs)

text \<open>
  Claim C20. Whatever the input, the map \<^verbatim>\<open>json.Unmarshal\<close> returns is well typed:
  its keys are distinct and every key and every string in it, at any depth, is
  well-formed UTF-8; every number is a number literal; every nested object has
  distinct keys.
\<close>

theorem json_Unmarshal_wf:
  assumes "json_Unmarshal report js = Inr ps"
  shows "wf_value (GoMap ps)"
proof -
  from assms consider "decode js = Some (GoMap ps)" | "ps = []"
    by (auto simp: json_Unmarshal_Inr decode_def)
  then show ?thesis
    using decode_wf [of js "GoMap ps"] by cases simp_all
qed

theorem json_Unmarshal_wf_witness:
  "wf_value (GoMap [(''a'', GoBool True), (''b'', GoMap [(''c'', GoSlice [GoString ''x'', GoNil])])])"
  using json_Unmarshal_wf [of sample_report
      "'' { \"a\" : 1 , \"b\" : {\"c\":[\"x\",null]}, \"a\":true } ''"
      "[(''a'', GoBool True), (''b'', GoMap [(''c'', GoSlice [GoString ''x'', GoNil])])]"]
  by (simp add: json_eval)

text \<open>
  A number too large for a \<^verbatim>\<open>float64\<close> anywhere in the input makes
  \<^verbatim>\<open>json.Unmarshal\<close> fail, whatever else the input holds.
\<close>

lemma json_Unmarshal_range:
  assumes "tokenize js = Some ts" and "n \<in> set (numbers ts)" and "ErrRange n"
  shows "json_Unmarshal report js = Inl (report js)"
  using assms by (auto simp: json_Unmarshal_def decode_in_range_def list_ex_iff)

lemma json_Unmarshal_range_example:
  "json_Unmarshal sample_report ''{\"request\":\"active checks\",\"n\":1e999}'' =
     Inl (sample_report ''{\"request\":\"active checks\",\"n\":1e999}'')"
  using json_Unmarshal_range [of "''{\"request\":\"active checks\",\"n\":1e999}''"
      "[LBrace, TString ''request'', Colon, TString ''active checks'', Comma, TString ''n'', Colon,
        TNumber ''1e999'', RBrace]" "''1e999''" sample_report]
  by (simp add: numbers_def tokenize.simps(2) lex_defs float_defs)

section \<open>Inputs that are not objects, and inputs that are not canonical\<close>

lemma json_Unmarshal_examples:
  "json_Unmarshal report ''null'' = Inr []"
  "json_Unmarshal report ''[]'' = Inl (report ''[]'')"
  "json_Unmarshal report ''\"active checks\"'' = Inl (report ''\"active checks\"'')"
  "json_Unmarshal report '''' = Inl (report '''')"
  "json_Unmarshal report ''{\"request\":}'' = Inl (report ''{\"request\":}'')"
  "json_Unmarshal report ''{\"request\":\"ping\",\"request\":\"active checks\"}'' =
     Inr [(''request'', GoString ''active checks'')]"
  by (simp_all add: json_eval)

end
