(* ===== verification/Deadlines.thy ===== *)
theory Deadlines
  imports Bootstrap
begin

text \<open>
  Clients in time. The transport leaves to the peer what a timed call
  returns; here are the peers that the timeout is about: a client whose
  request arrives after a delay and who takes the response within a delay, so
  that a timed call succeeds exactly when its deadline is not earlier. With
  them the timeout of the configuration becomes a statement about seconds:
  the handlers \<^verbatim>\<open>main\<close> starts (line 168) wait for the configured number of
  seconds (line 49), neither more nor less.
\<close>

section \<open>Clients that keep time\<close>

text \<open>
  Delays are in nanoseconds, like a \<^verbatim>\<open>time.Duration\<close>; \<open>late\<close> is the error
  the transport reports for a missed deadline.
\<close>

definition timed_client :: "int \<Rightarrow> bytes \<Rightarrow> int \<Rightarrow> error \<Rightarrow> peer" where
  "timed_client arrives js takes late =
     \<lparr>read_reply = (\<lambda>h t. if arrives \<le> sint t then Inr js else Inl late),
      write_reply = (\<lambda>h d t. if takes \<le> sint t then None else Some late)\<rparr>"

text \<open>What becomes of a request for the active checks, by the two delays and the deadline.\<close>

datatype timing = TooLate | NotTaken | InTime

definition timing_of :: "int \<Rightarrow> int \<Rightarrow> int \<Rightarrow> timing" where
  "timing_of deadline arrives takes =
     (if deadline < arrives then TooLate else if deadline < takes then NotTaken else InTime)"

section \<open>The handler and a timed client\<close>

lemma timed_client_simps [simp]:
  "read_reply (timed_client arrives js takes late) h t =
     (if arrives \<le> sint t then Inr js else Inl late)"
  "write_reply (timed_client arrives js takes late) h d t =
     (if takes \<le> sint t then None else Some late)"
  by (simp_all add: timed_client_def)

lemma timing_of_simps [simp]:
  "deadline < arrives \<Longrightarrow> timing_of deadline arrives takes = TooLate"
  "arrives \<le> deadline \<Longrightarrow> deadline < takes \<Longrightarrow> timing_of deadline arrives takes = NotTaken"
  "arrives \<le> deadline \<Longrightarrow> takes \<le> deadline \<Longrightarrow> timing_of deadline arrives takes = InTime"
  by (simp_all add: timing_of_def)

lemma handleConnection_timed:
  assumes "remote c = timed_client arrives js takes late" and "\<not> closed c"
    and "unm js = Inr ps" and "is_active_checks ps"
  shows "sent (fst (handleConnection unm c a tFlag lg)) =
           sent c @ (if timing_of (sint (timeout_of tFlag)) arrives takes = InTime then [a] else [])"
    and "closed (fst (handleConnection unm c a tFlag lg))"
    and "warnings (snd (handleConnection unm c a tFlag lg)) = warnings lg @
           (case timing_of (sint (timeout_of tFlag)) arrives takes of
              TooLate \<Rightarrow> warnings (Warningf ''Read failed: %s\<newline>'' [ErrArg late] [])
            | NotTaken \<Rightarrow> warnings (Warningf ''Write failed: %s\<newline>'' [ErrArg late] [])
            | InTime \<Rightarrow> [])"
  using assms
  by (cases rule: handleConnection_cases [of c tFlag unm a lg];
      simp add: fst_conn_Read fst_conn_Write timing_of_def log_defs split: if_splits)+

text \<open>
  The goroutines of \<^verbatim>\<open>main\<close>: each has a connection nobody touched, the bytes
  of the response file and the timeout of the configuration, which is
  between 1 and 30, so that its deadline is that many seconds.
\<close>

lemma spawned_deadline:
  assumes "boots e fl opts" and "read_file e (ActiveChecksFile opts) = Inr canned"
    and "(c, activeChecks, tFlag) \<in> set (spawned (snd (main e fl)))"
  shows "history c = []" and "activeChecks = canned" and "tFlag = Timeout opts"
    and "sint (timeout_of tFlag) = 1000000000 * sint (Timeout opts)"
    and "int_between 1 30 (Timeout opts)"
proof -
  from assms show c: "history c = []" "activeChecks = canned" "tFlag = Timeout opts"
    by (auto simp: main_started goroutines_def split: option.splits)
  from assms(1) have "options_ok opts"
    by (auto simp: boots_def dest: conf_Load_valid)
  then show range: "int_between 1 30 (Timeout opts)"
    by (simp add: options_ok_def)
  then have "int_between (- 9223372036) 9223372036 (Timeout opts)"
    by (simp add: int_between_def)
  with c(3) show "sint (timeout_of tFlag) = 1000000000 * sint (Timeout opts)"
    by (simp add: timeout_of_no_wrap)
qed

section \<open>The timeout in seconds\<close>

text \<open>
  Claim C16. The timeout of the configuration is the time a client has, in
  seconds and exactly. A client of a handler \<^verbatim>\<open>main\<close> started, whose request
  for the active checks arrives after \<open>arrives\<close> nanoseconds and who takes the
  response within \<open>takes\<close>, receives the bytes of the response file when both
  delays are within \<^verbatim>\<open>Timeout\<close> seconds, and nothing otherwise; the connection
  is closed either way, and a missed deadline is logged as the failed read or
  the failed write it was. The range of the option (1 to 30) keeps the
  64-bit product of line 49 from wrapping, so that no admissible value turns
  the deadline into the past.
\<close>

theorem deadline_decides:
  assumes "boots e fl opts" and "read_file e (ActiveChecksFile opts) = Inr canned"
    and "(c, activeChecks, tFlag) \<in> set (spawned (snd (main e fl)))"
    and "remote c = timed_client arrives js takes late"
    and "unm js = Inr ps" and "index ps ''request'' = GoString ''active checks''"
  shows "sent (fst (handleConnection unm c activeChecks tFlag lg)) =
           (if timing_of (1000000000 * sint (Timeout opts)) arrives takes = InTime
            then [canned] else []) \<and>
         closed (fst (handleConnection unm c activeChecks tFlag lg)) \<and>
         warnings (snd (handleConnection unm c activeChecks tFlag lg)) = warnings lg @
           (case timing_of (1000000000 * sint (Timeout opts)) arrives takes of
              TooLate \<Rightarrow> warnings (Warningf ''Read failed: %s\<newline>'' [ErrArg late] [])
            | NotTaken \<Rightarrow> warnings (Warningf ''Write failed: %s\<newline>'' [ErrArg late] [])
            | InTime \<Rightarrow> [])"
proof -
  note g = spawned_deadline [OF assms(1-3)]
  from g(1) have "\<not> closed c" "sent c = []"
    by (simp_all add: obs_defs)
  with handleConnection_timed [where c = c and unm = unm and a = activeChecks and tFlag = tFlag
      and lg = lg, OF assms(4) _ assms(5)] assms(6) g(2,4)
  show ?thesis
    by (simp add: is_active_checks_def)
qed

theorem deadline_decides_witness:
  "sent (fst (handleConnection (table_decoder known_requests)
       (fresh (timed_client 29000000000 ''{\"request\":\"active checks\"}'' 0
          (Error ''i/o timeout''))) ''AC1'' 30 [])) = [''AC1''] \<and>
   sent (fst (handleConnection (table_decoder known_requests)
       (fresh (timed_client 31000000000 ''{\"request\":\"active checks\"}'' 0
          (Error ''i/o timeout''))) ''AC1'' 30 [])) = []"
proof -
  let ?js = "''{\"request\":\"active checks\"}''"
  let ?e = "\<lambda>d. sample_env\<lparr>accepts := [Inr (timed_client d ?js 0 (Error ''i/o timeout''))]\<rparr>"
  have boots: "boots (?e d) default_flags sample_options" for d
    by (simp add: boots_def)
  have readable: "read_file (?e d) (ActiveChecksFile sample_options) = Inr ''AC1''" for d
    by (simp add: sample_env_def)
  have spawned: "(fresh (timed_client d ?js 0 (Error ''i/o timeout'')), ''AC1'', 30) \<in>
      set (spawned (snd (main (?e d) default_flags)))" for d
    by (simp add: main_started [OF boots] readable goroutines_def)
  have decoded: "table_decoder known_requests ?js = Inr [(''request'', GoString ''active checks'')]"
    by (simp add: table_decoder_def known_requests_def)
  note served = deadline_decides [where fl = default_flags and opts = sample_options
      and canned = "''AC1''" and activeChecks = "''AC1''" and tFlag = 30 and js = ?js and takes = 0
      and late = "Error ''i/o timeout''" and unm = "table_decoder known_requests"
      and ps = "[(''request'', GoString ''active checks'')]" and lg = "[]"]
  from served [where e = "?e 29000000000" and arrives = 29000000000
      and c = "fresh (timed_client 29000000000 ?js 0 (Error ''i/o timeout''))"]
    served [where e = "?e 31000000000" and arrives = 31000000000
      and c = "fresh (timed_client 31000000000 ?js 0 (Error ''i/o timeout''))"]
  show ?thesis
    using boots readable spawned decoded by simp
qed

text \<open>
  A client that sends nothing for longer than thirty seconds is dropped
  under every configuration the loader admits.
\<close>

lemma silent_client_dropped:
  assumes "boots e fl opts" and "read_file e (ActiveChecksFile opts) = Inr canned"
    and "(c, activeChecks, tFlag) \<in> set (spawned (snd (main e fl)))"
    and "remote c = timed_client arrives js takes late" and "30000000000 < arrives"
  shows "sent (fst (handleConnection unm c activeChecks tFlag lg)) = [] \<and>
         closed (fst (handleConnection unm c activeChecks tFlag lg))"
proof -
  note g = spawned_deadline [OF assms(1-3)]
  from g(5) assms(5) have "sint (timeout_of tFlag) < arrives"
    by (simp add: g(4) int_between_def)
  with g(1) assms(4) show ?thesis
    by (cases rule: handleConnection_cases [of c tFlag unm activeChecks lg])
       (simp_all add: fst_conn_Read obs_defs)
qed

end
