(* ===== verification/Spec2Isabelle.thy ===== *)
theory Spec2Isabelle
  imports Log_Lines Json_Unmarshal Deadlines
begin

text \<open>
  \<^bold>\<open>A verification development for the Zabbix mock server\<close>
  (\<^verbatim>\<open>src/go/src/zabbix/cmd/mock_server/mock_server.go\<close>).

  \<^bold>\<open>The program.\<close> The mock server stands in for a monitoring agent's
  active-checks responder. \<^verbatim>\<open>main\<close> parses two flags, loads the configuration
  into the global \<^verbatim>\<open>MockServerOptions\<close> (twice), opens the logger, reads the
  canned response from the configured file, listens on the configured port
  and then accepts connections for ever, starting one goroutine per
  connection. \<^verbatim>\<open>handleConnection\<close> serves one connection: a timed read of one
  framed message, \<^verbatim>\<open>json.Unmarshal\<close> into a map, a switch on the \<^verbatim>\<open>"request"\<close>
  key, a timed write of the canned bytes when the request is
  \<^verbatim>\<open>"active checks"\<close>, a warning otherwise, and a deferred close on every
  path. Transport (\<^verbatim>\<open>pkg/comms\<close>), configuration loading (\<^verbatim>\<open>pkg/conf\<close>), logging
  (\<^verbatim>\<open>pkg/log\<close>) and the Go standard library are collaborators whose code is not
  part of the sources. The three packages of the repository are modelled by
  their interfaces, and what they answer is a parameter of every theorem. Of
  the standard library the functions the program's behaviour depends on are
  modelled from their documented behaviour: \<^verbatim>\<open>json.Unmarshal\<close> into a map,
  \<^verbatim>\<open>flag.Parse\<close>, \<^verbatim>\<open>strconv.Itoa\<close>, and \<^verbatim>\<open>fmt.Sprintf\<close> for the verbs of the
  program's log calls.

  \<^bold>\<open>The theories\<close>, in the order of their imports.
  \<^item> \<open>MockServer_Prelude\<close>: Go's \<^verbatim>\<open>[]byte\<close>/\<^verbatim>\<open>string\<close> as \<^typ>\<open>string\<close>, \<^verbatim>\<open>int\<close>
    and \<^verbatim>\<open>time.Duration\<close> as \<^typ>\<open>64 word\<close> read with \<^const>\<open>sint\<close>, \<^verbatim>\<open>error\<close> as
    \<^typ>\<open>error\<close>, results as sums (\<open>Inl\<close> the error); the fact collections
    \<open>ms_defs\<close>, \<open>ms_frame\<close>, \<open>ms_inv\<close>; lemmas on signed words, sums, lists,
    runs of a deterministic relation and lists matched against patterns.
  \<^item> \<open>Json\<close>: the \<^verbatim>\<open>interface{}\<close> values a request decodes to (\<^typ>\<open>iface\<close>)
    and Go's map indexing \<^const>\<open>index\<close> (a missing key is nil). The handler
    takes its decoder as a parameter (\<^typ>\<open>unmarshal\<close>), so that its theorems
    hold for every decoder; \<open>Json_Unmarshal\<close> below is the one of the program.
  \<^item> \<open>Logger\<close>: the printing functions \<^const>\<open>Infof\<close>, \<^const>\<open>Critf\<close>,
    \<^const>\<open>Warningf\<close>, \<^const>\<open>Debugf\<close>; a log is the list of calls made, each with
    its level, format and arguments. The levels are ordered by verbosity (an
    instance of \<open>linorder\<close>), and \<^const>\<open>shown\<close> is what a sink opened at a
    level shows of a log.
  \<^item> \<open>Transport\<close>: a connection is a \<^typ>\<open>peer\<close> (what the far end does,
    as a function of the connection's history) and the \<^const>\<open>history\<close> of
    operations performed; \<^const>\<open>conn_Read\<close>, \<^const>\<open>conn_Write\<close>,
    \<^const>\<open>conn_Close\<close> record one event each. \<^const>\<open>sent\<close>, \<^const>\<open>reads\<close>,
    \<^const>\<open>writes\<close> and \<^const>\<open>closed\<close> read a history.
  \<^item> \<open>Handler\<close>: \<^const>\<open>handleConnection\<close> (lines 46-75) as \<^const>\<open>handle_body\<close>
    followed by the deferred \<^const>\<open>conn_Close\<close>; \<^const>\<open>dispatch\<close> is the
    switch, \<^const>\<open>timeout_of\<close> the product \<^verbatim>\<open>time.Second * time.Duration(tFlag)\<close>
    at 64 bits. The rule \<open>handleConnection_cases\<close> is the five paths through the
    function; the contract (\<^const>\<open>outcome_of\<close>, \<^const>\<open>response\<close>,
    \<^const>\<open>warning_of\<close>) says what each path promises. The lemmas show that the
    connection is closed on every path, that the handler implements the
    contract, the order and number of operations on the connection, each of
    the four error paths, that the log is write-only, and when the timeout
    product is exact.
  \<^item> \<open>Handler_Steps\<close>: the state machine of the handler, one step per
    operation: \<^const>\<open>hstep\<close> on configurations (\<^typ>\<open>phase\<close>, connection, log),
    its executable form \<^const>\<open>hnext\<close> and the run with fuel \<^const>\<open>hrun\<close>. The
    lemmas show that the relation is deterministic, that \<open>Closed\<close> is the
    only final phase, that every run ends there within five steps (the
    longest path is accept, read, decode, dispatch, write: \<^const>\<open>rank\<close>
    bounds it, so fuel 5 is always enough), that the state reached is the
    result of \<^const>\<open>handleConnection\<close>, and that the history has the shape of
    its phase in every reachable configuration (\<^const>\<open>hinv\<close>).
  \<^item> \<open>Server\<close>: the handlers running concurrently: \<^const>\<open>sstep\<close> is a
    step of one handler on the shared log or the acceptance of another
    connection (line 168 and the loop around it), \<^const>\<open>step_handler\<close> and
    \<^const>\<open>run_schedule\<close> are the same as functions over an explicit
    schedule. The lemmas show that a step touches one handler only, that
    every finished connection is what \<^const>\<open>handleConnection\<close> alone makes of
    it (\<^const>\<open>alone\<close> is the invariant), that the state of a connection
    depends only on how often its own handler was scheduled, that no handler
    waits for another, that every schedule giving each handler five steps
    serves all connections, and that the shared log then holds exactly the
    entries of all handlers (as a multiset: the order is the scheduler's).
  \<^item> \<open>Strconv\<close>: \<^verbatim>\<open>strconv.Itoa\<close> and \<^verbatim>\<open>strconv.Atoi\<close> on 64-bit integers
    (\<^const>\<open>Itoa\<close>, \<^const>\<open>Atoi\<close>), with the round trip and injectivity;
    \<^verbatim>\<open>strconv.ParseBool\<close>; \<^verbatim>\<open>strconv.Quote\<close> on ASCII text (\<^const>\<open>Quote\<close>);
    and the range check of \<^verbatim>\<open>strconv.ParseFloat\<close>
    (\<^const>\<open>ErrRange\<close>): a number literal is out of range when it rounds to a
    magnitude of \<^verbatim>\<open>2^1024\<close> or more, decided exactly on the decimal digits.
  \<^item> \<open>Utf8\<close>: \<^verbatim>\<open>utf8.DecodeRune\<close>, \<^verbatim>\<open>utf8.EncodeRune\<close> and \<^verbatim>\<open>utf8.Valid\<close> on
    bytes, and the pairing of UTF-16 surrogates. The lemmas show that decoding
    inverts encoding and encoding inverts decoding of anything but an invalid
    byte, that every decoded rune is a Unicode scalar value, and that the
    valid strings are the concatenations of encoded scalar values
    (\<open>Valid_induct\<close>).
  \<^item> \<open>Json_Lexer\<close>: the tokens of a JSON text (\<^typ>\<open>token\<close>) and
    \<^const>\<open>tokenize\<close>, which skips white space and takes one token at a time:
    \<^const>\<open>string_end\<close> finds the end of a string literal and checks its
    escapes, \<^const>\<open>unquote\<close> reads it (escapes, surrogate pairs, U+FFFD for
    invalid bytes), \<^const>\<open>number_end\<close> is the number grammar. \<^const>\<open>render\<close>
    prints a token. The lemmas show that a printed string reads back, that
    every string read is valid UTF-8, and that a printed sequence of tokens is
    tokenized to itself.
  \<^item> \<open>Json_Parser\<close>: the pushdown automaton of the decoder over the tokens,
    with the states of Go's scanner (\<^typ>\<open>scan\<close>) and a stack of open arrays
    and objects (\<^typ>\<open>frame\<close>); \<^const>\<open>step\<close> takes one token, \<^const>\<open>parse\<close>
    runs it, \<^const>\<open>decode\<close> is lexer and parser together. A member is stored
    with \<open>AList.update\<close>, so the last of a repeated key is kept, in the
    position of the first. \<^const>\<open>encode\<close> prints a value without white
    space. The lemmas show \<open>decode (encode v) = Some v\<close> for the well-formed
    values (\<^const>\<open>wf_value\<close>), \<open>decode (encode v) = Some (norm v)\<close> for the
    values that repeat keys (\<^const>\<open>norm\<close> keeps the last member of a key),
    and that every decoded value is well formed.
  \<^item> \<open>Json_Unmarshal\<close>: \<^const>\<open>json_Unmarshal\<close>, the call of lines 57-58 into
    a nil map: an object gives its members, \<^verbatim>\<open>null\<close> gives the nil map without
    an error, any other value, any malformed text and any number literal out
    of the range of a \<^verbatim>\<open>float64\<close> give an error. The error's text is a
    parameter (\<open>report\<close>).
  \<^item> \<open>Flag\<close>: the package \<^verbatim>\<open>flag\<close> over any type of program variables: a
    defined flag (\<^typ>\<open>'v Flag\<close>), \<^const>\<open>StringVar\<close>, \<^const>\<open>BoolVar\<close>, and
    \<^const>\<open>Parse\<close>, which reads \<^verbatim>\<open>-name\<close>, \<^verbatim>\<open>--name\<close>, \<^verbatim>\<open>-name=value\<close> and
    \<^verbatim>\<open>-name value\<close> until the first argument that is no flag.
  \<^item> \<open>Keyed_Sort\<close>: sorting by distinct keys forgets the order of the list
    (\<open>sort_key_unique\<close>); used where Go prints a map or a flag set in the
    order of the names.
  \<^item> \<open>Flag_Usage\<close>: what the package \<^verbatim>\<open>flag\<close> writes for a failed
    \<^const>\<open>Parse\<close>: the text of the error (\<^const>\<open>error_text\<close>) and the usage
    with the defaults of the flags in the layout of \<^verbatim>\<open>PrintDefaults\<close>
    (\<^const>\<open>flag_line\<close>, \<^const>\<open>PrintDefaults\<close>, \<^const>\<open>commandLineUsage\<close>,
    \<^const>\<open>failure_output\<close>).
  \<^item> \<open>Options\<close>: the struct \<^typ>\<open>MockServerOptions\<close> and its field tags as
    the source writes them (lines 35-44); the loader's reading of a tag
    (\<^const>\<open>parse_tag\<close>) and of a configuration (\<^const>\<open>Unmarshal\<close>,
    \<^const>\<open>conf_Load\<close>), modelled from the loader's contract. The lemmas show
    that a loaded struct satisfies the ranges (\<^const>\<open>options_ok\<close>), what the
    defaults are, that out-of-range integers are refused, that loading is
    idempotent, and that the log type is not validated.
  \<^item> \<open>Bootstrap\<close>: \<^const>\<open>main\<close> is \<^verbatim>\<open>main\<close> after \<^verbatim>\<open>flag.Parse\<close> (lines 95-170)
    as the sequence of its phases \<^const>\<open>load_config\<close> (twice),
    \<^const>\<open>open_logger\<close> with the two switches \<^const>\<open>logType_of\<close> and
    \<^const>\<open>logLevel_of\<close>, \<^const>\<open>greet\<close>, \<^const>\<open>read_active_checks\<close>,
    \<^const>\<open>start_listening\<close> and \<^const>\<open>accept_loop\<close>, on a \<^typ>\<open>process\<close>
    record in a world \<^typ>\<open>env\<close>. The contract \<^const>\<open>startup_of\<close> names the
    six ways the start-up goes. The lemmas show that \<^const>\<open>main\<close> implements
    it (exit status, error stream, critical entries, listener), that nothing
    listens when the response file is unreadable, which goroutines the loop
    starts, that an accept failure is fatal, that the loop is unbounded, that
    the second load is redundant, what reaches the standard output, and the
    well-formedness of the process.
  \<^item> \<open>Command_Line\<close>: \<^const>\<open>main_args\<close> is \<^verbatim>\<open>main\<close> (lines 77-170) from the
    arguments of the command line: \<^const>\<open>parse_flags\<close> reads them with the
    four flags of lines 83-92 (\<^const>\<open>formal\<close>, one definition for each) and \<^const>\<open>main\<close> does the
    rest. The lemmas show that the command line is read as the list of
    settings it spells (\<^const>\<open>spellings\<close>, \<^const>\<open>apply_setting\<close>), that a
    flag in error ends the process before anything is started, and what the
    usage of the program reads (\<open>usage_of_program\<close>).
  \<^item> \<open>Deadlines\<close>: clients whose request arrives and whose reading of the
    response takes a given time (\<^const>\<open>timed_client\<close>); for the handlers
    \<^verbatim>\<open>main\<close> starts the deadline is the configured \<^verbatim>\<open>Timeout\<close> in seconds,
    exactly.
  \<^item> \<open>Fmt\<close>: \<^verbatim>\<open>fmt.Sprintf\<close> for the verbs \<^verbatim>\<open>%s\<close> and \<^verbatim>\<open>%v\<close> on errors,
    strings and decoded values (\<^const>\<open>Sprintf\<close>, \<^const>\<open>printArg\<close>,
    \<^const>\<open>printValue\<close>); a map is printed in the order of its keys, so the
    text does not depend on the order in which the model lists the members.
  \<^item> \<open>Lifetime\<close>: the process while it serves, as a run over events, each
    the return of the next \<^verbatim>\<open>Accept\<close> (\<^const>\<open>accept_event\<close>) or a step of one
    handler (\<^const>\<open>event_step\<close>, \<^const>\<open>run_events\<close>); a failed \<^verbatim>\<open>Accept\<close>
    ends the process and with it every handler. \<^const>\<open>serve\<close> is the whole
    program: \<^const>\<open>main_args\<close> up to the loop, then the events. The lemmas
    show the invariant of a run (\<^const>\<open>server_inv\<close>), that a closed
    connection was served as if alone, that all connections are served when
    no \<^verbatim>\<open>Accept\<close> fails, that a connection is served once its own handler
    has had its steps whatever the others do, that nothing happens after the
    end, and that
    \<^const>\<open>main\<close> is the run in which only the main goroutine is scheduled.
  \<^item> \<open>Log_Lines\<close>: the text of the log (\<^const>\<open>lines\<close>): every call the
    program makes has as many operands as its format has verbs
    (\<^const>\<open>fits\<close>), the lines of the handler on each of its paths, and what a
    sink shows of them at each \<^verbatim>\<open>DebugLevel\<close>.
  \<^item> This theory: properties that span components, from the command line
    and the configuration file to the bytes a client receives for the bytes
    it sent.

  \<^bold>\<open>Bounds.\<close> The accept loop is the only unbounded loop. It is modelled over
  the finite list of the outcomes of the \<^verbatim>\<open>Accept\<close> calls made so far; over a
  list without a failure the result is \<^const>\<open>Blocked\<close>, never a return, so no
  theorem reads a return out of a run that does not end. In \<open>Lifetime\<close> the
  same list is consumed one outcome per event, and a run is a finite list of
  events, that is a prefix of an execution: the safety theorems hold for
  every prefix, and the theorem that every connection is served names the
  events that are enough. The handler has no loop; its step relation needs at most five steps, so a schedule is fair
  enough when it names every handler five times (\<^const>\<open>round_robin\<close>).
  The lexer and the parser recurse on the text that is left and on the list
  of tokens, so they are total functions without fuel. The range check of a
  number literal takes the exponent up to 10000 in magnitude, as
  \<^verbatim>\<open>strconv\<close> does; a decimal point more than 310 places to the right is
  out of range and one more than 330 places to the left rounds to zero
  whatever the digits, and in between the comparison is exact integer
  arithmetic.

  \<^bold>\<open>What is not modelled.\<close> The bytes of a frame on the wire and the syntax
  of the configuration file belong to packages that are not part of the
  sources and that the specification leaves opaque: a message is its
  payload, a configuration file is the map of its keys. Of the logger the
  prefix of a line and the writing to the console or the file are not
  modelled. Of \<^verbatim>\<open>fmt\<close> only the verbs the program uses are modelled, and the
  decimal text of a \<^verbatim>\<open>float64\<close> is a parameter. Of the JSON decoder the
  value of a number is not computed (a number is kept as its literal, which
  is what the handler can observe of it), the limit of 10000 on the nesting
  depth, which versions of the library later than the program enforce, is
  left out, and the text of an error is a parameter. Of the package \<^verbatim>\<open>flag\<close>
  what is written for an error is a parameter of the world
  (\<^const>\<open>usage_output\<close>); the theory \<open>Flag_Usage\<close> says what the library
  writes, up to the reason it gives for an invalid boolean and the name of
  the program, which are parameters there. The exit status after \<^verbatim>\<open>-h\<close>
  (\<^const>\<open>help_status\<close>) depends on the version of the toolchain. A client in
  time (\<^const>\<open>timed_client\<close>) is one peer among those the transport admits;
  how long a call takes is otherwise not modelled. Time
  is not modelled beyond the timeout value handed to the transport: whether a
  read meets its deadline is the peer's answer, and a blocking call is one
  step of its handler. Signals are not modelled: the process ends only by \<^verbatim>\<open>os.Exit\<close> or
  by the return of \<^verbatim>\<open>main\<close>.
\<close>

section \<open>From the configuration to the client\<close>

text \<open>
  Claim C28. Every goroutine \<^verbatim>\<open>main\<close> starts is given a timeout between 1 and
  30 seconds, whatever the configuration file holds, so that the duration its
  handler passes to the transport is exact: the range check of the loader
  keeps the 64-bit product from wrapping.
\<close>

theorem spawned_timeouts:
  "list_all (\<lambda>(c, activeChecks, tFlag).
       int_between 1 30 tFlag \<and> sint (timeout_of tFlag) = 1000000000 * sint tFlag)
     (spawned (snd (main e fl)))"
proof -
  consider "spawned (snd (main e fl)) = []"
    | opts ac where "conf_Load (conf_files e) (confFlag fl) zero_options = Inr opts"
        "spawned (snd (main e fl)) = goroutines ac (Timeout opts) (accepted (accepts e))"
    using main_spawned [of e fl] by blast
  then show ?thesis
  proof cases
    case 1
    then show ?thesis by simp
  next
    case 2
    from conf_Load_valid [OF 2(1)] have t: "int_between 1 30 (Timeout opts)"
      by (simp add: options_ok_def)
    then have "int_between (- 9223372036) 9223372036 (Timeout opts)"
      by (simp add: int_between_def)
    from timeout_of_no_wrap [OF this] t 2(2) show ?thesis
      by (simp add: goroutines_def list_all_iff)
  qed
qed

theorem spawned_timeouts_witness:
  "map (\<lambda>(c, activeChecks, tFlag). sint (timeout_of tFlag))
     (spawned (snd (main sample_env default_flags))) = [30000000000, 30000000000]"
  using spawned_timeouts [of sample_env default_flags]
  by (simp add: main_started [OF boots_sample] int_between_def)

text \<open>
  Claim C17. End to end: when the start-up succeeds and the response file
  holds the bytes \<open>canned\<close>, a client of any accepted connection that sends a
  message decoding to \<^verbatim>\<open>{"request": "active checks"}\<close> and takes the response
  receives exactly \<open>canned\<close>, and its connection is closed.
\<close>

theorem served_with_canned_response:
  assumes "boots e fl opts" and "read_file e (ActiveChecksFile opts) = Inr canned"
    and "(c, activeChecks, tFlag) \<in> set (spawned (snd (main e fl)))"
    and "read_reply (remote c) [] (timeout_of tFlag) = Inr js"
    and "unm js = Inr ps" and "index ps ''request'' = GoString ''active checks''"
    and "write_reply (remote c) [ReadEv (timeout_of tFlag) (Inr js)] activeChecks
           (timeout_of tFlag) = None"
  shows "sent (fst (handleConnection unm c activeChecks tFlag lg)) = [canned] \<and>
         closed (fst (handleConnection unm c activeChecks tFlag lg))"
proof -
  from assms(1-3) have c: "history c = []" "activeChecks = canned"
    by (auto simp: main_started goroutines_def split: option.splits)
  then have "\<not> closed c" "sent c = []" by (simp_all add: obs_defs)
  with assms(4-7) c show ?thesis
    by (cases rule: handleConnection_cases [of c tFlag unm activeChecks lg])
       (simp_all add: fst_conn_Read fst_conn_Write is_active_checks_def)
qed

theorem served_with_canned_response_witness:
  "sent (fst (handleConnection (table_decoder known_requests)
       (fresh (client (Inr ''{\"request\":\"active checks\"}'') None)) ''AC1'' 30 [])) = [''AC1'']"
  using served_with_canned_response [of sample_env default_flags sample_options "''AC1''"
      "fresh (client (Inr ''{\"request\":\"active checks\"}'') None)" "''AC1''" 30
      "''{\"request\":\"active checks\"}''" "table_decoder known_requests"
      "[(''request'', GoString ''active checks'')]" "[]"]
  by (simp add: main_started [OF boots_sample])

text \<open>
  Claim C40. A log type other than \<^verbatim>\<open>console\<close> and \<^verbatim>\<open>file\<close> passes the loader
  unchanged and matches neither case of the switch in \<^verbatim>\<open>main\<close>: the logger is
  opened with the sink variable at its zero value.
\<close>

theorem logType_unvalidated:
  assumes "kv ''LogType'' = Some v" and "v \<noteq> ''console''" and "v \<noteq> ''file''"
    and "Unmarshal kv zero_options = Inr opts"
  shows "LogType opts = v \<and> logType_of (LogType opts) = None"
  using assms by (auto simp: Unmarshal_eq setting_def logType_of_def split: sum.splits)

theorem logType_unvalidated_witness:
  "sample_conf ''LogType'' = Some ''syslog'' \<and>
   Unmarshal sample_conf zero_options = Inr sample_options \<and>
   logType_of (LogType sample_options) = None"
  using logType_unvalidated [of sample_conf "''syslog''" sample_options]
  by (simp add: Unmarshal_sample) (simp add: sample_conf_def)

section \<open>Requests as bytes\<close>

text \<open>
  The handler with the decoder of the standard library in place of the
  parameter: what a client gets for the bytes it sends.
\<close>

text \<open>
  Claim C11. A client that sends the text of a JSON object whose last member
  \<^verbatim>\<open>request\<close> is the string \<^verbatim>\<open>active checks\<close>, whatever other members the
  object has and whatever members of that name come before, and that takes
  the response, receives exactly the canned bytes; its connection is closed
  and nothing is logged as a warning.
\<close>

theorem json_request_answered:
  assumes "printable (GoMap ps)" and "representable (GoMap ps)"
    and "map_of (rev ps) ''request'' = Some (GoString ''active checks'')"
    and "\<not> closed c" and "read_reply (remote c) (history c) (timeout_of tFlag) = Inr (encode (GoMap ps))"
    and "write_reply (remote c)
           (history c @ [ReadEv (timeout_of tFlag) (Inr (encode (GoMap ps)))]) activeChecks
           (timeout_of tFlag) = None"
  shows "sent (fst (handleConnection (json_Unmarshal report) c activeChecks tFlag lg)) =
           sent c @ [activeChecks] \<and>
         closed (fst (handleConnection (json_Unmarshal report) c activeChecks tFlag lg)) \<and>
         warnings (snd (handleConnection (json_Unmarshal report) c activeChecks tFlag lg)) =
           warnings lg"
  using assms(3-) json_Unmarshal_norm [OF assms(1,2), of report]
  by (cases rule: handleConnection_cases [of c tFlag "json_Unmarshal report" activeChecks lg])
     (simp_all add: fst_conn_Read fst_conn_Write is_active_checks_def index_norm)

theorem json_request_answered_witness:
  "sent (fst (handleConnection (json_Unmarshal sample_report)
       (fresh (client
          (Inr ''{\"request\":\"ping\",\"host\":\"agent 1\",\"request\":\"active checks\"}'') None))
       ''AC1'' 5 [])) = [''AC1'']"
  using json_request_answered [of "[(''request'', GoString ''ping''),
      (''host'', GoString ''agent 1''), (''request'', GoString ''active checks'')]"
      "fresh (client
         (Inr ''{\"request\":\"ping\",\"host\":\"agent 1\",\"request\":\"active checks\"}'') None)"
      5 "''AC1''" sample_report "[]"]
  by (simp add: encode_def tokens_of_GoMap member_tokens_def representable_def numbers_def
      quote_char_def)

text \<open>
  Claim C24. A request with a number that does not fit a \<^verbatim>\<open>float64\<close> is dropped
  like a malformed one, even when its member \<^verbatim>\<open>request\<close> is the string
  \<^verbatim>\<open>active checks\<close>: nothing is written, the connection is closed and the
  decoder's error is logged as a warning.
\<close>

theorem json_number_out_of_range_dropped:
  assumes "fst (conn_Read c (timeout_of tFlag)) = Inr js"
    and "tokenize js = Some ts" and "n \<in> set (numbers ts)" and "ErrRange n"
  shows "sent (fst (handleConnection (json_Unmarshal report) c activeChecks tFlag lg)) = sent c \<and>
         closed (fst (handleConnection (json_Unmarshal report) c activeChecks tFlag lg)) \<and>
         warnings (snd (handleConnection (json_Unmarshal report) c activeChecks tFlag lg)) =
           warnings lg @ [LogCall Warning ''Unmarshal failed: %s\<newline>'' [ErrArg (report js)]]"
proof -
  from assms(2-4) have "json_Unmarshal report js = Inl (report js)"
    by (auto simp: json_Unmarshal_def decode_in_range_def list_ex_iff)
  with assms(1) show ?thesis
    by (cases rule: handleConnection_cases [of c tFlag "json_Unmarshal report" activeChecks lg])
      simp_all
qed

theorem json_number_out_of_range_dropped_witness:
  "sent (fst (handleConnection (json_Unmarshal sample_report)
       (fresh (client (Inr ''{\"request\":\"active checks\",\"n\":1e999}'') None)) ''AC1'' 5 [])) = []"
  using json_number_out_of_range_dropped
    [of "fresh (client (Inr ''{\"request\":\"active checks\",\"n\":1e999}'') None)" 5
      "''{\"request\":\"active checks\",\"n\":1e999}''"
      "[LBrace, TString ''request'', Colon, TString ''active checks'', Comma, TString ''n'', Colon,
        TNumber ''1e999'', RBrace]" "''1e999''" sample_report "''AC1''" "[]"]
  by (simp add: numbers_def tokenize.simps(2) lex_defs float_defs)

text \<open>
  Claim C12. A client that sends the text of a JSON object whose last member
  \<^verbatim>\<open>request\<close> is a string other than \<^verbatim>\<open>active checks\<close> gets no bytes and a
  closed connection, and the one warning logged reads
  \<^verbatim>\<open>Unsupported request: \<close> followed by that string and a line feed.
\<close>

theorem json_unsupported_request_logged:
  assumes "printable (GoMap ps)" and "representable (GoMap ps)"
    and "map_of (rev ps) ''request'' = Some (GoString s)" and "s \<noteq> ''active checks''"
    and "\<not> closed c" and "read_reply (remote c) (history c) (timeout_of tFlag) = Inr (encode (GoMap ps))"
  shows "sent (fst (handleConnection (json_Unmarshal report) c activeChecks tFlag lg)) = sent c \<and>
         closed (fst (handleConnection (json_Unmarshal report) c activeChecks tFlag lg)) \<and>
         lines ft (warnings (snd (handleConnection (json_Unmarshal report) c activeChecks tFlag lg))) =
           lines ft (warnings lg) @ [''Unsupported request: '' @ s @ ''\<newline>'']"
proof -
  let ?qs = "last_wins (map (\<lambda>(k, v). (k, norm v)) ps)"
  from assms(5,6) have read: "fst (conn_Read c (timeout_of tFlag)) = Inr (encode (GoMap ps))"
    by (simp add: fst_conn_Read)
  from assms(3) have request: "index ?qs ''request'' = GoString s"
    by (simp add: index_norm)
  have decoded: "json_Unmarshal report (encode (GoMap ps)) = Inr ?qs"
    using assms(1,2) by (rule json_Unmarshal_norm)
  from read decoded request assms(4) have "sent (fst (handleConnection (json_Unmarshal report) c
        activeChecks tFlag lg)) = sent c \<and>
      closed (fst (handleConnection (json_Unmarshal report) c activeChecks tFlag lg))"
    by (cases rule: handleConnection_cases [of c tFlag "json_Unmarshal report" activeChecks lg])
       (simp_all add: is_active_checks_def)
  with unsupported_request_named [where unm = "json_Unmarshal report", OF read decoded request assms(4)]
  show ?thesis
    by simp
qed

theorem json_unsupported_request_logged_witness:
  "lines (\<lambda>s. s) (warnings (snd (handleConnection (json_Unmarshal sample_report)
       (fresh (client (Inr ''{\"request\":\"ping\"}'') None)) ''AC1'' 5 []))) =
   [''Unsupported request: ping\<newline>'']"
  using json_unsupported_request_logged [of "[(''request'', GoString ''ping'')]" "''ping''"
      "fresh (client (Inr ''{\"request\":\"ping\"}'') None)" 5 sample_report "''AC1''" "[]" "\<lambda>s. s"]
  by (simp add: encode_def tokens_of_GoMap member_tokens_def representable_def numbers_def
      quote_char_def)

text \<open>
  The request is printed as the client wrote it. A line feed in the string,
  which JSON writes as an escape, ends the line of the warning in the log, and
  what follows it stands at the start of a line like an entry of its own.
\<close>

lemma warning_with_line_feed:
  "lines ft (warnings (snd (handleConnection (json_Unmarshal report)
       (fresh (client (Inr (''{\"request\":\"x'' @ [backslash, CHR ''n''] @ ''Listen failed\"}'')) None))
       ac 5 []))) =
   [''Unsupported request: x\<newline>Listen failed\<newline>'']"
proof -
  have "json_Unmarshal report (''{\"request\":\"x'' @ [backslash, CHR ''n''] @ ''Listen failed\"}'') =
      Inr [(''request'', GoString ''x\<newline>Listen failed'')]"
    by (simp add: json_eval)
  from unsupported_request_named [where unm = "json_Unmarshal report" and lg = "[]", OF _ this]
  show ?thesis
    by (simp add: fst_conn_Read)
qed

text \<open>
  The decoder does not ask for the canonical text. A request is answered when
  its last member \<^verbatim>\<open>request\<close> is the string, whether the text has white space,
  spells key or value with escapes, or repeats the key; the text \<^verbatim>\<open>null\<close>
  decodes without an error and is then refused as an unsupported request.
\<close>

lemma json_requests_decoded:
  "json_Unmarshal report '' { \"request\" : \"active checks\" } '' =
     Inr [(''request'', GoString ''active checks'')]"
  "json_Unmarshal report ''{\"request\":\"ping\",\"request\":\"active checks\"}'' =
     Inr [(''request'', GoString ''active checks'')]"
  "json_Unmarshal report ''{\"request\":\"active checks\",\"request\":1}'' =
     Inr [(''request'', GoFloat64 ''1'')]"
  "json_Unmarshal report ''null'' = Inr []"
  by (simp_all add: json_eval)

lemma null_request_unsupported:
  "snd (handleConnection (json_Unmarshal report) (fresh (client (Inr ''null'') None)) ac 5 []) =
     [LogCall Debug got_format [StrArg ''null''],
      LogCall Warning ''Unsupported request: %s\<newline>'' [IfaceArg GoNil]]"
  using json_requests_decoded(4) [of report]
  by (cases rule: handleConnection_cases
        [of "fresh (client (Inr ''null'') None)" 5 "json_Unmarshal report" ac "[]"])
     (auto simp: is_active_checks_def log_defs)

section \<open>From the command line to every client\<close>

text \<open>
  Claim C15. The whole program: when the command line is accepted, the
  configuration it names loads, the logger opens, the response file is read,
  the port is bound and no call of \<^verbatim>\<open>Accept\<close> fails, every connection is
  served, however the scheduler interleaves the main goroutine and the
  handlers, as long as all connections are accepted and each handler then
  gets five steps: the process is still running, each handler is closed, and
  each connection is what \<^verbatim>\<open>handleConnection\<close> makes of it with the bytes of
  the response file and the configured timeout.
\<close>

theorem started_server_serves_all:
  assumes "Parse formal default_flags argv = Inr (fl, rest)" and "boots e fl opts"
    and "read_file e (ActiveChecksFile opts) = Inr canned"
    and "listen_reply e (listen_address opts) = None"
    and "accept_failure (accepts e) = None"
    and "length (accepts e) \<le> count_list evs MainAccepts"
    and "\<forall>j < length (accepts e). 5 \<le> count_list sched j"
  shows "map_sum id (\<lambda>s. (fst (sys s), exited s)) (serve unm e argv (evs @ map HandlerSteps sched)) =
     Inr (map (\<lambda>p. (Closed, fst (handleConnection unm (fresh p) canned (Timeout opts) [])))
            (accepted (accepts e)),
          False)"
proof -
  from assms(5) have "\<not> exited (run_events unm canned (Timeout opts) (evs @ map HandlerSteps sched)
      (listening_server (accepts e) (log (started fl opts))))"
    using pending_run_events [of "listening_server (accepts e) (log (started fl opts))"
        unm canned "Timeout opts" "evs @ map HandlerSteps sched"]
    by (simp add: listening_server_def del: run_events_simps(3))
  with assms show ?thesis
    by (simp add: serve_started all_served_without_failure del: run_events_simps(3))
qed

theorem started_server_serves_all_witness:
  "map_sum id (\<lambda>s. (map (\<lambda>slot. (fst slot, sent (snd slot))) (fst (sys s)), exited s))
     (serve (json_Unmarshal sample_report) sample_env [''-c'', ''mock_server.conf'']
        ([MainAccepts, HandlerSteps 0, HandlerSteps 0, MainAccepts] @
         map HandlerSteps (round_robin 2))) =
   Inr ([(Closed, [''AC1'']), (Closed, [])], False)"
proof -
  have decoded:
    "json_Unmarshal sample_report ''{\"request\":\"active checks\"}'' =
      Inr [(''request'', GoString ''active checks'')]"
    "json_Unmarshal sample_report ''{\"request\":\"ping\"}'' = Inr [(''request'', GoString ''ping'')]"
    by (simp_all add: json_eval)
  have parsed: "Parse formal default_flags [''-c'', ''mock_server.conf''] = Inr (default_flags, [])"
    by (simp add: Parse.simps(2) name_value_def default_flags_def confDefault_def)
  have "round_robin 2 = [0, 1, 0, 1, 0, 1, 0, 1, 0, 1]"
    by (simp add: round_robin_def numeral_eq_Suc upt_rec)
  then have fair: "\<forall>j < length (accepts sample_env). 5 \<le> count_list (round_robin 2) j"
    by (simp add: less_Suc_eq)
  have served: "read_file sample_env (ActiveChecksFile sample_options) = Inr ''AC1''"
    "listen_reply sample_env (listen_address sample_options) = None"
    "accept_failure (accepts sample_env) = None"
    "length (accepts sample_env) \<le>
       count_list [MainAccepts, HandlerSteps 0, HandlerSteps 0, MainAccepts] MainAccepts"
    by (simp_all add: sample_options_def)
  from started_server_serves_all [OF parsed boots_sample served fair,
      of "json_Unmarshal sample_report"]
  show ?thesis
    by (cases "serve (json_Unmarshal sample_report) sample_env [''-c'', ''mock_server.conf'']
          ([MainAccepts, HandlerSteps 0, HandlerSteps 0, MainAccepts] @
           map HandlerSteps (round_robin 2))")
       (simp_all add: decoded handler_defs conn_defs obs_defs Let_def sample_options_def)
qed

end
